theory Spec2Isabelle
  imports Complex_Main "HOL-Library.Word" "HOL-Library.Signed_Division"
begin

section \<open>Single-precision arithmetic\<close>

text \<open>
  The firmware computes with C \<open>float\<close>, IEEE 754 binary32 with round to nearest, ties to
  even. A finite binary32 value is a rational number; \<open>fl32\<close> rounds a rational to the
  binary32 grid (24 significant bits, exponents from -126 to 127, gradual underflow below).
  Every arithmetic operation of the source is the exact operation followed by \<open>fl32\<close>.
  Infinities and NaN are outside the model: temperatures and their sums stay far below
  \<open>2 ^ 128\<close>.
\<close>

type_synonym float32 = rat

fun expo_up :: "nat \<Rightarrow> rat \<Rightarrow> int" where
  "expo_up 0 a = 0"
| "expo_up (Suc k) a = (if 2 \<le> a then expo_up k (a / 2) + 1 else 0)"

fun expo_down :: "nat \<Rightarrow> rat \<Rightarrow> int" where
  "expo_down 0 a = 0"
| "expo_down (Suc k) a = (if a < 1 then expo_down k (2 * a) - 1 else 0)"

definition expo32 :: "rat \<Rightarrow> int" where
  "expo32 a = (if 1 \<le> a then expo_up 127 a else expo_down 126 a)"

definition round_half_even :: "rat \<Rightarrow> int" where
  "round_half_even q =
     (let f = \<lfloor>q\<rfloor>; d = q - of_int f
      in if d < 1 / 2 then f
         else if 1 / 2 < d then f + 1
         else if even f then f else f + 1)"

definition fl32 :: "rat \<Rightarrow> float32" where
  "fl32 x =
     (let a = \<bar>x\<bar>; u = power_int 2 (expo32 a - 23)
      in sgn x * of_int (round_half_even (a / u)) * u)"

definition fadd :: "float32 \<Rightarrow> float32 \<Rightarrow> float32" where
  "fadd a b = fl32 (a + b)"

definition fsub :: "float32 \<Rightarrow> float32 \<Rightarrow> float32" where
  "fsub a b = fl32 (a - b)"

definition fdiv :: "float32 \<Rightarrow> float32 \<Rightarrow> float32" where
  "fdiv a b = fl32 (a / b)"

text \<open>
  The finite values of the type: the fixed points of the rounding below \<open>2 ^ 128\<close>. Every
  value that the sensor library or an arithmetic operation returns is one of them.
\<close>

definition binary32 :: "rat \<Rightarrow> bool" where
  "binary32 x = (fl32 x = x \<and> \<bar>x\<bar> < 2 ^ 128)"

text \<open>
  \<open>DEVICE_DISCONNECTED_C\<close> is a macro of the DallasTemperature header, the value that
  \<open>getTempC\<close> returns for an absent sensor. The firmware writes the same value as the
  literal \<open>-127.0\<close> wherever it marks a reading invalid.
\<close>

definition DEVICE_DISCONNECTED_C :: float32 where
  "DEVICE_DISCONNECTED_C = - 127"

section \<open>Sensor addresses\<close>

type_synonym byte = "8 word"

text \<open>\<open>DeviceAddress\<close> is \<open>uint8_t[8]\<close>.\<close>

datatype DeviceAddress = DeviceAddress byte byte byte byte byte byte byte byte

fun addr_byte :: "DeviceAddress \<Rightarrow> nat \<Rightarrow> byte" where
  "addr_byte (DeviceAddress b0 b1 b2 b3 b4 b5 b6 b7) i = [b0, b1, b2, b3, b4, b5, b6, b7] ! i"

definition isAddressEmpty :: "DeviceAddress \<Rightarrow> bool" where
  "isAddressEmpty addr = list_all (\<lambda>i. addr_byte addr i = 0) [0..<8]"

definition addressesMatch :: "DeviceAddress \<Rightarrow> DeviceAddress \<Rightarrow> bool" where
  "addressesMatch addr1 addr2 = list_all (\<lambda>i. addr_byte addr1 i = addr_byte addr2 i) [0..<8]"

definition empty_address :: DeviceAddress where
  "empty_address = DeviceAddress 0 0 0 0 0 0 0 0"

section \<open>Grid configuration\<close>

text \<open>
  The macros \<open>ROWS\<close>, \<open>COLS\<close> and \<open>TOTAL_SENSORS\<close> are parameters of the model;
  \<open>bEEmapiX_config\<close> holds the values the source defines.
\<close>

record grid_config =
  ROWS :: nat
  COLS :: nat
  TOTAL_SENSORS :: nat

definition bEEmapiX_config :: grid_config where
  "bEEmapiX_config = \<lparr>ROWS = 3, COLS = 7, TOTAL_SENSORS = 21\<rparr>"

definition config_ok :: "grid_config \<Rightarrow> bool" where
  "config_ok cfg = (0 < ROWS cfg \<and> 0 < COLS cfg \<and> TOTAL_SENSORS cfg = ROWS cfg * COLS cfg)"

text \<open>The nested loops \<open>for row < ROWS, for col < COLS\<close>, in row-major order.\<close>

definition for_grid :: "grid_config \<Rightarrow> (nat \<Rightarrow> nat \<Rightarrow> 'a \<Rightarrow> 'a) \<Rightarrow> 'a \<Rightarrow> 'a" where
  "for_grid cfg body = fold (\<lambda>(row, col). body row col) (List.product [0..<ROWS cfg] [0..<COLS cfg])"

definition set2 :: "(nat \<Rightarrow> nat \<Rightarrow> 'a) \<Rightarrow> nat \<Rightarrow> nat \<Rightarrow> 'a \<Rightarrow> (nat \<Rightarrow> nat \<Rightarrow> 'a)" where
  "set2 g row col v = g(row := (g row)(col := v))"

section \<open>Non-volatile storage\<close>

text \<open>
  A \<open>Preferences\<close> namespace is a typed key-value store. A read of a missing key, or of a
  key of another type, yields the default (for \<open>getBytes\<close>: leaves the buffer as it is).
  The store is taken to open successfully.
\<close>

datatype nvs_value = NvsBool bool | NvsBytes DeviceAddress | NvsFloat float32

type_synonym nvs = "string \<rightharpoonup> nvs_value"

definition getBool :: "nvs \<Rightarrow> string \<Rightarrow> bool \<Rightarrow> bool" where
  "getBool store key dflt = (case store key of Some (NvsBool b) \<Rightarrow> b | _ \<Rightarrow> dflt)"

definition getBytes :: "nvs \<Rightarrow> string \<Rightarrow> DeviceAddress \<Rightarrow> DeviceAddress" where
  "getBytes store key buf = (case store key of Some (NvsBytes a) \<Rightarrow> a | _ \<Rightarrow> buf)"

definition getFloat :: "nvs \<Rightarrow> string \<Rightarrow> float32 \<Rightarrow> float32" where
  "getFloat store key dflt = (case store key of Some (NvsFloat x) \<Rightarrow> x | _ \<Rightarrow> dflt)"

definition digit_char :: "nat \<Rightarrow> char" where
  "digit_char d = ''0123456789'' ! d"

fun decimal :: "nat \<Rightarrow> string" where
  "decimal n = (if n < 10 then [digit_char n] else decimal (n div 10) @ [digit_char (n mod 10)])"

declare decimal.simps [simp del]

text \<open>\<open>snprintf(key, sizeof(key), ...)\<close> with \<open>char key[6]\<close> keeps at most five characters.\<close>

definition map_key :: "nat \<Rightarrow> nat \<Rightarrow> string" where
  "map_key row col = take 5 (decimal row @ ''_'' @ decimal col)"

definition cal_key :: "nat \<Rightarrow> nat \<Rightarrow> string" where
  "cal_key row col = take 5 (''c'' @ decimal row @ ''_'' @ decimal col)"

section \<open>Firmware state\<close>

text \<open>
  The global variables of the sketch, the function-local \<open>static\<close> timers, and the two
  \<open>Preferences\<close> namespaces \<open>sensor-map\<close> and \<open>sensor-cal\<close>. Arrays are functions
  from indices; an access whose index the source computes is checked against the array
  bounds where it is made, and an access outside them makes the operation return \<open>None\<close>.
\<close>

record firmware =
  SEND_PERIOD :: "32 word"
  MEASUREMENT_PERIOD :: "32 word"
  sensorMap :: "nat \<Rightarrow> nat \<Rightarrow> DeviceAddress"
  mappingComplete :: bool
  temperatureGrid :: "nat \<Rightarrow> nat \<Rightarrow> float32"
  calibrationOffset :: "nat \<Rightarrow> nat \<Rightarrow> float32"
  calibrationLoaded :: bool
  lastMeasurementTime :: "32 word"
  lastSendTime :: "32 word"
  learningMode :: bool
  learnedSensors :: int
  baselineTemps :: "nat \<Rightarrow> float32"
  discoveredAddresses :: "nat \<Rightarrow> DeviceAddress"
  discoveredCount :: int
  lastCheck :: "32 word"
  lastWifiTry :: "32 word"
  serialNumBuffer :: string
  WIFI_SSID :: string
  WIFI_PASSWORD :: string
  SERVER_URL :: string
  sensor_map_nvs :: nvs
  sensor_cal_nvs :: nvs

text \<open>One conversion cycle of the bus: the value \<open>getTempC\<close> returns for each address.\<close>

type_synonym bus = "DeviceAddress \<Rightarrow> float32"

section \<open>Learning mode\<close>

fun baseline_loop :: "grid_config \<Rightarrow> bus \<Rightarrow> firmware \<Rightarrow> nat list \<Rightarrow> firmware option" where
  "baseline_loop cfg temps s [] = Some s"
| "baseline_loop cfg temps s (i # rest) =
     (if TOTAL_SENSORS cfg \<le> i then None
      else baseline_loop cfg temps
             (s\<lparr>baselineTemps := (baselineTemps s)(i := temps (discoveredAddresses s i))\<rparr>) rest)"

definition startLearningMode :: "grid_config \<Rightarrow> bus \<Rightarrow> firmware \<Rightarrow> firmware option" where
  "startLearningMode cfg temps s =
     baseline_loop cfg temps (s\<lparr>learningMode := True, learnedSensors := 0\<rparr>)
       [0..<nat (discoveredCount s)]"

definition finishLearning :: "grid_config \<Rightarrow> firmware \<Rightarrow> firmware" where
  "finishLearning cfg s =
     (let store = for_grid cfg
            (\<lambda>row col st. st(map_key row col \<mapsto> NvsBytes (sensorMap s row col)))
            (sensor_map_nvs s)
      in s\<lparr>sensor_map_nvs := store(''complete'' \<mapsto> NvsBool True),
           learningMode := False,
           mappingComplete := True\<rparr>)"

text \<open>The search of the whole map for the candidate's address.\<close>

definition alreadyLearned :: "grid_config \<Rightarrow> (nat \<Rightarrow> nat \<Rightarrow> DeviceAddress) \<Rightarrow> DeviceAddress \<Rightarrow> bool" where
  "alreadyLearned cfg smap addr =
     list_ex (\<lambda>r. list_ex (\<lambda>c. addressesMatch (smap r c) addr) [0..<COLS cfg]) [0..<ROWS cfg]"

text \<open>
  The body of \<open>if (diff > 1.5)\<close> up to its \<open>break\<close>, for the sensor of index \<open>i\<close>.
  \<open>row\<close> and \<open>col\<close> are C \<open>int\<close> quotient and remainder.
\<close>

definition heat_found :: "grid_config \<Rightarrow> firmware \<Rightarrow> nat \<Rightarrow> float32 \<Rightarrow> firmware option" where
  "heat_found cfg s i currentTemp =
     (let row = learnedSensors s sdiv int (COLS cfg);
          col = learnedSensors s smod int (COLS cfg)
      in if alreadyLearned cfg (sensorMap s) (discoveredAddresses s i) then Some s
         else if 0 \<le> row \<and> row < int (ROWS cfg) \<and> 0 \<le> col \<and> col < int (COLS cfg) then
           (let s1 = s\<lparr>sensorMap := set2 (sensorMap s) (nat row) (nat col) (discoveredAddresses s i),
                        learnedSensors := learnedSensors s + 1,
                        baselineTemps := (baselineTemps s)(i := currentTemp)\<rparr>
            in Some (if learnedSensors s1 < int (TOTAL_SENSORS cfg) then s1
                     else finishLearning cfg s1))
         else None)"

fun heat_loop :: "grid_config \<Rightarrow> bus \<Rightarrow> firmware \<Rightarrow> nat list \<Rightarrow> firmware option" where
  "heat_loop cfg temps s [] = Some s"
| "heat_loop cfg temps s (i # rest) =
     (if TOTAL_SENSORS cfg \<le> i then None
      else (let currentTemp = temps (discoveredAddresses s i);
                diff = fsub currentTemp (baselineTemps s i)
            in if 3 / 2 < diff then heat_found cfg s i currentTemp
               else heat_loop cfg temps s rest))"

definition checkForHeatSignal :: "grid_config \<Rightarrow> 32 word \<Rightarrow> bus \<Rightarrow> firmware \<Rightarrow> firmware option" where
  "checkForHeatSignal cfg millis temps s =
     (if millis - lastCheck s < 1000 then Some s
      else heat_loop cfg temps (s\<lparr>lastCheck := millis\<rparr>) [0..<nat (discoveredCount s)])"

section \<open>Start-up\<close>

text \<open>
  \<open>setupSensors\<close> receives what the bus reports: \<open>devices\<close> holds, for each device index,
  the address \<open>getAddress\<close> delivers, or \<open>None\<close> where it fails; its length is
  \<open>getDeviceCount()\<close>.
\<close>

definition setupSensors :: "grid_config \<Rightarrow> DeviceAddress option list \<Rightarrow> firmware \<Rightarrow> firmware" where
  "setupSensors cfg devices s =
     (let s1 = s\<lparr>discoveredCount := int (length devices)\<rparr>
      in if discoveredCount s1 = 0 then s1
         else
           (let found = fold (\<lambda>i da. case devices ! i of Some a \<Rightarrow> da(i := a) | None \<Rightarrow> da)
                          [0..<min (length devices) (TOTAL_SENSORS cfg)] (discoveredAddresses s1)
            in s1\<lparr>discoveredAddresses := found,
                   temperatureGrid := for_grid cfg (\<lambda>row col g. set2 g row col (- 127))
                                        (temperatureGrid s1),
                   sensorMap := for_grid cfg (\<lambda>row col m. set2 m row col empty_address)
                                  (sensorMap s1)\<rparr>))"

definition loadOrLearnMapping :: "grid_config \<Rightarrow> bus \<Rightarrow> firmware \<Rightarrow> firmware option" where
  "loadOrLearnMapping cfg temps s =
     (let s1 = s\<lparr>mappingComplete := getBool (sensor_map_nvs s) ''complete'' False\<rparr>
      in if mappingComplete s1 then
           Some (s1\<lparr>sensorMap := for_grid cfg
                   (\<lambda>row col m. set2 m row col (getBytes (sensor_map_nvs s1) (map_key row col) (m row col)))
                   (sensorMap s1)\<rparr>)
         else startLearningMode cfg temps s1)"

section \<open>Calibration\<close>

definition loadCalibration :: "grid_config \<Rightarrow> firmware \<Rightarrow> firmware" where
  "loadCalibration cfg s =
     (let s1 = s\<lparr>calibrationOffset := for_grid cfg (\<lambda>row col g. set2 g row col 0)
                                          (calibrationOffset s)\<rparr>;
          s2 = s1\<lparr>calibrationLoaded := getBool (sensor_cal_nvs s1) ''done'' False\<rparr>
      in if calibrationLoaded s2 then
           s2\<lparr>calibrationOffset := for_grid cfg
                 (\<lambda>row col g. set2 g row col (getFloat (sensor_cal_nvs s2) (cal_key row col) 0))
                 (calibrationOffset s2)\<rparr>
         else s2)"

text \<open>
  The outcome of \<open>runCalibration\<close> is the diagnostic it prints: the mapping is not complete,
  too few valid sensors, or the calibration was saved.
\<close>

datatype cal_outcome = MappingIncomplete | InsufficientSensors | CalibrationSaved

text \<open>The first pair of loops: \<open>rawTemps\<close>, \<open>sum\<close> (here \<open>tsum\<close>) and \<open>count\<close>.\<close>

definition cal_read ::
  "firmware \<Rightarrow> bus \<Rightarrow> nat \<Rightarrow> nat \<Rightarrow> (nat \<Rightarrow> nat \<Rightarrow> float32) \<times> float32 \<times> int
     \<Rightarrow> (nat \<Rightarrow> nat \<Rightarrow> float32) \<times> float32 \<times> int" where
  "cal_read s temps row col cur =
     (case cur of (rawTemps, tsum, count) \<Rightarrow>
        if \<not> isAddressEmpty (sensorMap s row col) then
          (let temp = temps (sensorMap s row col)
           in if temp \<le> DEVICE_DISCONNECTED_C then (set2 rawTemps row col (- 127), tsum, count)
              else (set2 rawTemps row col temp, fadd tsum temp, count + 1))
        else (set2 rawTemps row col (- 127), tsum, count))"

text \<open>The second pair of loops: the offsets in memory and the values put into the store.\<close>

definition cal_write ::
  "(nat \<Rightarrow> nat \<Rightarrow> float32) \<Rightarrow> float32 \<Rightarrow> nat \<Rightarrow> nat \<Rightarrow> (nat \<Rightarrow> nat \<Rightarrow> float32) \<times> nvs
     \<Rightarrow> (nat \<Rightarrow> nat \<Rightarrow> float32) \<times> nvs" where
  "cal_write rawTemps avg row col cur =
     (case cur of (offsets, store) \<Rightarrow>
        if DEVICE_DISCONNECTED_C < rawTemps row col then
          (let off = fsub avg (rawTemps row col)
           in (set2 offsets row col off, store(cal_key row col \<mapsto> NvsFloat off)))
        else (set2 offsets row col 0, store))"

text \<open>\<open>rawTemps\<close> is a local array; the first loops write every entry before any is read.\<close>

definition cal_readings :: "grid_config \<Rightarrow> firmware \<Rightarrow> bus \<Rightarrow> (nat \<Rightarrow> nat \<Rightarrow> float32) \<times> float32 \<times> int" where
  "cal_readings cfg s temps = for_grid cfg (cal_read s temps) (\<lambda>row col. 0, 0, 0)"

definition runCalibration :: "grid_config \<Rightarrow> bus \<Rightarrow> firmware \<Rightarrow> cal_outcome \<times> firmware" where
  "runCalibration cfg temps s =
     (if \<not> mappingComplete s then (MappingIncomplete, s)
      else
        (case cal_readings cfg s temps of (rawTemps, tsum, count) \<Rightarrow>
           if count < 2 then (InsufficientSensors, s)
           else
             (let avg = fdiv tsum (of_int count)
              in case for_grid cfg (cal_write rawTemps avg) (calibrationOffset s, sensor_cal_nvs s) of
                   (offsets, store) \<Rightarrow>
                     (CalibrationSaved,
                      s\<lparr>calibrationOffset := offsets,
                        sensor_cal_nvs := store(''done'' \<mapsto> NvsBool True),
                        calibrationLoaded := True\<rparr>))))"

section \<open>Measurement\<close>

definition measureTemperatures :: "grid_config \<Rightarrow> bus \<Rightarrow> firmware \<Rightarrow> firmware" where
  "measureTemperatures cfg temps s =
     s\<lparr>temperatureGrid := for_grid cfg
          (\<lambda>row col g.
             if \<not> isAddressEmpty (sensorMap s row col) then
               (let temp = temps (sensorMap s row col)
                in set2 g row col
                     (if temp \<le> DEVICE_DISCONNECTED_C then - 127
                      else fadd temp (calibrationOffset s row col)))
             else set2 g row col (- 127))
          (temperatureGrid s)\<rparr>"

text \<open>
  The earlier variant of the sketch (v3.0, without calibration) stores the reading as it is.
\<close>

definition measureTemperatures_v3 :: "grid_config \<Rightarrow> bus \<Rightarrow> firmware \<Rightarrow> firmware" where
  "measureTemperatures_v3 cfg temps s =
     s\<lparr>temperatureGrid := for_grid cfg
          (\<lambda>row col g.
             if \<not> isAddressEmpty (sensorMap s row col) then
               (let temp = temps (sensorMap s row col) in set2 g row col temp)
             else set2 g row col (- 127))
          (temperatureGrid s)\<rparr>"


text \<open>A grid sample is valid when it lies above the sentinel, the test \<open>sendData\<close> makes.\<close>

definition sample_valid :: "float32 \<Rightarrow> bool" where
  "sample_valid temp = (DEVICE_DISCONNECTED_C < temp)"

section \<open>Telemetry\<close>

record stats_block =
  min_temp :: float32
  max_temp :: float32
  avg_temp :: float32
  valid_readings :: int

text \<open>
  The JSON document of one report. The key \<open>statistics\<close> is present exactly when the
  field holds \<open>Some\<close>. The document is taken to have room for all its members.
\<close>

record telemetry_report =
  dev_num :: string
  device_type :: string
  version :: string
  timestamp :: "32 word"
  interval_s :: "32 word"
  rows :: nat
  cols :: nat
  temperature_grid :: "float32 list list"
  statistics :: "stats_block option"

definition stats_step ::
  "(nat \<Rightarrow> nat \<Rightarrow> float32) \<Rightarrow> nat \<Rightarrow> nat \<Rightarrow> float32 \<times> float32 \<times> float32 \<times> int
     \<Rightarrow> float32 \<times> float32 \<times> float32 \<times> int" where
  "stats_step grid row col cur =
     (case cur of (minTemp, maxTemp, sumTemp, validReadings) \<Rightarrow>
        (let temp = grid row col
         in if DEVICE_DISCONNECTED_C < temp then
              (if temp < minTemp then temp else minTemp,
               if maxTemp < temp then temp else maxTemp,
               fadd sumTemp temp,
               validReadings + 1)
            else cur))"

definition build_report :: "grid_config \<Rightarrow> 32 word \<Rightarrow> firmware \<Rightarrow> telemetry_report" where
  "build_report cfg millis s =
     (case for_grid cfg (stats_step (temperatureGrid s)) (999, - 999, 0, 0) of
        (minTemp, maxTemp, sumTemp, validReadings) \<Rightarrow>
          \<lparr>dev_num = serialNumBuffer s,
           device_type = ''heatmap'',
           version = ''0.1'',
           timestamp = millis,
           interval_s = SEND_PERIOD s div 1000,
           rows = ROWS cfg,
           cols = COLS cfg,
           temperature_grid =
             map (\<lambda>row. map (\<lambda>col. temperatureGrid s row col) [0..<COLS cfg]) [0..<ROWS cfg],
           statistics =
             (if 0 < validReadings then
                Some \<lparr>min_temp = minTemp, max_temp = maxTemp,
                      avg_temp = fdiv sumTemp (of_int validReadings),
                      valid_readings = validReadings\<rparr>
              else None)\<rparr>)"

text \<open>
  The reply to the POST: the HTTP client's return code and the body as ArduinoJson presents
  it. \<open>JsonDoc e iv\<close> is a body that parses; \<open>e\<close> is the number under \<open>"edit"\<close> if there
  is one, and \<open>iv\<close> is \<open>Some v\<close> when the key \<open>"interval"\<close> is present, \<open>v\<close> being what
  \<open>as<unsigned long>()\<close> makes of it.
\<close>

datatype http_body = NotJson | JsonDoc "int option" "32 word option"

definition apply_directive :: "http_body \<Rightarrow> firmware \<Rightarrow> firmware" where
  "apply_directive body s =
     (case body of
        NotJson \<Rightarrow> s
      | JsonDoc e iv \<Rightarrow>
          (case iv of
             None \<Rightarrow> s
           | Some v \<Rightarrow>
               if e = Some 1 then
                 (let newInterval = v * 1000;
                      newInterval = (if newInterval < 10000 then 10000 else newInterval);
                      s1 = s\<lparr>SEND_PERIOD := newInterval\<rparr>
                  in s1\<lparr>MEASUREMENT_PERIOD := SEND_PERIOD s1\<rparr>)
               else s))"

text \<open>\<open>sendData\<close> yields the report it posted, if it posted one, and the new state.\<close>

definition sendData ::
  "grid_config \<Rightarrow> 32 word \<Rightarrow> bool \<Rightarrow> int \<Rightarrow> http_body \<Rightarrow> firmware \<Rightarrow> telemetry_report option \<times> firmware" where
  "sendData cfg millis wifi_connected httpResponseCode response s =
     (if \<not> wifi_connected then (None, s)
      else (Some (build_report cfg millis s),
            if 0 < httpResponseCode then apply_directive response s else s))"

section \<open>Serial commands and the main loop\<close>

text \<open>A command line as \<open>serialEvent\<close> recognises it; \<open>SET_INTERVAL\<close> carries the value of \<open>sec\<close>.\<close>

datatype command =
  HELP | CALIBRATE | RESET_CAL | RESET | SHOW
  | SET_WIFI string string | SET_WIFI_malformed | SET_SERVER string | SET_INTERVAL "32 word"
  | Unknown

fun run_command :: "grid_config \<Rightarrow> bus \<Rightarrow> command \<Rightarrow> firmware \<Rightarrow> firmware" where
  "run_command cfg temps CALIBRATE s = snd (runCalibration cfg temps s)"
| "run_command cfg temps RESET_CAL s =
     s\<lparr>sensor_cal_nvs := Map.empty,
       calibrationLoaded := False,
       calibrationOffset := for_grid cfg (\<lambda>row col g. set2 g row col 0) (calibrationOffset s)\<rparr>"
| "run_command cfg temps RESET s =
     s\<lparr>sensor_map_nvs := Map.empty, sensor_cal_nvs := Map.empty, calibrationLoaded := False\<rparr>"
| "run_command cfg temps (SET_WIFI ssid pass) s =
     s\<lparr>WIFI_SSID := take 32 ssid, WIFI_PASSWORD := take 64 pass\<rparr>"
| "run_command cfg temps (SET_SERVER url) s = s\<lparr>SERVER_URL := take 128 url\<rparr>"
| "run_command cfg temps (SET_INTERVAL sec) s =
     (if 10 \<le> sec then
        (let s1 = s\<lparr>SEND_PERIOD := sec * 1000\<rparr> in s1\<lparr>MEASUREMENT_PERIOD := SEND_PERIOD s1\<rparr>)
      else s)"
| "run_command cfg temps _ s = s"

definition serialEvent :: "grid_config \<Rightarrow> bus \<Rightarrow> command list \<Rightarrow> firmware \<Rightarrow> firmware" where
  "serialEvent cfg temps lines s = fold (run_command cfg temps) lines s"

text \<open>What one pass of \<open>loop\<close> receives from outside.\<close>

record loop_input =
  in_millis :: "32 word"
  in_wifi :: bool
  in_bus :: bus
  in_http_code :: int
  in_http_body :: http_body
  in_serial :: "command list"

definition normal_work :: "grid_config \<Rightarrow> loop_input \<Rightarrow> firmware \<Rightarrow> firmware" where
  "normal_work cfg inp s =
     (let currentTime = in_millis inp;
          s1 = (if MEASUREMENT_PERIOD s \<le> currentTime - lastMeasurementTime s
                then measureTemperatures cfg (in_bus inp) (s\<lparr>lastMeasurementTime := currentTime\<rparr>)
                else s)
      in if SEND_PERIOD s1 \<le> currentTime - lastSendTime s1
         then snd (sendData cfg currentTime (in_wifi inp) (in_http_code inp) (in_http_body inp)
                     (s1\<lparr>lastSendTime := currentTime\<rparr>))
         else s1)"

definition loop :: "grid_config \<Rightarrow> loop_input \<Rightarrow> firmware \<Rightarrow> firmware option" where
  "loop cfg inp s =
     (let currentTime = in_millis inp;
          s1 = (if \<not> in_wifi inp \<and> 30000 < currentTime - lastWifiTry s
                then s\<lparr>lastWifiTry := currentTime\<rparr> else s)
      in case (if learningMode s1 then checkForHeatSignal cfg currentTime (in_bus inp) s1
               else Some (normal_work cfg inp s1)) of
           None \<Rightarrow> None
         | Some s2 \<Rightarrow> Some (serialEvent cfg (in_bus inp) (in_serial inp) s2))"

fun run_loop :: "grid_config \<Rightarrow> loop_input list \<Rightarrow> firmware \<Rightarrow> firmware option" where
  "run_loop cfg [] s = Some s"
| "run_loop cfg (inp # rest) s =
     (case loop cfg inp s of None \<Rightarrow> None | Some s1 \<Rightarrow> run_loop cfg rest s1)"

text \<open>
  The report that one pass of \<open>loop\<close> posts, if it posts one: the first component of what
  \<open>sendData\<close> yields on the path that \<open>normal_work\<close> takes.
\<close>

definition normal_report :: "grid_config \<Rightarrow> loop_input \<Rightarrow> firmware \<Rightarrow> telemetry_report option" where
  "normal_report cfg inp s =
     (let currentTime = in_millis inp;
          s1 = (if MEASUREMENT_PERIOD s \<le> currentTime - lastMeasurementTime s
                then measureTemperatures cfg (in_bus inp) (s\<lparr>lastMeasurementTime := currentTime\<rparr>)
                else s)
      in if SEND_PERIOD s1 \<le> currentTime - lastSendTime s1
         then fst (sendData cfg currentTime (in_wifi inp) (in_http_code inp) (in_http_body inp)
                     (s1\<lparr>lastSendTime := currentTime\<rparr>))
         else None)"

definition loop_report :: "grid_config \<Rightarrow> loop_input \<Rightarrow> firmware \<Rightarrow> telemetry_report option" where
  "loop_report cfg inp s =
     (let currentTime = in_millis inp;
          s1 = (if \<not> in_wifi inp \<and> 30000 < currentTime - lastWifiTry s
                then s\<lparr>lastWifiTry := currentTime\<rparr> else s)
      in if learningMode s1 then None else normal_report cfg inp s1)"

text \<open>
  The globals as the C++ start-up leaves them (zero-initialised but for the two periods),
  given the device identifier and what the two storage namespaces hold, and the sensor and storage part of \<open>setup()\<close>.
\<close>

definition power_on :: "string \<Rightarrow> nvs \<Rightarrow> nvs \<Rightarrow> firmware" where
  "power_on ident map_store cal_store =
     \<lparr>SEND_PERIOD = 10000, MEASUREMENT_PERIOD = 10000,
      sensorMap = (\<lambda>row col. empty_address), mappingComplete = False,
      temperatureGrid = (\<lambda>row col. 0), calibrationOffset = (\<lambda>row col. 0),
      calibrationLoaded = False, lastMeasurementTime = 0, lastSendTime = 0,
      learningMode = False, learnedSensors = 0, baselineTemps = (\<lambda>i. 0),
      discoveredAddresses = (\<lambda>i. empty_address), discoveredCount = 0,
      lastCheck = 0, lastWifiTry = 0, serialNumBuffer = ident,
      WIFI_SSID = ''Hotspot_10'', WIFI_PASSWORD = ''dedaznam'',
      SERVER_URL = ''https://koshx-hub-production.up.railway.app/api/telemetry'',
      sensor_map_nvs = map_store, sensor_cal_nvs = cal_store\<rparr>"

definition setup_sketch :: "grid_config \<Rightarrow> DeviceAddress option list \<Rightarrow> bus \<Rightarrow> firmware \<Rightarrow> firmware option" where
  "setup_sketch cfg devices temps s =
     (case loadOrLearnMapping cfg temps (setupSensors cfg devices s) of
        None \<Rightarrow> None
      | Some s1 \<Rightarrow> Some (loadCalibration cfg s1))"

section \<open>Properties of a learning tick\<close>

text \<open>The threshold test of \<open>checkForHeatSignal\<close> for the sensor of index \<open>i\<close>.\<close>

definition heat_signal :: "bus \<Rightarrow> firmware \<Rightarrow> nat \<Rightarrow> bool" where
  "heat_signal temps s i = (3 / 2 < fsub (temps (discoveredAddresses s i)) (baselineTemps s i))"


text \<open>
  What a calibration run reads: the grid positions in loop order, the positions whose
  sensor is assigned and delivers a reading above the disconnected value, the running
  single-precision sum of a list of readings, and the mean the run computes from them.
  \<open>cal_offsets\<close> and \<open>cal_puts\<close> are the offset table and the store that the second
  pair of loops leaves.
\<close>

definition grid_positions :: "grid_config \<Rightarrow> (nat \<times> nat) list" where
  "grid_positions cfg = List.product [0..<ROWS cfg] [0..<COLS cfg]"

definition cal_valid :: "firmware \<Rightarrow> bus \<Rightarrow> nat \<Rightarrow> nat \<Rightarrow> bool" where
  "cal_valid s temps row col =
     (\<not> isAddressEmpty (sensorMap s row col) \<and> DEVICE_DISCONNECTED_C < temps (sensorMap s row col))"

definition cal_valid_positions :: "grid_config \<Rightarrow> firmware \<Rightarrow> bus \<Rightarrow> (nat \<times> nat) list" where
  "cal_valid_positions cfg s temps = filter (\<lambda>(row, col). cal_valid s temps row col) (grid_positions cfg)"

definition float_sum :: "float32 list \<Rightarrow> float32" where
  "float_sum xs = foldl fadd 0 xs"

definition cal_mean :: "grid_config \<Rightarrow> firmware \<Rightarrow> bus \<Rightarrow> float32" where
  "cal_mean cfg s temps =
     fdiv (float_sum (map (\<lambda>(row, col). temps (sensorMap s row col)) (cal_valid_positions cfg s temps)))
          (of_nat (length (cal_valid_positions cfg s temps)))"


definition cal_offsets :: "grid_config \<Rightarrow> firmware \<Rightarrow> bus \<Rightarrow> nat \<Rightarrow> nat \<Rightarrow> float32" where
  "cal_offsets cfg s temps r c =
     (if r < ROWS cfg \<and> c < COLS cfg
      then (if cal_valid s temps r c then fsub (cal_mean cfg s temps) (temps (sensorMap s r c)) else 0)
      else calibrationOffset s r c)"

definition cal_puts :: "firmware \<Rightarrow> bus \<Rightarrow> float32 \<Rightarrow> (nat \<times> nat) list \<Rightarrow> nvs \<Rightarrow> nvs" where
  "cal_puts s temps avg ps store =
     fold (\<lambda>(row, col) st.
             if cal_valid s temps row col
             then st(cal_key row col \<mapsto> NvsFloat (fsub avg (temps (sensorMap s row col))))
             else st) ps store"


text \<open>The samples of the grid in loop order, and those of them that are valid.\<close>

definition grid_samples :: "grid_config \<Rightarrow> firmware \<Rightarrow> float32 list" where
  "grid_samples cfg s = map (\<lambda>(row, col). temperatureGrid s row col) (grid_positions cfg)"

definition valid_samples :: "grid_config \<Rightarrow> firmware \<Rightarrow> float32 list" where
  "valid_samples cfg s = filter sample_valid (grid_samples cfg s)"

text \<open>
  The valid samples of the grid that a report carries, and the range of what the sensors
  deliver. A DS18B20 measures from -55 to 125 degrees and encodes the temperature in twelve
  bits with sign, and \<open>getTempC\<close> returns -127 for an absent sensor: every reading is
  within 256 in magnitude. An offset is the difference of a mean of such readings and one
  of them, within 512, and a sample is the sum of a reading and an offset, within 768.
\<close>

definition bus_in_range :: "bus \<Rightarrow> bool" where
  "bus_in_range temps = (\<forall>a. \<bar>temps a\<bar> \<le> 256)"

definition store_in_range :: "nvs \<Rightarrow> bool" where
  "store_in_range store = (\<forall>key x. store key = Some (NvsFloat x) \<longrightarrow> \<bar>x\<bar> \<le> 512)"

definition samples_in_range :: "firmware \<Rightarrow> bool" where
  "samples_in_range s =
     ((\<forall>r c. \<bar>calibrationOffset s r c\<bar> \<le> 512)
      \<and> store_in_range (sensor_cal_nvs s)
      \<and> (\<forall>r c. temperatureGrid s r c \<le> 768))"

definition report_samples :: "telemetry_report \<Rightarrow> float32 list" where
  "report_samples rep = filter sample_valid (concat (temperature_grid rep))"


text \<open>
  The part of the state that learning writes: the map, the count and the two mode flags;
  and what one pass of \<open>loop\<close> can do to it.
\<close>

definition learn_core :: "firmware \<Rightarrow> (nat \<Rightarrow> nat \<Rightarrow> DeviceAddress) \<times> int \<times> bool \<times> bool" where
  "learn_core s = (sensorMap s, learnedSensors s, learningMode s, mappingComplete s)"


definition learn_step ::
  "grid_config \<Rightarrow> (nat \<Rightarrow> nat \<Rightarrow> DeviceAddress) \<times> int \<times> bool \<times> bool
     \<Rightarrow> (nat \<Rightarrow> nat \<Rightarrow> DeviceAddress) \<times> int \<times> bool \<times> bool \<Rightarrow> bool" where
  "learn_step cfg old new =
     (case old of (smap, n, learning, cmpl) \<Rightarrow>
        new = old
        \<or> (learning
           \<and> (\<exists>a. \<not> alreadyLearned cfg smap a
                \<and> 0 \<le> n sdiv int (COLS cfg) \<and> n sdiv int (COLS cfg) < int (ROWS cfg)
                \<and> 0 \<le> n smod int (COLS cfg) \<and> n smod int (COLS cfg) < int (COLS cfg)
                \<and> new = (set2 smap (nat (n sdiv int (COLS cfg))) (nat (n smod int (COLS cfg))) a,
                         n + 1,
                         n + 1 < int (TOTAL_SENSORS cfg),
                         cmpl \<or> \<not> n + 1 < int (TOTAL_SENSORS cfg)))))"


text \<open>Position \<open>k\<close> of the learning sequence is \<open>(k / COLS, k % COLS)\<close>.\<close>

definition cell :: "grid_config \<Rightarrow> (nat \<Rightarrow> nat \<Rightarrow> 'a) \<Rightarrow> nat \<Rightarrow> 'a" where
  "cell cfg g k = g (k div COLS cfg) (k mod COLS cfg)"

definition learning_inv ::
  "grid_config \<Rightarrow> (nat \<Rightarrow> nat \<Rightarrow> DeviceAddress) \<times> int \<times> bool \<times> bool \<Rightarrow> bool" where
  "learning_inv cfg core =
     (case core of (smap, n, learning, cmpl) \<Rightarrow>
        0 \<le> n \<and> n \<le> int (TOTAL_SENSORS cfg)
        \<and> (learning \<longrightarrow> n < int (TOTAL_SENSORS cfg))
        \<and> (cmpl \<longrightarrow> n = int (TOTAL_SENSORS cfg))
        \<and> (\<forall>k<TOTAL_SENSORS cfg.
              (int k < n \<longrightarrow> cell cfg smap k \<noteq> empty_address)
              \<and> (n \<le> int k \<longrightarrow> cell cfg smap k = empty_address))
        \<and> (\<forall>k<TOTAL_SENSORS cfg. \<forall>k'<TOTAL_SENSORS cfg.
              int k < n \<and> int k' < n \<and> cell cfg smap k = cell cfg smap k' \<longrightarrow> k = k'))"


definition learned_count_ok :: "grid_config \<Rightarrow> firmware \<Rightarrow> bool" where
  "learned_count_ok cfg s =
     (0 \<le> learnedSensors s \<and> learnedSensors s \<le> int (ROWS cfg * COLS cfg)
      \<and> (learningMode s \<longrightarrow> learnedSensors s < int (ROWS cfg * COLS cfg)))"


section \<open>Example inputs\<close>

text \<open>
  Twenty-one sensors on the bus, all at 20 degrees when learning starts. The operator warms
  sensor 0 to 22 degrees, which is learned at position (0, 0); then sensor 0 is at 24 and
  sensor 1 at 22 degrees.
\<close>

definition sensor_addr :: "nat \<Rightarrow> DeviceAddress" where
  "sensor_addr i = DeviceAddress 40 (of_nat (i + 1)) 0 0 0 0 0 0"

definition learning_start :: firmware where
  "learning_start =
     (power_on ''A1B2C3'' Map.empty Map.empty)
       \<lparr>temperatureGrid := (\<lambda>row col. - 127),
        learningMode := True,
        baselineTemps := (\<lambda>i. 20),
        discoveredAddresses := sensor_addr,
        discoveredCount := 21\<rparr>"

definition first_touch :: bus where
  "first_touch a = (if a = sensor_addr 0 then 22 else 20)"

definition after_first_touch :: firmware where
  "after_first_touch =
     learning_start
       \<lparr>sensorMap := set2 (\<lambda>row col. empty_address) 0 0 (sensor_addr 0),
        learnedSensors := 1,
        baselineTemps := (\<lambda>i. 20)(0 := 22),
        lastCheck := 1000\<rparr>"

definition second_touch :: bus where
  "second_touch a = (if a = sensor_addr 0 then 24 else if a = sensor_addr 1 then 22 else 20)"


text \<open>
  A whole session: at pass \<open>k\<close> of the loop the sensors 0 to \<open>k - 1\<close> are at 22
  degrees and the others at 20, so that pass \<open>k\<close> learns sensor \<open>k - 1\<close>.
\<close>

fun warmed :: "nat \<Rightarrow> DeviceAddress \<Rightarrow> float32" where
  "warmed k (DeviceAddress b0 b1 b2 b3 b4 b5 b6 b7) = (if unat b1 \<le> k then 22 else 20)"

definition quiet_tick :: "nat \<Rightarrow> loop_input" where
  "quiet_tick k =
     \<lparr>in_millis = 1000 * of_nat k, in_wifi = True, in_bus = warmed k,
      in_http_code = 0, in_http_body = NotJson, in_serial = []\<rparr>"

definition full_session :: "loop_input list" where
  "full_session = map quiet_tick [1..<22]"

definition bus_21 :: "DeviceAddress option list" where
  "bus_21 = map (\<lambda>i. Some (sensor_addr i)) [0..<21]"


text \<open>
  A learned grid in normal operation, with bus readings for calibration: one sensor alive;
  one sensor at 30 degrees and twenty at 4; and a recalibration, with a stored offset of
  1.5 for position (0, 0), while the sensor of that position is absent.
\<close>

definition normal_state :: firmware where
  "normal_state =
     (power_on ''A1B2C3'' Map.empty Map.empty)
       \<lparr>sensorMap := (\<lambda>row col. if row < 3 \<and> col < 7 then sensor_addr (row * 7 + col) else empty_address),
        mappingComplete := True,
        discoveredAddresses := sensor_addr,
        discoveredCount := 21\<rparr>"

definition one_alive :: bus where
  "one_alive a = (if a = sensor_addr 0 then 20 else - 127)"

definition one_hot :: bus where
  "one_hot a = (if a = sensor_addr 0 then 30 else 4)"

definition recal_state :: firmware where
  "recal_state =
     normal_state
       \<lparr>calibrationOffset := set2 (\<lambda>row col. 0) 0 0 (3 / 2),
        calibrationLoaded := True,
        sensor_cal_nvs := [cal_key 0 0 \<mapsto> NvsFloat (3 / 2), ''done'' \<mapsto> NvsBool True]\<rparr>"

definition first_absent :: bus where
  "first_absent a = (if a = sensor_addr 0 then - 127 else 20)"


text \<open>
  States for measurement and telemetry: an offset of -77 at position (0, 0) with a reading
  of -50 there; a stored mapping of two sensors, at positions (0, 0) and (0, 2), a pass
  of \<open>loop\<close> that receives the command \<open>CALIBRATE\<close>, and the first pass that measures
  and reports, both with readings of 22 and 20 degrees.
\<close>

definition offset_state :: firmware where
  "offset_state =
     normal_state\<lparr>calibrationOffset := set2 (\<lambda>row col. 0) 0 0 (- 77), calibrationLoaded := True\<rparr>"

definition cold_bus :: bus where
  "cold_bus a = (if a = sensor_addr 0 then - 50 else 20)"

definition stored_map :: nvs where
  "stored_map = [''complete'' \<mapsto> NvsBool True,
                 ''0_0'' \<mapsto> NvsBytes (sensor_addr 0),
                 ''0_2'' \<mapsto> NvsBytes (sensor_addr 2)]"

definition report_tick :: loop_input where
  "report_tick =
     \<lparr>in_millis = 10000, in_wifi = True, in_bus = warmed 1,
      in_http_code = 200, in_http_body = NotJson, in_serial = []\<rparr>"

definition calibrate_tick :: loop_input where
  "calibrate_tick =
     \<lparr>in_millis = 5000, in_wifi = True, in_bus = warmed 1,
      in_http_code = 0, in_http_body = NotJson, in_serial = [CALIBRATE]\<rparr>"


section \<open>Lemmas on the arithmetic\<close>

lemma expo_up_bounds: "0 \<le> expo_up k a \<and> expo_up k a \<le> int k"
  by (induction k arbitrary: a) auto

lemma expo_up_lower: "1 \<le> a \<Longrightarrow> power_int 2 (expo_up k a) \<le> a"
proof (induction k arbitrary: a)
  case 0 then show ?case by simp
next
  case (Suc k)
  show ?case
  proof (cases "2 \<le> a")
    case True
    then have "power_int 2 (expo_up k (a / 2)) \<le> a / 2" using Suc.IH[of "a / 2"] by simp
    moreover have "0 \<le> expo_up k (a / 2)" using expo_up_bounds by blast
    ultimately show ?thesis using True by (simp add: power_int_add)
  next
    case False
    then show ?thesis using Suc.prems by simp
  qed
qed

lemma expo_up_upper: "expo_up k a < int k \<Longrightarrow> a < power_int 2 (expo_up k a + 1)"
proof (induction k arbitrary: a)
  case 0 then show ?case by simp
next
  case (Suc k)
  show ?case
  proof (cases "2 \<le> a")
    case True
    then have "a / 2 < power_int 2 (expo_up k (a / 2) + 1)" using Suc.IH[of "a / 2"] Suc.prems by simp
    moreover have "0 \<le> expo_up k (a / 2)" using expo_up_bounds by blast
    ultimately show ?thesis using True by (simp add: power_int_add)
  next
    case False
    then show ?thesis by simp
  qed
qed

lemma expo_down_bounds: "- int k \<le> expo_down k a \<and> expo_down k a \<le> 0"
proof (induction k arbitrary: a)
  case 0 then show ?case by simp
next
  case (Suc k)
  have "- int k \<le> expo_down k (2 * a) \<and> expo_down k (2 * a) \<le> 0" by (rule Suc.IH)
  then show ?case by auto
qed

lemma expo_down_lower: "- int k < expo_down k a \<Longrightarrow> a < 1 \<Longrightarrow> power_int 2 (expo_down k a) \<le> a"
proof (induction k arbitrary: a)
  case 0 then show ?case by simp
next
  case (Suc k)
  let ?e = "expo_down k (2 * a)"
  have e: "expo_down (Suc k) a = ?e - 1" using Suc.prems by simp
  have lt: "- int k < ?e" using Suc.prems e by simp
  have "power_int 2 ?e \<le> 2 * a"
  proof (cases "2 * a < 1")
    case True
    then show ?thesis using Suc.IH[of "2 * a"] lt by simp
  next
    case False
    then have "?e = 0" by (cases k) auto
    then show ?thesis using False by simp
  qed
  then show ?case unfolding e by (simp add: power_int_diff)
qed

lemma expo_down_upper: "0 < k \<Longrightarrow> a < 1 \<Longrightarrow> a < power_int 2 (expo_down k a + 1)"
proof (induction k arbitrary: a)
  case 0 then show ?case by simp
next
  case (Suc k)
  let ?e = "expo_down k (2 * a)"
  have e: "expo_down (Suc k) a = ?e - 1" using Suc.prems by simp
  have "2 * a < power_int 2 (?e + 1)"
  proof (cases "2 * a < 1 \<and> 0 < k")
    case True
    then show ?thesis using Suc.IH[of "2 * a"] by simp
  next
    case False
    then have "?e = 0" by (cases k) auto
    then show ?thesis using Suc.prems by simp
  qed
  then show ?case unfolding e by (simp add: power_int_add)
qed

lemma expo32_range: "- 126 \<le> expo32 a \<and> expo32 a \<le> 127"
  using expo_up_bounds[of 127 a] expo_down_bounds[of 126 a] by (simp add: expo32_def)

lemma expo32_lower: "- 126 < expo32 a \<Longrightarrow> power_int 2 (expo32 a) \<le> a"
  using expo_up_lower[of a 127] expo_down_lower[of 126 a] by (simp add: expo32_def split: if_splits)

lemma expo32_upper: "expo32 a < 127 \<Longrightarrow> a < power_int 2 (expo32 a + 1)"
  using expo_up_upper[of 127 a] expo_down_upper[of 126 a] by (simp add: expo32_def split: if_splits)

lemma round_half_even_of_int: "round_half_even (of_int m) = m"
  by (simp add: round_half_even_def)

lemma round_half_even_nonneg: "0 \<le> q \<Longrightarrow> 0 \<le> round_half_even q"
  by (auto simp: round_half_even_def Let_def)

lemma round_half_even_le: "q \<le> of_int m \<Longrightarrow> round_half_even q \<le> m"
proof -
  assume q: "q \<le> of_int m"
  show ?thesis
  proof (cases "q = of_int m")
    case True then show ?thesis by (simp add: round_half_even_of_int)
  next
    case False
    with q have "q < of_int m" by simp
    then have "\<lfloor>q\<rfloor> < m" by (simp add: floor_less_iff)
    then show ?thesis by (auto simp: round_half_even_def Let_def)
  qed
qed

lemma fl32_zero: "fl32 0 = 0"
  by (simp add: fl32_def)

lemma powi2_pos: "(0::rat) < power_int 2 e"
  by simp

lemma powi2_int: "0 \<le> d \<Longrightarrow> power_int (2::rat) d = of_int (2 ^ nat d)"
  by (simp add: power_int_nonneg_exp)

lemma round_grid_exact:
  assumes "y / power_int 2 (expo32 y - 23) = of_int m"
  shows "of_int (round_half_even (y / power_int 2 (expo32 y - 23))) * power_int 2 (expo32 y - 23) = y"
proof -
  define u :: rat where "u = power_int 2 (expo32 y - 23)"
  have u: "u \<noteq> 0" unfolding u_def by simp
  have q: "y / u = of_int m" using assms unfolding u_def .
  then have "y = of_int m * u" using u by (simp add: field_simps)
  moreover have "round_half_even (y / u) = m" unfolding q by (rule round_half_even_of_int)
  ultimately show ?thesis unfolding u_def[symmetric] by simp
qed

lemma rounded_on_grid:
  assumes a: "0 \<le> a"
  defines "e \<equiv> expo32 a"
  defines "n \<equiv> round_half_even (a / power_int 2 (e - 23))"
  defines "y \<equiv> of_int n * power_int 2 (e - 23)"
  shows "\<exists>m. y / power_int 2 (expo32 y - 23) = of_int m"
proof -
  let ?e' = "expo32 y"
  have n0: "0 \<le> n" unfolding n_def using a by (intro round_half_even_nonneg) simp
  have split: "y = of_int n * power_int 2 (e - ?e') * power_int 2 (?e' - 23)"
  proof -
    have "power_int (2::rat) (e - ?e') * power_int 2 (?e' - 23) = power_int 2 ((e - ?e') + (?e' - 23))"
      by (subst power_int_add) simp_all
    then show ?thesis unfolding y_def by (simp add: mult.assoc)
  qed
  have top: "?e' \<le> e \<or> (?e' = e + 1 \<and> y = power_int 2 (e + 1))"
  proof (cases "e < 127")
    case False
    then show ?thesis using expo32_range[of y] by simp
  next
    case True
    then have "a < power_int 2 (e + 1)" unfolding e_def by (rule expo32_upper)
    then have "a / power_int 2 (e - 23) < power_int 2 (e + 1) / power_int 2 (e - 23)"
      by (simp add: divide_strict_right_mono)
    also have "power_int (2::rat) (e + 1) / power_int 2 (e - 23) = power_int 2 ((e + 1) - (e - 23))"
      by (subst power_int_diff) simp_all
    also have "\<dots> = of_int (2 ^ 24)" by simp
    finally have "n \<le> 2 ^ 24" unfolding n_def by (intro round_half_even_le) simp
    then have "(of_int n :: rat) \<le> of_int (2 ^ 24)" by (simp only: of_int_le_iff)
    then have "y \<le> of_int (2 ^ 24) * power_int 2 (e - 23)"
      unfolding y_def by (intro mult_right_mono) simp_all
    also have "of_int (2 ^ 24) * power_int (2::rat) (e - 23) = power_int 2 (24 + (e - 23))"
      by (subst power_int_add) simp_all
    also have "24 + (e - 23) = e + 1" by simp
    finally have yle: "y \<le> power_int 2 (e + 1)" .
    show ?thesis
    proof (cases "?e' \<le> e")
      case True then show ?thesis by simp
    next
      case False
      then have gt: "e < ?e'" by simp
      moreover have "- 126 \<le> e" unfolding e_def using expo32_range by blast
      ultimately have "- 126 < ?e'" by simp
      then have low: "power_int 2 ?e' \<le> y" by (rule expo32_lower)
      have "\<not> e + 1 < ?e'"
      proof
        assume "e + 1 < ?e'"
        then have "power_int (2::rat) (e + 1) < power_int 2 ?e'"
          by (intro power_int_strict_increasing) simp_all
        with low yle show False by simp
      qed
      with gt have eq: "?e' = e + 1" by simp
      with low yle have "y = power_int 2 (e + 1)" by simp
      with eq show ?thesis by simp
    qed
  qed
  then show ?thesis
  proof
    assume le: "?e' \<le> e"
    have "y / power_int 2 (?e' - 23) = of_int n * power_int 2 (e - ?e')"
      by (subst split) simp
    also have "\<dots> = of_int (n * 2 ^ nat (e - ?e'))"
      using le by (simp add: powi2_int)
    finally show ?thesis by blast
  next
    assume "?e' = e + 1 \<and> y = power_int 2 (e + 1)"
    then have e': "?e' = e + 1" and yv: "y = power_int 2 (e + 1)" by blast+
    have "y / power_int 2 (?e' - 23) = y / power_int 2 (e + 1 - 23)"
      by (simp only: e')
    also have "\<dots> = power_int 2 (e + 1) / power_int 2 (e + 1 - 23)"
      using yv by simp
    also have "\<dots> = power_int 2 ((e + 1) - (e + 1 - 23))"
      by (subst power_int_diff) simp_all
    also have "\<dots> = of_int (2 ^ 23)" by simp
    finally show ?thesis by blast
  qed
qed

lemma fl32_idem: "fl32 (fl32 x) = fl32 x"
proof (cases "fl32 x = 0")
  case True
  then show ?thesis by (simp add: fl32_zero)
next
  case False
  define e where "e = expo32 \<bar>x\<bar>"
  define n where "n = round_half_even (\<bar>x\<bar> / power_int 2 (e - 23))"
  define y where "y = (of_int n :: rat) * power_int 2 (e - 23)"
  have fx: "fl32 x = sgn x * y"
    by (simp add: fl32_def Let_def y_def n_def e_def mult.assoc)
  have n0: "0 \<le> n" unfolding n_def by (intro round_half_even_nonneg) simp
  have y0: "0 \<le> y" unfolding y_def using n0 by simp
  from False fx have x0: "x \<noteq> 0" and yn: "y \<noteq> 0" by auto
  have absy: "\<bar>fl32 x\<bar> = y" using fx x0 y0 by (simp add: abs_mult)
  have sgny: "sgn (fl32 x) = sgn x" using fx x0 y0 yn by (simp add: sgn_mult)
  obtain m where m: "y / power_int 2 (expo32 y - 23) = of_int m"
    using rounded_on_grid[of "\<bar>x\<bar>"] unfolding y_def n_def e_def by auto
  have "fl32 (fl32 x) =
      sgn x * (of_int (round_half_even (y / power_int 2 (expo32 y - 23))) * power_int 2 (expo32 y - 23))"
    by (simp add: fl32_def[of "fl32 x"] Let_def absy sgny mult.assoc)
  also have "\<dots> = sgn x * y" using round_grid_exact[OF m] by simp
  finally show ?thesis using fx by simp
qed

lemma round_half_even_error: "\<bar>of_int (round_half_even q) - q\<bar> \<le> 1 / 2"
proof -
  have "of_int \<lfloor>q\<rfloor> \<le> q" "q < of_int \<lfloor>q\<rfloor> + 1" using floor_correct[of q] by simp_all
  then show ?thesis by (auto simp: round_half_even_def Let_def)
qed

lemma fl32_abs: "\<bar>fl32 x\<bar> = of_int (round_half_even (\<bar>x\<bar> / power_int 2 (expo32 \<bar>x\<bar> - 23))) * power_int 2 (expo32 \<bar>x\<bar> - 23)"
proof -
  have "0 \<le> round_half_even (\<bar>x\<bar> / power_int 2 (expo32 \<bar>x\<bar> - 23))"
    by (intro round_half_even_nonneg) simp
  then show ?thesis by (cases "x = 0") (simp_all add: fl32_def Let_def abs_mult round_half_even_def)
qed

lemma fl32_error: "\<bar>fl32 x - x\<bar> \<le> \<bar>x\<bar> / 2 ^ 24 + 1 / 2 ^ 150"
proof -
  define a where "a = \<bar>x\<bar>"
  define e where "e = expo32 a"
  define u :: rat where "u = power_int 2 (e - 23)"
  define n where "n = round_half_even (a / u)"
  have u0: "0 < u" unfolding u_def by simp
  have fx: "fl32 x = sgn x * (of_int n * u)"
    by (simp add: fl32_def Let_def n_def u_def e_def a_def mult.assoc)
  have x: "x = sgn x * a" unfolding a_def by (simp add: sgn_if)
  have "fl32 x - x = sgn x * (of_int n * u - a)"
    by (subst x, subst fx) (simp add: algebra_simps)
  then have "\<bar>fl32 x - x\<bar> \<le> \<bar>of_int n * u - a\<bar>"
    by (simp add: abs_mult sgn_if)
  also have "of_int n * u - a = (of_int n - a / u) * u" using u0 by (simp add: field_simps)
  also have "\<bar>(of_int n - a / u) * u\<bar> = \<bar>of_int n - a / u\<bar> * u" using u0 by (simp add: abs_mult)
  also have "\<dots> \<le> 1 / 2 * u"
    using round_half_even_error[of "a / u"] u0 unfolding n_def by (intro mult_right_mono) simp_all
  also have "1 / 2 * u \<le> a / 2 ^ 24 + 1 / 2 ^ 150"
  proof (cases "- 126 < e")
    case True
    then have "power_int 2 e \<le> a" unfolding e_def by (rule expo32_lower)
    moreover have "u = power_int 2 e / 2 ^ 23" unfolding u_def by (simp add: power_int_diff)
    ultimately have "u \<le> a / 2 ^ 23" by (simp add: divide_right_mono)
    then show ?thesis by simp
  next
    case False
    then have "e = - 126" using expo32_range[of a] unfolding e_def by simp
    then have "u = power_int 2 (- 149)" unfolding u_def by simp
    also have "\<dots> = 1 / 2 ^ 149" by (simp add: power_int_minus field_simps)
    finally have "1 / 2 * u = 1 / 2 ^ 150" by simp
    moreover have "0 \<le> a" unfolding a_def by simp
    ultimately show ?thesis by simp
  qed
  finally show ?thesis unfolding a_def .
qed

lemma fl32_multiple:
  assumes x: "x = of_int m * power_int 2 k" and m: "\<bar>m\<bar> < 2 ^ 24" and k: "- 149 \<le> k"
  shows "fl32 x = x"
proof (cases "m = 0")
  case True
  then show ?thesis using x by (simp add: fl32_zero)
next
  case False
  define a where "a = \<bar>x\<bar>"
  define e where "e = expo32 a"
  have a: "a = of_int \<bar>m\<bar> * power_int 2 k" unfolding a_def x by (simp add: abs_mult)
  have le: "e - 23 \<le> k"
  proof (rule ccontr)
    assume "\<not> e - 23 \<le> k"
    then have gt: "k + 24 \<le> e" by simp
    then have "- 126 < e" using k by simp
    then have "power_int 2 e \<le> a" unfolding e_def by (rule expo32_lower)
    moreover have "power_int (2::rat) (k + 24) \<le> power_int 2 e"
      using gt by (intro power_int_increasing) simp_all
    moreover have "a < power_int 2 (k + 24)"
    proof -
      have "(of_int \<bar>m\<bar> :: rat) < of_int (2 ^ 24)" using m by (simp only: of_int_less_iff)
      then have "of_int \<bar>m\<bar> * power_int (2::rat) k < of_int (2 ^ 24) * power_int 2 k"
        by (intro mult_strict_right_mono) simp_all
      also have "of_int (2 ^ 24) * power_int (2::rat) k = power_int 2 (24 + k)"
        by (subst power_int_add) simp_all
      finally show ?thesis unfolding a by (simp add: add.commute)
    qed
    ultimately show False by simp
  qed
  have "a / power_int 2 (e - 23) = of_int \<bar>m\<bar> * power_int 2 (k - (e - 23))"
    unfolding a by (subst (2) power_int_diff) simp_all
  also have "\<dots> = of_int (\<bar>m\<bar> * 2 ^ nat (k - (e - 23)))"
    using le by (simp add: powi2_int)
  finally have "a / power_int 2 (expo32 a - 23) = of_int (\<bar>m\<bar> * 2 ^ nat (k - (e - 23)))"
    unfolding e_def .
  from round_grid_exact[OF this]
  have "fl32 x = sgn x * a" by (simp add: fl32_def Let_def a_def mult.assoc)
  then show ?thesis unfolding a_def by (simp add: sgn_if)
qed

lemma fl32_bound:
  assumes x: "\<bar>x\<bar> \<le> of_int b" and b: "b \<le> 2 ^ 24"
  shows "\<bar>fl32 x\<bar> \<le> of_int b"
proof -
  define a where "a = \<bar>x\<bar>"
  define e where "e = expo32 a"
  define u :: rat where "u = power_int 2 (e - 23)"
  define n where "n = round_half_even (a / u)"
  have u0: "0 < u" unfolding u_def by simp
  have fx: "\<bar>fl32 x\<bar> = of_int n * u"
    unfolding fl32_abs n_def u_def e_def a_def ..
  have ab: "a \<le> of_int b" using x unfolding a_def .
  show ?thesis
  proof (cases "e \<le> 23")
    case True
    have "a / u = a * power_int 2 (23 - e)"
      unfolding u_def by (simp add: power_int_diff field_simps)
    also have "\<dots> \<le> of_int b * power_int 2 (23 - e)"
      using ab by (intro mult_right_mono) simp_all
    also have "\<dots> = of_int (b * 2 ^ nat (23 - e))" using True by (simp add: powi2_int)
    finally have "n \<le> b * 2 ^ nat (23 - e)" unfolding n_def by (rule round_half_even_le)
    then have "(of_int n :: rat) \<le> of_int (b * 2 ^ nat (23 - e))" by (simp only: of_int_le_iff)
    also have "(of_int (b * 2 ^ nat (23 - e)) :: rat) = of_int b * power_int 2 (23 - e)"
      using True by (simp add: powi2_int)
    finally have "of_int n * u \<le> of_int b * power_int 2 (23 - e) * u"
      using u0 by (intro mult_right_mono) simp_all
    also have "of_int b * power_int 2 (23 - e) * u = of_int b"
      unfolding u_def by (simp add: power_int_diff field_simps)
    finally show ?thesis unfolding fx .
  next
    case False
    then have e24: "24 \<le> e" by simp
    then have "power_int 2 e \<le> a" unfolding e_def by (intro expo32_lower) simp
    moreover have "power_int (2::rat) 24 \<le> power_int 2 e"
      using e24 by (intro power_int_increasing) simp_all
    moreover have "(of_int b :: rat) \<le> of_int (2 ^ 24)" using b by (simp only: of_int_le_iff)
    ultimately have av: "a = 2 ^ 24" and bv: "(of_int b :: rat) = 2 ^ 24" and pe: "power_int (2::rat) e = 2 ^ 24"
      using ab by simp_all
    have "\<not> 24 < e"
    proof
      assume "24 < e"
      then have "power_int (2::rat) 24 < power_int 2 e"
        by (intro power_int_strict_increasing) simp_all
      with pe show False by simp
    qed
    with e24 have e: "e = 24" by simp
    have "a / power_int 2 (expo32 a - 23) = of_int (2 ^ 23)"
      using e av unfolding e_def by simp
    from round_grid_exact[OF this] have "of_int n * u = a"
      unfolding n_def u_def e_def .
    then show ?thesis unfolding fx using av bv by simp
  qed
qed

lemma fl32_grid:
  assumes "fl32 x = x"
  shows "\<exists>m. x = of_int m * power_int 2 (expo32 \<bar>x\<bar> - 23)"
proof -
  have "x = of_int ((if x < 0 then - 1 else 1) * round_half_even (\<bar>x\<bar> / power_int 2 (expo32 \<bar>x\<bar> - 23)))
          * power_int 2 (expo32 \<bar>x\<bar> - 23)"
    by (subst assms[symmetric]) (simp add: fl32_def Let_def sgn_if round_half_even_def)
  then show ?thesis by blast
qed

lemma below_next_power:
  assumes "a < 2 ^ 128"
  shows "a < power_int 2 (expo32 a + 1)"
proof (cases "expo32 a < 127")
  case True
  then show ?thesis by (rule expo32_upper)
next
  case False
  then have "expo32 a = 127" using expo32_range[of a] by simp
  then show ?thesis using assms by simp
qed

lemma fl32_sub_exact:
  assumes fx: "fl32 x = x" and fy: "fl32 y = y"
    and lo: "y / 2 \<le> x" and hi: "x \<le> 2 * y" and big: "y < 2 ^ 128"
  shows "fl32 (x - y) = x - y"
proof -
  have y0: "0 \<le> y" using lo hi by simp
  have x0: "0 \<le> x" using lo y0 by simp
  define ex where "ex = expo32 x"
  define ey where "ey = expo32 y"
  obtain mx where mx: "x = of_int mx * power_int 2 (ex - 23)"
    using fl32_grid[OF fx] x0 unfolding ex_def by auto
  obtain my where my: "y = of_int my * power_int 2 (ey - 23)"
    using fl32_grid[OF fy] y0 unfolding ey_def by auto
  have dx: "\<bar>x - y\<bar> \<le> x" using lo hi y0 by (simp add: abs_le_iff)
  have dy: "\<bar>x - y\<bar> \<le> y" using lo hi x0 by (simp add: abs_le_iff)
  have ytop: "y < power_int 2 (ey + 1)" unfolding ey_def using big by (rule below_next_power)
  define k where "k = min ex ey - 23"
  have k149: "- 149 \<le> k"
    using expo32_range[of x] expo32_range[of y] unfolding k_def ex_def ey_def by linarith
  have small: "\<bar>x - y\<bar> < power_int 2 (k + 24)"
  proof (cases "ey \<le> ex")
    case True
    then have eq: "k + 24 = ey + 1" unfolding k_def by simp
    show ?thesis unfolding eq using dy ytop by linarith
  next
    case False
    then have "ex < 127" using expo32_range[of y] unfolding ey_def by simp
    then have "x < power_int 2 (ex + 1)" unfolding ex_def by (rule expo32_upper)
    moreover have eq: "k + 24 = ex + 1" using False unfolding k_def by simp
    ultimately show ?thesis unfolding eq using dx by linarith
  qed
  have px: "power_int (2::rat) (ex - 23) = of_int (2 ^ nat (ex - 23 - k)) * power_int 2 k"
  proof -
    have "power_int (2::rat) (ex - 23) = power_int 2 ((ex - 23 - k) + k)" by simp
    also have "\<dots> = power_int 2 (ex - 23 - k) * power_int 2 k"
      by (subst power_int_add) simp_all
    also have "power_int (2::rat) (ex - 23 - k) = of_int (2 ^ nat (ex - 23 - k))"
      unfolding k_def by (intro powi2_int) simp
    finally show ?thesis .
  qed
  have py: "power_int (2::rat) (ey - 23) = of_int (2 ^ nat (ey - 23 - k)) * power_int 2 k"
  proof -
    have "power_int (2::rat) (ey - 23) = power_int 2 ((ey - 23 - k) + k)" by simp
    also have "\<dots> = power_int 2 (ey - 23 - k) * power_int 2 k"
      by (subst power_int_add) simp_all
    also have "power_int (2::rat) (ey - 23 - k) = of_int (2 ^ nat (ey - 23 - k))"
      unfolding k_def by (intro powi2_int) simp
    finally show ?thesis .
  qed
  define md where "md = mx * 2 ^ nat (ex - 23 - k) - my * 2 ^ nat (ey - 23 - k)"
  have d: "x - y = of_int md * power_int 2 k"
    by (subst mx, subst my, subst px, subst py) (simp add: md_def algebra_simps)
  have "of_int \<bar>md\<bar> * power_int (2::rat) k = \<bar>x - y\<bar>" unfolding d by (simp add: abs_mult)
  also have "\<dots> < power_int 2 (k + 24)" by (rule small)
  also have "power_int (2::rat) (k + 24) = of_int (2 ^ 24) * power_int 2 k"
    by (subst power_int_add) simp_all
  finally have "(of_int \<bar>md\<bar> :: rat) < of_int (2 ^ 24)"
    by (simp only: mult_less_cancel_right_pos[OF powi2_pos])
  then have "\<bar>md\<bar> < 2 ^ 24" by (simp only: of_int_less_iff)
  with d k149 show ?thesis by (intro fl32_multiple[of _ md k]) simp_all
qed

lemma round_trip_error:
  fixes raw mean :: rat
  shows "\<bar>fadd raw (fsub mean raw) - mean\<bar> \<le> (\<bar>raw\<bar> + \<bar>mean\<bar>) / 2 ^ 22 + 1 / 2 ^ 148"
proof -
  define off where "off = fl32 (mean - raw)"
  define t :: rat where "t = 1 / 2 ^ 150"
  have e1: "\<bar>off - (mean - raw)\<bar> \<le> \<bar>mean - raw\<bar> / 2 ^ 24 + t"
    unfolding off_def t_def by (rule fl32_error)
  have e2: "\<bar>fl32 (raw + off) - (raw + off)\<bar> \<le> \<bar>raw + off\<bar> / 2 ^ 24 + t"
    unfolding t_def by (rule fl32_error)
  have d: "\<bar>mean - raw\<bar> \<le> \<bar>raw\<bar> + \<bar>mean\<bar>" by simp
  have t0: "0 \<le> t" unfolding t_def by simp
  have s: "\<bar>raw + off\<bar> \<le> \<bar>mean\<bar> + (\<bar>mean - raw\<bar> / 2 ^ 24 + t)"
    using e1 by linarith
  have "\<bar>fl32 (raw + off) - mean\<bar> \<le> \<bar>fl32 (raw + off) - (raw + off)\<bar> + \<bar>off - (mean - raw)\<bar>"
    by simp
  also have "\<dots> \<le> (\<bar>mean\<bar> + (\<bar>mean - raw\<bar> / 2 ^ 24 + t)) / 2 ^ 24 + t + (\<bar>mean - raw\<bar> / 2 ^ 24 + t)"
    using e1 e2 s by (simp add: field_simps)
  also have "\<dots> \<le> (\<bar>mean\<bar> + ((\<bar>raw\<bar> + \<bar>mean\<bar>) / 2 ^ 24 + t)) / 2 ^ 24 + t + ((\<bar>raw\<bar> + \<bar>mean\<bar>) / 2 ^ 24 + t)"
    using d by (simp add: field_simps)
  also have "\<dots> \<le> (\<bar>raw\<bar> + \<bar>mean\<bar>) / 2 ^ 22 + 4 * t"
    using t0 abs_ge_zero[of raw] abs_ge_zero[of mean] by (simp add: field_simps)
  also have "4 * t = 1 / 2 ^ 148" unfolding t_def by simp
  finally show ?thesis unfolding fadd_def fsub_def off_def .
qed

lemma binary32_4: "binary32 4"
  unfolding binary32_def by (rule conjI, code_simp, simp)


section \<open>Lemmas on addresses, indices and the scanning loop\<close>

lemma fsub_2: "fsub 22 20 = 2" "fsub 24 22 = 2" "fsub 20 20 = 0"
  by code_simp+

lemma upt21: "[0..<21] = [0,1,2,3,4,5,6,7,8,9,10,11,12,13,14,15,16,17,18,19,20]"
  by code_simp

lemma upt_small: "[0..<8] = [0,1,2,3,4,5,6,7]" "[0..<7] = [0,1,2,3,4,5,6]" "[0..<3] = [0,1,2]"
  by code_simp+

lemma addressesMatch_iff: "addressesMatch a b \<longleftrightarrow> a = b"
  by (cases a; cases b) (auto simp: addressesMatch_def upt_small)

lemma isAddressEmpty_iff: "isAddressEmpty a \<longleftrightarrow> a = empty_address"
  by (cases a) (auto simp: isAddressEmpty_def empty_address_def upt_small)

lemma alreadyLearned_iff:
  "alreadyLearned cfg m a \<longleftrightarrow> (\<exists>r<ROWS cfg. \<exists>c<COLS cfg. m r c = a)"
  unfolding alreadyLearned_def list_ex_iff addressesMatch_iff by (simp add: Bex_def)


lemma sdiv_nonneg: "0 \<le> a \<Longrightarrow> 0 < b \<Longrightarrow> a sdiv b = a div (b::int)"
  by (simp add: signed_divide_int_def sgn_if)

lemma smod_nonneg: "0 \<le> a \<Longrightarrow> 0 < b \<Longrightarrow> a smod b = a mod (b::int)"
  by (simp add: signed_modulo_int_def sgn_if)

lemma grid_index_in_range:
  assumes "config_ok cfg" "0 \<le> n" "n < int (TOTAL_SENSORS cfg)"
  shows "0 \<le> n sdiv int (COLS cfg) \<and> n sdiv int (COLS cfg) < int (ROWS cfg)
       \<and> 0 \<le> n smod int (COLS cfg) \<and> n smod int (COLS cfg) < int (COLS cfg)"
proof -
  obtain k where k: "n = int k" using assms(2) nonneg_int_cases by blast
  have C: "0 < COLS cfg" and T: "TOTAL_SENSORS cfg = ROWS cfg * COLS cfg"
    using assms(1) by (auto simp: config_ok_def)
  have "int k < int (ROWS cfg * COLS cfg)" using assms(3) k T by simp
  then have "k < ROWS cfg * COLS cfg" by (simp only: of_nat_less_iff)
  then have "k div COLS cfg < ROWS cfg" by (simp add: less_mult_imp_div_less)
  then have "int k div int (COLS cfg) < int (ROWS cfg)" by (simp add: zdiv_int[symmetric])
  moreover have "int k mod int (COLS cfg) < int (COLS cfg)" using C by simp
  moreover have "0 \<le> int k div int (COLS cfg)" "0 \<le> int k mod int (COLS cfg)"
    using C by (simp_all add: pos_imp_zdiv_nonneg_iff)
  ultimately show ?thesis using C k by (simp add: sdiv_nonneg smod_nonneg)
qed

lemma heat_loop_skip:
  "\<forall>j\<in>set xs. j < TOTAL_SENSORS cfg \<and> \<not> heat_signal temps s j
     \<Longrightarrow> heat_loop cfg temps s (xs @ rest) = heat_loop cfg temps s rest"
  by (induction xs) (simp_all add: heat_signal_def Let_def)

lemma heat_loop_hit:
  "i < TOTAL_SENSORS cfg \<Longrightarrow> heat_signal temps s i
     \<Longrightarrow> heat_loop cfg temps s (i # rest) = heat_found cfg s i (temps (discoveredAddresses s i))"
  by (simp add: heat_signal_def Let_def)

lemma heat_loop_upt:
  assumes "n \<le> TOTAL_SENSORS cfg"
  shows "(heat_loop cfg temps s [0..<n] = Some s \<and> (\<forall>j<n. \<not> heat_signal temps s j))
       \<or> (\<exists>i<n. (\<forall>j<i. \<not> heat_signal temps s j) \<and> heat_signal temps s i
             \<and> heat_loop cfg temps s [0..<n] = heat_found cfg s i (temps (discoveredAddresses s i)))"
proof (cases "\<exists>i<n. heat_signal temps s i")
  case False
  then have "\<forall>j\<in>set [0..<n]. j < TOTAL_SENSORS cfg \<and> \<not> heat_signal temps s j"
    using assms by auto
  from heat_loop_skip[OF this, of "[]"] False show ?thesis by simp
next
  case True
  define i where "i = (LEAST i. i < n \<and> heat_signal temps s i)"
  have i: "i < n \<and> heat_signal temps s i" unfolding i_def using True by (rule LeastI_ex)
  have first: "\<forall>j<i. \<not> heat_signal temps s j"
  proof (intro allI impI)
    fix j assume "j < i"
    then have "\<not> (j < n \<and> heat_signal temps s j)" unfolding i_def by (rule not_less_Least)
    with \<open>j < i\<close> i show "\<not> heat_signal temps s j" by simp
  qed
  have split: "[0..<n] = [0..<i] @ i # [Suc i..<n]"
    using i by (metis le0 less_imp_le_nat upt_add_eq_append upt_conv_Cons le_add_diff_inverse plus_nat.add_0)
  have "\<forall>j\<in>set [0..<i]. j < TOTAL_SENSORS cfg \<and> \<not> heat_signal temps s j"
    using first i assms by auto
  then have "heat_loop cfg temps s [0..<n] = heat_loop cfg temps s (i # [Suc i..<n])"
    unfolding split by (rule heat_loop_skip)
  also have "\<dots> = heat_found cfg s i (temps (discoveredAddresses s i))"
    using i assms by (intro heat_loop_hit) auto
  finally show ?thesis using i first by blast
qed

lemma heat_signal_lastCheck [simp]:
  "heat_signal temps (s\<lparr>lastCheck := t\<rparr>) i = heat_signal temps s i"
  by (simp add: heat_signal_def)

lemma upt_split_at: "i < n \<Longrightarrow> [0..<n] = [0..<i] @ i # [Suc i..<n]"
  by (metis le0 less_imp_le_nat upt_add_eq_append upt_conv_Cons le_add_diff_inverse plus_nat.add_0)


lemmas example_defs = learning_start_def power_on_def after_first_touch_def first_touch_def
  second_touch_def sensor_addr_def bEEmapiX_config_def empty_address_def set2_def

lemma first_touch_learned:
  "checkForHeatSignal bEEmapiX_config 1000 first_touch learning_start = Some after_first_touch"
  by (simp add: checkForHeatSignal_def upt21 fsub_2 heat_found_def alreadyLearned_def
      addressesMatch_iff upt_small example_defs Let_def sdiv_nonneg smod_nonneg)


section \<open>Lemmas on the loop and the learning invariant\<close>

lemma heat_tick_returns:
  assumes ok: "config_ok cfg"
    and ls: "0 \<le> learnedSensors s" "learnedSensors s < int (TOTAL_SENSORS cfg)"
    and dc: "discoveredCount s \<le> int (TOTAL_SENSORS cfg)"
  shows "\<exists>s'. checkForHeatSignal cfg millis temps s = Some s'"
proof (cases "millis - lastCheck s < 1000")
  case True
  then show ?thesis by (simp add: checkForHeatSignal_def)
next
  case False
  let ?s = "s\<lparr>lastCheck := millis\<rparr>"
  have n: "nat (discoveredCount s) \<le> TOTAL_SENSORS cfg" using dc by simp
  have found: "\<exists>s'. heat_found cfg ?s i t = Some s'" for i t
    using grid_index_in_range[OF ok ls] by (simp add: heat_found_def Let_def)
  have "\<exists>s'. heat_loop cfg temps ?s [0..<nat (discoveredCount s)] = Some s'"
    using heat_loop_upt[OF n, of temps ?s] found by metis
  then show ?thesis using False by (simp add: checkForHeatSignal_def)
qed

lemma fold_set2:
  "fold (\<lambda>(row, col) g. set2 g row col (f row col)) ps g0
     = (\<lambda>r c. if (r, c) \<in> set ps then f r c else g0 r c)"
proof (induction ps arbitrary: g0)
  case Nil
  show ?case by simp
next
  case (Cons p ps)
  obtain row col where p: "p = (row, col)" by (cases p)
  show ?case unfolding p by (simp add: Cons.IH) (auto simp: set2_def fun_eq_iff)
qed

lemma for_grid_set2:
  "for_grid cfg (\<lambda>row col g. set2 g row col (f row col)) g0
     = (\<lambda>r c. if r < ROWS cfg \<and> c < COLS cfg then f r c else g0 r c)"
  unfolding for_grid_def by (simp add: fold_set2)

lemma runCalibration_core [simp]: "learn_core (snd (runCalibration cfg temps s)) = learn_core s"
  by (simp add: runCalibration_def learn_core_def split: prod.splits)

lemma run_command_core [simp]: "learn_core (run_command cfg temps cmd s) = learn_core s"
proof (cases cmd)
  case CALIBRATE
  then show ?thesis by simp
qed (simp_all add: learn_core_def Let_def)

lemma serialEvent_core [simp]: "learn_core (serialEvent cfg temps cmds s) = learn_core s"
  unfolding serialEvent_def by (induction cmds arbitrary: s) simp_all

lemma apply_directive_core [simp]: "learn_core (apply_directive body s) = learn_core s"
  by (simp add: apply_directive_def learn_core_def Let_def split: http_body.splits option.splits)

lemma measureTemperatures_core [simp]: "learn_core (measureTemperatures cfg temps s) = learn_core s"
  by (simp add: measureTemperatures_def learn_core_def)

lemma sendData_core [simp]: "learn_core (snd (sendData cfg t w code body s)) = learn_core s"
  by (simp add: sendData_def)

lemma timers_core [simp]:
  "learn_core (s\<lparr>lastMeasurementTime := t\<rparr>) = learn_core s"
  "learn_core (s\<lparr>lastSendTime := t\<rparr>) = learn_core s"
  "learn_core (s\<lparr>lastWifiTry := t\<rparr>) = learn_core s"
  "learn_core (s\<lparr>lastCheck := t\<rparr>) = learn_core s"
  by (simp_all add: learn_core_def)

lemma normal_work_core [simp]: "learn_core (normal_work cfg inp s) = learn_core s"
  by (simp add: normal_work_def Let_def)

lemma heat_loop_Some:
  "heat_loop cfg temps s xs = Some s'
     \<Longrightarrow> s' = s \<or> (\<exists>i. heat_found cfg s i (temps (discoveredAddresses s i)) = Some s')"
  by (induction xs) (auto simp: Let_def split: if_splits)

lemma heat_found_core:
  assumes "heat_found cfg s i t = Some s'"
  shows "learn_core s' = learn_core s
       \<or> (\<not> alreadyLearned cfg (sensorMap s) (discoveredAddresses s i)
          \<and> 0 \<le> learnedSensors s sdiv int (COLS cfg) \<and> learnedSensors s sdiv int (COLS cfg) < int (ROWS cfg)
          \<and> 0 \<le> learnedSensors s smod int (COLS cfg) \<and> learnedSensors s smod int (COLS cfg) < int (COLS cfg)
          \<and> learn_core s' =
              (set2 (sensorMap s) (nat (learnedSensors s sdiv int (COLS cfg)))
                 (nat (learnedSensors s smod int (COLS cfg))) (discoveredAddresses s i),
               learnedSensors s + 1,
               learningMode s \<and> learnedSensors s + 1 < int (TOTAL_SENSORS cfg),
               mappingComplete s \<or> \<not> learnedSensors s + 1 < int (TOTAL_SENSORS cfg)))"
  using assms
  by (auto simp: heat_found_def learn_core_def finishLearning_def Let_def split: if_splits)


lemma loop_core:
  assumes "loop cfg inp s = Some s'"
  shows "learn_step cfg (learn_core s) (learn_core s')"
proof -
  define s1 where "s1 = (if \<not> in_wifi inp \<and> 30000 < in_millis inp - lastWifiTry s
                then s\<lparr>lastWifiTry := in_millis inp\<rparr> else s)"
  have c1: "learn_core s1 = learn_core s" by (simp add: s1_def learn_core_def)
  show ?thesis
  proof (cases "learningMode s1")
    case False
    then have "s' = serialEvent cfg (in_bus inp) (in_serial inp) (normal_work cfg inp s1)"
      using assms by (simp add: loop_def Let_def s1_def)
    then have "learn_core s' = learn_core s" using c1 by simp
    then show ?thesis by (simp add: learn_step_def split: prod.splits)
  next
    case True
    then obtain s2 where chk: "checkForHeatSignal cfg (in_millis inp) (in_bus inp) s1 = Some s2"
      and s': "s' = serialEvent cfg (in_bus inp) (in_serial inp) s2"
      using assms by (auto simp: loop_def Let_def s1_def split: option.splits)
    have c': "learn_core s' = learn_core s2" using s' by simp
    let ?s = "s1\<lparr>lastCheck := in_millis inp\<rparr>"
    have cs: "learn_core ?s = learn_core s" using c1 by (simp add: learn_core_def)
    from chk have "s2 = s1 \<or> heat_loop cfg (in_bus inp) ?s [0..<nat (discoveredCount s1)] = Some s2"
      by (auto simp: checkForHeatSignal_def split: if_splits)
    then have "s2 = s1 \<or> s2 = ?s
        \<or> (\<exists>i. heat_found cfg ?s i (in_bus inp (discoveredAddresses ?s i)) = Some s2)"
      using heat_loop_Some[of cfg "in_bus inp" ?s "[0..<nat (discoveredCount s1)]" s2] by blast
    then have "learn_core s2 = learn_core s
        \<or> (\<exists>i. heat_found cfg ?s i (in_bus inp (discoveredAddresses ?s i)) = Some s2)"
      using c1 cs by auto
    then show ?thesis
    proof
      assume "learn_core s2 = learn_core s"
      then show ?thesis using c' by (simp add: learn_step_def split: prod.splits)
    next
      assume "\<exists>i. heat_found cfg ?s i (in_bus inp (discoveredAddresses ?s i)) = Some s2"
      then obtain i where "heat_found cfg ?s i (in_bus inp (discoveredAddresses ?s i)) = Some s2" ..
      from heat_found_core[OF this] True c' cs c1 show ?thesis
        unfolding learn_step_def learn_core_def by (auto split: prod.splits)
    qed
  qed
qed

lemma cell_in_grid:
  assumes "config_ok cfg" "k < TOTAL_SENSORS cfg"
  shows "k div COLS cfg < ROWS cfg \<and> k mod COLS cfg < COLS cfg"
  using assms by (auto simp: config_ok_def less_mult_imp_div_less)

lemma cell_set2:
  assumes "0 < COLS cfg"
  shows "cell cfg (set2 g (n div COLS cfg) (n mod COLS cfg) a) k = (if k = n then a else cell cfg g k)"
proof -
  have "k div COLS cfg = n div COLS cfg \<and> k mod COLS cfg = n mod COLS cfg \<longleftrightarrow> k = n"
    by (metis div_mult_mod_eq)
  then show ?thesis by (auto simp: cell_def set2_def)
qed

lemma learning_inv_step:
  assumes ok: "config_ok cfg" and inv: "learning_inv cfg old" and step: "learn_step cfg old new"
  shows "learning_inv cfg new"
proof -
  obtain smap n learning cmpl where old: "old = (smap, n, learning, cmpl)" by (cases old)
  have C: "0 < COLS cfg" using ok by (simp add: config_ok_def)
  from inv old have n0: "0 \<le> n" and nT: "n \<le> int (TOTAL_SENSORS cfg)"
    and lrn: "learning \<longrightarrow> n < int (TOTAL_SENSORS cfg)"
    and fin: "cmpl \<longrightarrow> n = int (TOTAL_SENSORS cfg)"
    and used: "\<forall>k<TOTAL_SENSORS cfg. int k < n \<longrightarrow> cell cfg smap k \<noteq> empty_address"
    and free: "\<forall>k<TOTAL_SENSORS cfg. n \<le> int k \<longrightarrow> cell cfg smap k = empty_address"
    and inj: "\<forall>k<TOTAL_SENSORS cfg. \<forall>k'<TOTAL_SENSORS cfg.
              int k < n \<and> int k' < n \<and> cell cfg smap k = cell cfg smap k' \<longrightarrow> k = k'"
    by (simp_all add: learning_inv_def)
  from step old consider "new = old"
    | a where "learning" "\<not> alreadyLearned cfg smap a"
        "new = (set2 smap (nat (n sdiv int (COLS cfg))) (nat (n smod int (COLS cfg))) a,
                n + 1, n + 1 < int (TOTAL_SENSORS cfg), cmpl \<or> \<not> n + 1 < int (TOTAL_SENSORS cfg))"
    by (auto simp: learn_step_def)
  then show ?thesis
  proof cases
    case 1
    then show ?thesis using inv by simp
  next
    case 2
    obtain m where m: "n = int m" using n0 nonneg_int_cases by blast
    have mT: "m < TOTAL_SENSORS cfg" using lrn 2(1) m by simp
    have idx: "nat (n sdiv int (COLS cfg)) = m div COLS cfg" "nat (n smod int (COLS cfg)) = m mod COLS cfg"
      using C m by (simp_all add: sdiv_nonneg smod_nonneg zdiv_int[symmetric] zmod_int[symmetric])
    have nodup: "\<forall>k<TOTAL_SENSORS cfg. cell cfg smap k \<noteq> a"
    proof (intro allI impI)
      fix k assume "k < TOTAL_SENSORS cfg"
      then have "k div COLS cfg < ROWS cfg \<and> k mod COLS cfg < COLS cfg"
        using ok by (intro cell_in_grid)
      with 2(2) show "cell cfg smap k \<noteq> a"
        unfolding alreadyLearned_iff cell_def by blast
    qed
    have a_ne: "a \<noteq> empty_address" using nodup free mT m by force
    have cell': "\<And>k. cell cfg (set2 smap (m div COLS cfg) (m mod COLS cfg) a) k
        = (if k = m then a else cell cfg smap k)"
      using C by (rule cell_set2)
    show ?thesis
      unfolding 2(3) idx learning_inv_def prod.case cell'
    proof (intro conjI allI impI)
      fix k k' assume kT: "k < TOTAL_SENSORS cfg" and kT': "k' < TOTAL_SENSORS cfg"
        and h: "int k < n + 1 \<and> int k' < n + 1
                \<and> (if k = m then a else cell cfg smap k) = (if k' = m then a else cell cfg smap k')"
      show "k = k'"
      proof (cases "k = m")
        case True
        then show ?thesis using h nodup kT' by (auto split: if_splits)
      next
        case False
        note km = this
        show ?thesis
        proof (cases "k' = m")
          case True
          then show ?thesis using h nodup kT km by (auto split: if_splits)
        next
          case False
          then have "int k < n \<and> int k' < n \<and> cell cfg smap k = cell cfg smap k'"
            using h km m by auto
          then show ?thesis using inj kT kT' by blast
        qed
      qed
    qed (use n0 nT lrn fin 2(1) used free a_ne m mT in \<open>auto\<close>)
  qed
qed

lemma learning_inv_run:
  assumes "config_ok cfg"
  shows "learning_inv cfg (learn_core s) \<Longrightarrow> run_loop cfg inputs s = Some s'
           \<Longrightarrow> learning_inv cfg (learn_core s')"
proof (induction inputs arbitrary: s)
  case Nil
  then show ?case by simp
next
  case (Cons inp rest)
  from Cons.prems(2) obtain s1 where l: "loop cfg inp s = Some s1" and r: "run_loop cfg rest s1 = Some s'"
    by (auto split: option.splits)
  have "learning_inv cfg (learn_core s1)"
    using assms Cons.prems(1) loop_core[OF l] by (rule learning_inv_step)
  then show ?case using r by (rule Cons.IH)
qed

lemma baseline_loop_core:
  "baseline_loop cfg temps s xs = Some s' \<Longrightarrow> learn_core s' = learn_core s"
  by (induction xs arbitrary: s) (auto simp: learn_core_def split: if_splits)

lemma loadCalibration_core [simp]: "learn_core (loadCalibration cfg s) = learn_core s"
  by (simp add: loadCalibration_def learn_core_def Let_def)

lemma setupSensors_map:
  "sensorMap s = (\<lambda>row col. empty_address)
     \<Longrightarrow> sensorMap (setupSensors cfg devices s) = (\<lambda>row col. empty_address)"
  by (auto simp: setupSensors_def Let_def for_grid_set2)

lemma setup_fresh_core:
  assumes fresh: "\<not> getBool map_store ''complete'' False"
    and boot: "setup_sketch cfg devices temps (power_on ident map_store cal_store) = Some s0"
  shows "learn_core s0 = (\<lambda>row col. empty_address, 0, True, False)"
proof -
  let ?p = "power_on ident map_store cal_store"
  let ?s = "setupSensors cfg devices ?p"
  have m: "sensorMap ?s = (\<lambda>row col. empty_address)"
    by (rule setupSensors_map) (simp add: power_on_def)
  have st: "sensor_map_nvs ?s = map_store"
    by (simp add: setupSensors_def power_on_def Let_def)
  let ?s1 = "?s\<lparr>mappingComplete := False\<rparr>"
  from boot obtain s1 where l: "loadOrLearnMapping cfg temps ?s = Some s1" and s0: "s0 = loadCalibration cfg s1"
    by (auto simp: setup_sketch_def split: option.splits)
  from l fresh st have "startLearningMode cfg temps ?s1 = Some s1"
    by (simp add: loadOrLearnMapping_def Let_def)
  then have "learn_core s1 = learn_core (?s1\<lparr>learningMode := True, learnedSensors := 0\<rparr>)"
    unfolding startLearningMode_def by (rule baseline_loop_core)
  then have "learn_core s1 = (\<lambda>row col. empty_address, 0, True, False)"
    using m by (simp add: learn_core_def)
  then show ?thesis unfolding s0 by simp
qed

lemma learning_inv_fresh:
  "0 < TOTAL_SENSORS cfg \<Longrightarrow> learning_inv cfg (\<lambda>row col. empty_address, 0, True, False)"
  by (simp add: learning_inv_def cell_def)

lemma grid_cell:
  assumes "config_ok cfg" "r < ROWS cfg" "c < COLS cfg"
  shows "r * COLS cfg + c < TOTAL_SENSORS cfg \<and> cell cfg g (r * COLS cfg + c) = g r c"
proof -
  have "r * COLS cfg + c < Suc r * COLS cfg" using assms(3) by simp
  also have "\<dots> \<le> ROWS cfg * COLS cfg" using assms(2) by (intro mult_le_mono1) simp
  finally show ?thesis using assms by (simp add: cell_def config_ok_def)
qed


lemma setup_learned_count:
  assumes "setup_sketch cfg devices temps (power_on ident map_store cal_store) = Some s0"
  shows "learnedSensors s0 = 0"
proof -
  let ?s = "setupSensors cfg devices (power_on ident map_store cal_store)"
  have z: "learnedSensors ?s = 0" by (simp add: setupSensors_def power_on_def Let_def)
  from assms obtain s1 where l: "loadOrLearnMapping cfg temps ?s = Some s1" and s0: "s0 = loadCalibration cfg s1"
    by (auto simp: setup_sketch_def split: option.splits)
  have "learnedSensors s1 = 0"
  proof (cases "getBool (sensor_map_nvs ?s) ''complete'' False")
    case True
    then show ?thesis using l z by (auto simp: loadOrLearnMapping_def Let_def)
  next
    case False
    then have "startLearningMode cfg temps (?s\<lparr>mappingComplete := False\<rparr>) = Some s1"
      using l by (simp add: loadOrLearnMapping_def Let_def)
    then have "learn_core s1 = learn_core (?s\<lparr>mappingComplete := False, learningMode := True, learnedSensors := 0\<rparr>)"
      unfolding startLearningMode_def by (rule baseline_loop_core)
    then show ?thesis by (simp add: learn_core_def)
  qed
  moreover have "learnedSensors (loadCalibration cfg s1) = learnedSensors s1"
    by (simp add: loadCalibration_def Let_def)
  ultimately show ?thesis unfolding s0 by simp
qed


lemma fsub_22: "fsub 22 22 = 0"
  by code_simp

lemma set2_apply: "set2 g row col v r c = (if r = row \<and> c = col then v else g r c)"
  by (simp add: set2_def)

lemma upt_1_22: "[Suc 0..<22] = [1,2,3,4,5,6,7,8,9,10,11,12,13,14,15,16,17,18,19,20,21]"
  by code_simp

lemmas run_defs = setup_sketch_def setupSensors_def loadOrLearnMapping_def startLearningMode_def
      loadCalibration_def getBool_def for_grid_set2 power_on_def bus_21_def upt21 bEEmapiX_config_def
      sensor_addr_def Let_def full_session_def upt_1_22 quiet_tick_def loop_def checkForHeatSignal_def
      heat_found_def alreadyLearned_def addressesMatch_iff upt_small fsub_2 fsub_22 serialEvent_def
      finishLearning_def set2_apply empty_address_def sdiv_nonneg smod_nonneg

lemma session_eval:
  "\<exists>s0 s. setup_sketch bEEmapiX_config bus_21 (warmed 0) (power_on ''A1B2C3'' Map.empty Map.empty) = Some s0
      \<and> run_loop bEEmapiX_config full_session s0 = Some s \<and> mappingComplete s"
  by (simp add: run_defs)

section \<open>Lemmas on calibration\<close>

lemma in_grid_positions [simp]:
  "(r, c) \<in> set (grid_positions cfg) \<longleftrightarrow> r < ROWS cfg \<and> c < COLS cfg"
  by (simp add: grid_positions_def)

lemma for_grid_fold: "for_grid cfg body = fold (\<lambda>(row, col). body row col) (grid_positions cfg)"
  by (simp add: for_grid_def grid_positions_def)

lemma cal_read_step:
  "cal_read s temps row col (raw, t, n) =
     (set2 raw row col (if cal_valid s temps row col then temps (sensorMap s row col) else - 127),
      (if cal_valid s temps row col then fadd t (temps (sensorMap s row col)) else t),
      (if cal_valid s temps row col then n + 1 else n))"
  by (auto simp: cal_read_def cal_valid_def Let_def)

lemma cal_read_fold:
  "fold (\<lambda>(row, col). cal_read s temps row col) ps (raw0, t0, n0) =
     ((\<lambda>r c. if (r, c) \<in> set ps
              then (if cal_valid s temps r c then temps (sensorMap s r c) else - 127)
              else raw0 r c),
      foldl fadd t0 (map (\<lambda>(row, col). temps (sensorMap s row col))
                       (filter (\<lambda>(row, col). cal_valid s temps row col) ps)),
      n0 + int (length (filter (\<lambda>(row, col). cal_valid s temps row col) ps)))"
proof (induction ps arbitrary: raw0 t0 n0)
  case Nil
  show ?case by simp
next
  case (Cons p ps)
  obtain row col where p: "p = (row, col)" by (cases p)
  show ?case
    unfolding p
    by (simp add: cal_read_step Cons.IH) (auto simp: set2_def fun_eq_iff)
qed

lemma cal_readings_eq:
  "cal_readings cfg s temps =
     ((\<lambda>r c. if r < ROWS cfg \<and> c < COLS cfg
              then (if cal_valid s temps r c then temps (sensorMap s r c) else - 127)
              else 0),
      float_sum (map (\<lambda>(row, col). temps (sensorMap s row col)) (cal_valid_positions cfg s temps)),
      int (length (cal_valid_positions cfg s temps)))"
  by (simp add: cal_readings_def for_grid_fold cal_read_fold float_sum_def cal_valid_positions_def)


lemma cal_write_fold:
  assumes "\<forall>(r, c)\<in>set ps. raw r c = (if cal_valid s temps r c then temps (sensorMap s r c) else - 127)"
  shows "fold (\<lambda>(row, col). cal_write raw avg row col) ps (off0, st0) =
     ((\<lambda>r c. if (r, c) \<in> set ps
              then (if cal_valid s temps r c then fsub avg (temps (sensorMap s r c)) else 0)
              else off0 r c),
      cal_puts s temps avg ps st0)"
  using assms
proof (induction ps arbitrary: off0 st0)
  case Nil
  show ?case by (simp add: cal_puts_def)
next
  case (Cons p ps)
  obtain row col where p: "p = (row, col)" by (cases p)
  have raw: "raw row col = (if cal_valid s temps row col then temps (sensorMap s row col) else - 127)"
    using Cons.prems p by simp
  have v: "DEVICE_DISCONNECTED_C < raw row col \<longleftrightarrow> cal_valid s temps row col"
    unfolding raw by (simp add: cal_valid_def DEVICE_DISCONNECTED_C_def)
  have step: "cal_write raw avg row col (off0, st0) =
      (set2 off0 row col (if cal_valid s temps row col then fsub avg (temps (sensorMap s row col)) else 0),
       (if cal_valid s temps row col
        then st0(cal_key row col \<mapsto> NvsFloat (fsub avg (temps (sensorMap s row col)))) else st0))"
    by (simp add: cal_write_def v Let_def) (simp add: raw)
  have IH: "\<And>off0 st0. fold (\<lambda>(row, col). cal_write raw avg row col) ps (off0, st0) =
     ((\<lambda>r c. if (r, c) \<in> set ps
              then (if cal_valid s temps r c then fsub avg (temps (sensorMap s r c)) else 0)
              else off0 r c),
      cal_puts s temps avg ps st0)"
    using Cons.prems by (intro Cons.IH) simp
  show ?case
    unfolding p by (simp add: step IH cal_puts_def) (auto simp: set2_def fun_eq_iff)
qed

lemma runCalibration_saved:
  assumes "mappingComplete s" "2 \<le> length (cal_valid_positions cfg s temps)"
  shows "runCalibration cfg temps s =
     (CalibrationSaved,
      s\<lparr>calibrationOffset := cal_offsets cfg s temps,
        sensor_cal_nvs := (cal_puts s temps (cal_mean cfg s temps) (grid_positions cfg) (sensor_cal_nvs s))
                            (''done'' \<mapsto> NvsBool True),
        calibrationLoaded := True\<rparr>)"
proof -
  let ?raw = "\<lambda>r c. if r < ROWS cfg \<and> c < COLS cfg
              then (if cal_valid s temps r c then temps (sensorMap s r c) else - 127)
              else (0::float32)"
  have w: "for_grid cfg (cal_write ?raw (cal_mean cfg s temps)) (calibrationOffset s, sensor_cal_nvs s)
      = (cal_offsets cfg s temps,
         cal_puts s temps (cal_mean cfg s temps) (grid_positions cfg) (sensor_cal_nvs s))"
    unfolding for_grid_fold
    by (subst cal_write_fold[where s = s and temps = temps]) (auto simp: cal_offsets_def fun_eq_iff)
  show ?thesis
    using assms by (simp add: runCalibration_def cal_readings_eq cal_mean_def[symmetric] w)
qed

lemma runCalibration_aborts:
  assumes "length (cal_valid_positions cfg s temps) < 2"
  shows "runCalibration cfg temps s = (if mappingComplete s then InsufficientSensors else MappingIncomplete, s)"
  using assms by (simp add: runCalibration_def cal_readings_eq)

lemma grid_21:
  "grid_positions bEEmapiX_config =
     [(0,0),(0,1),(0,2),(0,3),(0,4),(0,5),(0,6),
      (1,0),(1,1),(1,2),(1,3),(1,4),(1,5),(1,6),
      (2,0),(2,1),(2,2),(2,3),(2,4),(2,5),(2,6)]"
  by (simp add: grid_positions_def bEEmapiX_config_def upt_small)

lemmas state_defs = normal_state_def recal_state_def power_on_def sensor_addr_def empty_address_def
  one_alive_def one_hot_def first_absent_def

lemma one_alive_valid:
  "cal_valid_positions bEEmapiX_config normal_state one_alive = [(0, 0)]"
  by (simp add: cal_valid_positions_def grid_21 cal_valid_def isAddressEmpty_iff state_defs
      DEVICE_DISCONNECTED_C_def)


lemma one_hot_valid:
  "cal_valid_positions bEEmapiX_config normal_state one_hot = grid_positions bEEmapiX_config"
  by (simp add: cal_valid_positions_def grid_21 cal_valid_def isAddressEmpty_iff state_defs
      DEVICE_DISCONNECTED_C_def)

lemma one_hot_sum:
  "float_sum [30, 4, 4, 4, 4, 4, 4, 4, 4, 4, 4, 4, 4, 4, 4, 4, 4, 4, 4, 4, 4] = 110"
  by code_simp

lemma one_hot_floats:
  "fdiv 110 21 = 5492541 / 1048576"
  "fsub (5492541 / 1048576) 30 = - (6491185 / 262144)"
  "fadd 30 (- (6491185 / 262144)) = 1373135 / 262144"
  "fsub (5492541 / 1048576) 4 = 1298237 / 1048576"
  "fadd 4 (1298237 / 1048576) = 5492541 / 1048576"
  by code_simp+

lemma one_hot_mean: "cal_mean bEEmapiX_config normal_state one_hot = 5492541 / 1048576"
  by (simp add: cal_mean_def one_hot_valid)
     (simp add: grid_21 state_defs one_hot_sum one_hot_floats)


lemma decimal_digit: "n < 10 \<Longrightarrow> decimal n = [digit_char n]"
  by (simp add: decimal.simps)

lemma cal_key_digits:
  "r < 10 \<Longrightarrow> c < 10 \<Longrightarrow> cal_key r c = [CHR ''c'', digit_char r, CHR ''_'', digit_char c]"
  by (simp add: cal_key_def decimal_digit)

lemma digit_chars:
  "digit_char 0 = CHR ''0''" "digit_char 1 = CHR ''1''" "digit_char (Suc 0) = CHR ''1''" "digit_char 2 = CHR ''2''"
  "digit_char 3 = CHR ''3''" "digit_char 4 = CHR ''4''" "digit_char 5 = CHR ''5''"
  "digit_char 6 = CHR ''6''"
  by (simp_all add: digit_char_def)

lemma first_absent_valid:
  "cal_valid_positions bEEmapiX_config recal_state first_absent = tl (grid_positions bEEmapiX_config)"
  by (simp add: cal_valid_positions_def grid_21 cal_valid_def isAddressEmpty_iff state_defs
      DEVICE_DISCONNECTED_C_def)

lemma first_absent_sum:
  "float_sum [20, 20, 20, 20, 20, 20, 20, 20, 20, 20, 20, 20, 20, 20, 20, 20, 20, 20, 20, 20] = 400"
  by code_simp

lemma first_absent_floats: "fdiv 400 20 = 20" "fsub 20 20 = 0"
  by code_simp+

lemma first_absent_mean: "cal_mean bEEmapiX_config recal_state first_absent = 20"
  by (simp add: cal_mean_def first_absent_valid)
     (simp add: grid_21 state_defs first_absent_sum first_absent_floats)


section \<open>Lemmas on measurement and telemetry\<close>

lemma measureTemperatures_grid:
  "temperatureGrid (measureTemperatures cfg temps s) =
     (\<lambda>r c. if r < ROWS cfg \<and> c < COLS cfg
            then (if isAddressEmpty (sensorMap s r c) then - 127
                  else if temps (sensorMap s r c) \<le> DEVICE_DISCONNECTED_C then - 127
                  else fadd (temps (sensorMap s r c)) (calibrationOffset s r c))
            else temperatureGrid s r c)"
proof -
  have body: "(\<lambda>row col g.
             if \<not> isAddressEmpty (sensorMap s row col) then
               (let temp = temps (sensorMap s row col)
                in set2 g row col
                     (if temp \<le> DEVICE_DISCONNECTED_C then - 127
                      else fadd temp (calibrationOffset s row col)))
             else set2 g row col (- 127))
      = (\<lambda>row col g. set2 g row col
            (if isAddressEmpty (sensorMap s row col) then - 127
             else if temps (sensorMap s row col) \<le> DEVICE_DISCONNECTED_C then - 127
             else fadd (temps (sensorMap s row col)) (calibrationOffset s row col)))"
    by (auto simp: fun_eq_iff Let_def)
  show ?thesis
    unfolding measureTemperatures_def body by (simp add: for_grid_set2)
qed

lemma measureTemperatures_v3_grid:
  "temperatureGrid (measureTemperatures_v3 cfg temps s) =
     (\<lambda>r c. if r < ROWS cfg \<and> c < COLS cfg
            then (if isAddressEmpty (sensorMap s r c) then - 127 else temps (sensorMap s r c))
            else temperatureGrid s r c)"
proof -
  have body: "(\<lambda>row col g.
             if \<not> isAddressEmpty (sensorMap s row col) then
               (let temp = temps (sensorMap s row col) in set2 g row col temp)
             else set2 g row col (- 127))
      = (\<lambda>row col g. set2 g row col
            (if isAddressEmpty (sensorMap s row col) then - 127 else temps (sensorMap s row col)))"
    by (auto simp: fun_eq_iff Let_def)
  show ?thesis
    unfolding measureTemperatures_v3_def body by (simp add: for_grid_set2)
qed

lemma loadCalibration_none:
  "\<not> getBool (sensor_cal_nvs s) ''done'' False \<Longrightarrow> r < ROWS cfg \<Longrightarrow> c < COLS cfg
     \<Longrightarrow> calibrationOffset (loadCalibration cfg s) r c = 0"
  by (simp add: loadCalibration_def Let_def for_grid_set2)

lemma cold_sum: "fadd (- 50) (- 77) = - 127"
  by code_simp


lemma stats_step_eq:
  "stats_step g row col (mn, mx, sm, n) =
     (if sample_valid (g row col)
      then (min mn (g row col), max mx (g row col), fadd sm (g row col), n + 1)
      else (mn, mx, sm, n))"
  by (auto simp: stats_step_def sample_valid_def Let_def min_def max_def)

lemma stats_fold:
  "fold (\<lambda>(row, col). stats_step g row col) ps (mn, mx, sm, n) =
     (foldl min mn (filter sample_valid (map (\<lambda>(row, col). g row col) ps)),
      foldl max mx (filter sample_valid (map (\<lambda>(row, col). g row col) ps)),
      foldl fadd sm (filter sample_valid (map (\<lambda>(row, col). g row col) ps)),
      n + int (length (filter sample_valid (map (\<lambda>(row, col). g row col) ps))))"
proof (induction ps arbitrary: mn mx sm n)
  case Nil
  show ?case by simp
next
  case (Cons p ps)
  obtain row col where p: "p = (row, col)" by (cases p)
  show ?case unfolding p by (simp add: stats_step_eq Cons.IH)
qed

lemma foldl_min_Min: "foldl min a xs = Min (insert a (set xs))"
proof (induction xs arbitrary: a)
  case Nil
  show ?case by simp
next
  case (Cons x xs)
  have "Min (insert (min a x) (set xs)) = Min (insert a (insert x (set xs)))"
    by (cases "set xs = {}") (simp_all add: min.assoc min.commute min.left_commute)
  then show ?case by (simp add: Cons.IH)
qed

lemma foldl_max_Max: "foldl max a xs = Max (insert a (set xs))"
proof (induction xs arbitrary: a)
  case Nil
  show ?case by simp
next
  case (Cons x xs)
  have "Max (insert (max a x) (set xs)) = Max (insert a (insert x (set xs)))"
    by (cases "set xs = {}") (simp_all add: max.assoc max.commute max.left_commute)
  then show ?case by (simp add: Cons.IH)
qed

lemma report_statistics:
  "statistics (build_report cfg millis s) =
     (if valid_samples cfg s = [] then None
      else Some \<lparr>min_temp = min 999 (Min (set (valid_samples cfg s))),
                 max_temp = Max (set (valid_samples cfg s)),
                 avg_temp = fdiv (float_sum (valid_samples cfg s)) (of_nat (length (valid_samples cfg s))),
                 valid_readings = int (length (valid_samples cfg s))\<rparr>)"
proof -
  let ?vs = "valid_samples cfg s"
  have f: "for_grid cfg (stats_step (temperatureGrid s)) (999, - 999, 0, 0)
      = (foldl min 999 ?vs, foldl max (- 999) ?vs, float_sum ?vs, int (length ?vs))"
    by (simp add: for_grid_fold stats_fold valid_samples_def grid_samples_def float_sum_def)
  have mx: "foldl max (- 999) ?vs = Max (set ?vs)" if "?vs \<noteq> []"
  proof -
    have low: "\<forall>t\<in>set ?vs. - 999 \<le> t"
      by (auto simp: valid_samples_def sample_valid_def DEVICE_DISCONNECTED_C_def)
    from that obtain t where t: "t \<in> set ?vs" by (cases ?vs) auto
    with low have "- 999 \<le> t" "t \<le> Max (set ?vs)" by simp_all
    then have "max (- 999) (Max (set ?vs)) = Max (set ?vs)"
      by (intro max_absorb2) simp
    then show ?thesis using that by (simp add: foldl_max_Max)
  qed
  have mn: "foldl min 999 ?vs = min 999 (Min (set ?vs))" if "?vs \<noteq> []"
    using that by (simp add: foldl_min_Min)
  show ?thesis
    by (simp add: build_report_def f mx mn)
qed

lemma config_dims:
  "ROWS bEEmapiX_config = 3" "COLS bEEmapiX_config = 7" "TOTAL_SENSORS bEEmapiX_config = 21"
  by (simp_all add: bEEmapiX_config_def)


lemma float_sum_bound_aux:
  assumes "\<forall>x\<in>set xs. \<bar>x\<bar> \<le> 256"
    and "\<bar>a\<bar> \<le> of_int (256 * int k)"
    and "k + length xs \<le> 65536"
  shows "\<bar>foldl fadd a xs\<bar> \<le> of_int (256 * int (k + length xs))"
  using assms
proof (induction xs arbitrary: a k)
  case Nil
  then show ?case by simp
next
  case (Cons x xs)
  have x: "\<bar>x\<bar> \<le> 256" using Cons.prems(1) by simp
  have "\<bar>a + x\<bar> \<le> \<bar>a\<bar> + \<bar>x\<bar>" by simp
  also have "\<dots> \<le> of_int (256 * int k) + 256" using Cons.prems(2) x by simp
  also have "\<dots> = of_int (256 * int (Suc k))" by simp
  finally have "\<bar>a + x\<bar> \<le> of_int (256 * int (Suc k))" .
  moreover have "256 * int (Suc k) \<le> 2 ^ 24" using Cons.prems(3) by simp
  ultimately have "\<bar>fadd a x\<bar> \<le> of_int (256 * int (Suc k))"
    unfolding fadd_def by (rule fl32_bound)
  moreover have "\<forall>y\<in>set xs. \<bar>y\<bar> \<le> 256" using Cons.prems(1) by simp
  moreover have "Suc k + length xs \<le> 65536" using Cons.prems(3) by simp
  ultimately have "\<bar>foldl fadd (fadd a x) xs\<bar> \<le> of_int (256 * int (Suc k + length xs))"
    by (intro Cons.IH)
  then show ?case by simp
qed

lemma float_sum_bound:
  assumes "\<forall>x\<in>set xs. \<bar>x\<bar> \<le> 256" "length xs \<le> 65536"
  shows "\<bar>float_sum xs\<bar> \<le> 256 * of_nat (length xs)"
  using float_sum_bound_aux[of xs 0 0] assms by (simp add: float_sum_def)

lemma float_mean_bound:
  assumes "\<forall>x\<in>set xs. \<bar>x\<bar> \<le> 256" "length xs \<le> 65536"
  shows "\<bar>fdiv (float_sum xs) (of_nat (length xs))\<bar> \<le> 256"
proof -
  have s: "\<bar>float_sum xs\<bar> \<le> 256 * of_nat (length xs)" using assms by (rule float_sum_bound)
  have "\<bar>float_sum xs / of_nat (length xs)\<bar> \<le> of_int 256"
  proof (cases "length xs = 0")
    case True
    then show ?thesis by simp
  next
    case False
    then have n: "(0::rat) < of_nat (length xs)" by simp
    have "\<bar>float_sum xs / of_nat (length xs)\<bar> = \<bar>float_sum xs\<bar> / of_nat (length xs)"
      by simp
    also have "\<dots> \<le> (256 * of_nat (length xs)) / of_nat (length xs)"
      using s n by (intro divide_right_mono) simp_all
    also have "\<dots> = 256" using n by simp
    finally show ?thesis by simp
  qed
  then have "\<bar>fl32 (float_sum xs / of_nat (length xs))\<bar> \<le> of_int 256"
    by (rule fl32_bound) simp
  then show ?thesis by (simp add: fdiv_def)
qed

lemma length_grid_positions: "length (grid_positions cfg) = ROWS cfg * COLS cfg"
  by (simp add: grid_positions_def)

lemma cal_mean_bound:
  assumes bus: "bus_in_range temps" and size: "ROWS cfg * COLS cfg \<le> 65536"
  shows "\<bar>cal_mean cfg s temps\<bar> \<le> 256"
proof -
  let ?ps = "cal_valid_positions cfg s temps"
  let ?xs = "map (\<lambda>(row, col). temps (sensorMap s row col)) ?ps"
  have "length ?ps \<le> length (grid_positions cfg)"
    unfolding cal_valid_positions_def by (rule length_filter_le)
  then have len: "length ?xs \<le> 65536" using size by (simp add: length_grid_positions)
  have "\<forall>x\<in>set ?xs. \<bar>x\<bar> \<le> 256" using bus by (auto simp: bus_in_range_def)
  from float_mean_bound[OF this len] show ?thesis by (simp add: cal_mean_def)
qed

lemma offset_bound:
  assumes "\<bar>m\<bar> \<le> 256" "\<bar>t\<bar> \<le> 256"
  shows "\<bar>fsub m t\<bar> \<le> 512"
proof -
  have "\<bar>m - t\<bar> \<le> of_int 512" using assms by simp
  then have "\<bar>fl32 (m - t)\<bar> \<le> of_int 512" by (rule fl32_bound) simp
  then show ?thesis by (simp add: fsub_def)
qed

lemma sample_bound:
  assumes "\<bar>t\<bar> \<le> 256" "\<bar>off\<bar> \<le> 512"
  shows "fadd t off \<le> 768"
proof -
  have "\<bar>t + off\<bar> \<le> of_int 768" using assms by simp
  then have "\<bar>fl32 (t + off)\<bar> \<le> of_int 768" by (rule fl32_bound) simp
  then show ?thesis by (simp add: fadd_def)
qed

lemma cal_offsets_bound:
  assumes bus: "bus_in_range temps" and size: "ROWS cfg * COLS cfg \<le> 65536"
    and old: "\<forall>r c. \<bar>calibrationOffset s r c\<bar> \<le> 512"
  shows "\<bar>cal_offsets cfg s temps r c\<bar> \<le> 512"
proof -
  have "\<bar>fsub (cal_mean cfg s temps) (temps (sensorMap s r c))\<bar> \<le> 512"
    using cal_mean_bound[OF bus size] bus by (intro offset_bound) (simp_all add: bus_in_range_def)
  then show ?thesis using old by (simp add: cal_offsets_def)
qed

lemma cal_puts_in_range:
  assumes bus: "bus_in_range temps" and avg: "\<bar>avg\<bar> \<le> 256"
  shows "store_in_range store \<Longrightarrow> store_in_range (cal_puts s temps avg ps store)"
proof (induction ps arbitrary: store)
  case Nil
  then show ?case by (simp add: cal_puts_def)
next
  case (Cons p ps)
  obtain row col where p: "p = (row, col)" by (cases p)
  let ?st = "if cal_valid s temps row col
             then store(cal_key row col \<mapsto> NvsFloat (fsub avg (temps (sensorMap s row col))))
             else store"
  have "\<bar>fsub avg (temps (sensorMap s row col))\<bar> \<le> 512"
    using avg bus by (intro offset_bound) (simp_all add: bus_in_range_def)
  then have "store_in_range ?st" using Cons.prems by (simp add: store_in_range_def)
  then have "store_in_range (cal_puts s temps avg ps ?st)" by (rule Cons.IH)
  moreover have "cal_puts s temps avg (p # ps) store = cal_puts s temps avg ps ?st"
    unfolding p by (simp add: cal_puts_def)
  ultimately show ?case by simp
qed

lemma store_in_range_flag: "store_in_range store \<Longrightarrow> store_in_range (store(key \<mapsto> NvsBool b))"
  by (simp add: store_in_range_def)

lemma store_in_range_empty: "store_in_range Map.empty"
  by (simp add: store_in_range_def)

lemma runCalibration_in_range:
  assumes bus: "bus_in_range temps" and size: "ROWS cfg * COLS cfg \<le> 65536"
    and inv: "samples_in_range s"
  shows "samples_in_range (snd (runCalibration cfg temps s))"
proof (cases "mappingComplete s \<and> 2 \<le> length (cal_valid_positions cfg s temps)")
  case True
  then have cmpl: "mappingComplete s" "2 \<le> length (cal_valid_positions cfg s temps)" by simp_all
  have old: "\<forall>r c. \<bar>calibrationOffset s r c\<bar> \<le> 512" using inv by (simp add: samples_in_range_def)
  have st: "store_in_range (sensor_cal_nvs s)" using inv by (simp add: samples_in_range_def)
  have g: "\<forall>r c. temperatureGrid s r c \<le> 768" using inv by (simp add: samples_in_range_def)
  have "store_in_range (cal_puts s temps (cal_mean cfg s temps) (grid_positions cfg) (sensor_cal_nvs s))"
    using bus cal_mean_bound[OF bus size] st by (rule cal_puts_in_range)
  then have "store_in_range ((cal_puts s temps (cal_mean cfg s temps) (grid_positions cfg) (sensor_cal_nvs s))
                            (''done'' \<mapsto> NvsBool True))"
    by (rule store_in_range_flag)
  then show ?thesis
    using cal_offsets_bound[OF bus size old] g
    by (simp add: runCalibration_saved[OF cmpl] samples_in_range_def)
next
  case False
  then have "snd (runCalibration cfg temps s) = s"
  proof (cases "mappingComplete s")
    case True
    with False have "length (cal_valid_positions cfg s temps) < 2" by simp
    then show ?thesis by (simp add: runCalibration_aborts)
  next
    case False
    then show ?thesis by (simp add: runCalibration_def)
  qed
  then show ?thesis using inv by simp
qed

lemma run_command_in_range:
  assumes bus: "bus_in_range temps" and size: "ROWS cfg * COLS cfg \<le> 65536"
    and inv: "samples_in_range s"
  shows "samples_in_range (run_command cfg temps cmd s)"
proof (cases cmd)
  case CALIBRATE
  then show ?thesis using runCalibration_in_range[OF bus size inv] by simp
next
  case RESET_CAL
  then show ?thesis using inv
    by (simp add: samples_in_range_def for_grid_set2 store_in_range_empty)
next
  case RESET
  then show ?thesis using inv by (simp add: samples_in_range_def store_in_range_empty)
next
  case (SET_INTERVAL sec)
  then show ?thesis using inv by (simp add: samples_in_range_def Let_def)
qed (use inv in \<open>simp_all add: samples_in_range_def\<close>)

lemma serialEvent_in_range:
  assumes bus: "bus_in_range temps" and size: "ROWS cfg * COLS cfg \<le> 65536"
  shows "samples_in_range s \<Longrightarrow> samples_in_range (serialEvent cfg temps cmds s)"
  unfolding serialEvent_def
proof (induction cmds arbitrary: s)
  case Nil
  then show ?case by simp
next
  case (Cons cmd cmds)
  have "samples_in_range (run_command cfg temps cmd s)"
    using bus size Cons.prems by (rule run_command_in_range)
  then show ?case using Cons.IH by simp
qed

lemma measureTemperatures_in_range:
  assumes bus: "bus_in_range temps" and inv: "samples_in_range s"
  shows "samples_in_range (measureTemperatures cfg temps s)"
proof -
  have off: "calibrationOffset (measureTemperatures cfg temps s) = calibrationOffset s"
    and st: "sensor_cal_nvs (measureTemperatures cfg temps s) = sensor_cal_nvs s"
    by (simp_all add: measureTemperatures_def)
  have "fadd (temps (sensorMap s r c)) (calibrationOffset s r c) \<le> 768" for r c
    using bus inv by (intro sample_bound) (simp_all add: bus_in_range_def samples_in_range_def)
  then have "temperatureGrid (measureTemperatures cfg temps s) r c \<le> 768" for r c
    using inv by (simp add: measureTemperatures_grid samples_in_range_def)
  then show ?thesis using inv unfolding samples_in_range_def off st by simp
qed

lemma apply_directive_in_range:
  "samples_in_range (apply_directive body s) = samples_in_range s"
  by (simp add: apply_directive_def samples_in_range_def Let_def split: http_body.splits option.splits)

lemma sendData_in_range:
  "samples_in_range (snd (sendData cfg t w code body s)) = samples_in_range s"
  by (simp add: sendData_def apply_directive_in_range)

lemma timers_in_range:
  "samples_in_range (s\<lparr>lastMeasurementTime := t\<rparr>) = samples_in_range s"
  "samples_in_range (s\<lparr>lastSendTime := t\<rparr>) = samples_in_range s"
  "samples_in_range (s\<lparr>lastWifiTry := t\<rparr>) = samples_in_range s"
  "samples_in_range (s\<lparr>lastCheck := t\<rparr>) = samples_in_range s"
  by (simp_all add: samples_in_range_def)

lemma measured_in_range:
  assumes bus: "bus_in_range (in_bus inp)" and inv: "samples_in_range s"
  shows "samples_in_range
           (if MEASUREMENT_PERIOD s \<le> in_millis inp - lastMeasurementTime s
            then measureTemperatures cfg (in_bus inp) (s\<lparr>lastMeasurementTime := in_millis inp\<rparr>)
            else s)"
  using inv measureTemperatures_in_range[OF bus, of "s\<lparr>lastMeasurementTime := in_millis inp\<rparr>" cfg]
  by (simp add: timers_in_range)

lemma normal_work_in_range:
  assumes bus: "bus_in_range (in_bus inp)" and inv: "samples_in_range s"
  shows "samples_in_range (normal_work cfg inp s)"
  using measured_in_range[OF bus inv, of cfg]
  by (simp add: normal_work_def Let_def sendData_in_range timers_in_range)

lemma heat_found_in_range:
  "heat_found cfg s i t = Some s' \<Longrightarrow> samples_in_range s' = samples_in_range s"
  by (auto simp: heat_found_def samples_in_range_def finishLearning_def Let_def split: if_splits)

lemma checkForHeatSignal_in_range:
  assumes "checkForHeatSignal cfg millis temps s = Some s'"
  shows "samples_in_range s' = samples_in_range s"
proof -
  let ?s = "s\<lparr>lastCheck := millis\<rparr>"
  from assms have "s' = s \<or> heat_loop cfg temps ?s [0..<nat (discoveredCount s)] = Some s'"
    by (auto simp: checkForHeatSignal_def split: if_splits)
  then have "s' = s \<or> s' = ?s \<or> (\<exists>i. heat_found cfg ?s i (temps (discoveredAddresses ?s i)) = Some s')"
    using heat_loop_Some[of cfg temps ?s "[0..<nat (discoveredCount s)]" s'] by blast
  then show ?thesis using heat_found_in_range[of cfg ?s _ _ s'] by (auto simp: timers_in_range)
qed

lemma loop_in_range:
  assumes bus: "bus_in_range (in_bus inp)" and size: "ROWS cfg * COLS cfg \<le> 65536"
    and inv: "samples_in_range s" and step: "loop cfg inp s = Some s'"
  shows "samples_in_range s'"
proof -
  define s1 where "s1 = (if \<not> in_wifi inp \<and> 30000 < in_millis inp - lastWifiTry s
                then s\<lparr>lastWifiTry := in_millis inp\<rparr> else s)"
  have i1: "samples_in_range s1" using inv by (simp add: s1_def timers_in_range)
  have "loop cfg inp s =
      (case (if learningMode s1 then checkForHeatSignal cfg (in_millis inp) (in_bus inp) s1
             else Some (normal_work cfg inp s1)) of
         None \<Rightarrow> None
       | Some s2 \<Rightarrow> Some (serialEvent cfg (in_bus inp) (in_serial inp) s2))"
    by (simp add: loop_def Let_def s1_def)
  with step obtain s2 where
    s2: "(if learningMode s1 then checkForHeatSignal cfg (in_millis inp) (in_bus inp) s1
          else Some (normal_work cfg inp s1)) = Some s2"
    and s': "s' = serialEvent cfg (in_bus inp) (in_serial inp) s2"
    by (auto split: option.splits)
  have "samples_in_range s2"
  proof (cases "learningMode s1")
    case True
    then show ?thesis using s2 i1 checkForHeatSignal_in_range by simp
  next
    case False
    then show ?thesis using s2 normal_work_in_range[OF bus i1] by auto
  qed
  then show ?thesis unfolding s' using bus size by (intro serialEvent_in_range)
qed

lemma run_loop_in_range:
  assumes size: "ROWS cfg * COLS cfg \<le> 65536"
  shows "\<forall>inp\<in>set inputs. bus_in_range (in_bus inp) \<Longrightarrow> samples_in_range s
           \<Longrightarrow> run_loop cfg inputs s = Some s' \<Longrightarrow> samples_in_range s'"
proof (induction inputs arbitrary: s)
  case Nil
  then show ?case by simp
next
  case (Cons inp inputs)
  from Cons.prems(3) obtain s1 where l: "loop cfg inp s = Some s1" and r: "run_loop cfg inputs s1 = Some s'"
    by (auto split: option.splits)
  have "samples_in_range s1"
    using Cons.prems(1) size Cons.prems(2) l by (intro loop_in_range[of inp cfg s s1]) simp_all
  then show ?case using Cons.IH[of s1] Cons.prems(1) r by simp
qed

lemma baseline_loop_in_range:
  "baseline_loop cfg temps s xs = Some s' \<Longrightarrow> samples_in_range s' = samples_in_range s"
  by (induction xs arbitrary: s) (auto simp: samples_in_range_def split: if_splits)

lemma getFloat_in_range: "store_in_range store \<Longrightarrow> \<bar>getFloat store key 0\<bar> \<le> 512"
  by (auto simp: getFloat_def store_in_range_def split: option.splits nvs_value.splits)

lemma loadCalibration_in_range:
  assumes "samples_in_range s"
  shows "samples_in_range (loadCalibration cfg s)"
  using assms getFloat_in_range[of "sensor_cal_nvs s"]
  by (simp add: loadCalibration_def samples_in_range_def Let_def for_grid_set2)

lemma setupSensors_in_range:
  assumes "samples_in_range s"
  shows "samples_in_range (setupSensors cfg devices s)"
  using assms by (simp add: setupSensors_def samples_in_range_def Let_def for_grid_set2)

lemma loadOrLearnMapping_in_range:
  assumes "loadOrLearnMapping cfg temps s = Some s'"
  shows "samples_in_range s' = samples_in_range s"
proof (cases "getBool (sensor_map_nvs s) ''complete'' False")
  case True
  then show ?thesis using assms by (auto simp: loadOrLearnMapping_def Let_def samples_in_range_def)
next
  case False
  then have "baseline_loop cfg temps
               (s\<lparr>mappingComplete := False, learningMode := True, learnedSensors := 0\<rparr>)
               [0..<nat (discoveredCount s)] = Some s'"
    using assms by (simp add: loadOrLearnMapping_def Let_def startLearningMode_def)
  from baseline_loop_in_range[OF this] show ?thesis by (simp add: samples_in_range_def)
qed

lemma setup_in_range:
  assumes store: "store_in_range cal_store"
    and boot: "setup_sketch cfg devices temps (power_on ident map_store cal_store) = Some s0"
  shows "samples_in_range s0"
proof -
  have "samples_in_range (power_on ident map_store cal_store)"
    using store by (simp add: samples_in_range_def power_on_def)
  then have "samples_in_range (setupSensors cfg devices (power_on ident map_store cal_store))"
    by (rule setupSensors_in_range)
  moreover from boot obtain s1 where
    l: "loadOrLearnMapping cfg temps (setupSensors cfg devices (power_on ident map_store cal_store)) = Some s1"
    and s0: "s0 = loadCalibration cfg s1"
    by (auto simp: setup_sketch_def split: option.splits)
  ultimately have "samples_in_range s1" using loadOrLearnMapping_in_range[OF l] by simp
  then show ?thesis unfolding s0 by (rule loadCalibration_in_range)
qed

lemma concat_grid:
  "concat (map (\<lambda>row. map (\<lambda>col. g row col) cs) rs) = map (\<lambda>(row, col). g row col) (List.product rs cs)"
  by (induction rs) (simp_all add: comp_def)

lemma report_samples_build: "report_samples (build_report cfg millis s) = valid_samples cfg s"
  by (simp add: report_samples_def build_report_def valid_samples_def grid_samples_def
      grid_positions_def concat_grid split: prod.splits)

lemma valid_samples_bound:
  assumes "samples_in_range s"
  shows "\<forall>t\<in>set (valid_samples cfg s). t \<le> 999"
proof
  fix t assume "t \<in> set (valid_samples cfg s)"
  then obtain r c where "t = temperatureGrid s r c"
    by (auto simp: valid_samples_def grid_samples_def)
  moreover have "temperatureGrid s r c \<le> 768" using assms by (simp add: samples_in_range_def)
  ultimately show "t \<le> 999" by simp
qed

lemma min_below_start:
  assumes "\<forall>t\<in>set vs. t \<le> (999::rat)" "vs \<noteq> []"
  shows "min 999 (Min (set vs)) = Min (set vs)"
proof -
  obtain t where t: "t \<in> set vs" using assms(2) by (cases vs) auto
  have "Min (set vs) \<le> t" using t by simp
  also have "t \<le> 999" using assms(1) t by blast
  finally show ?thesis by simp
qed

lemma report_statistics_in_range:
  assumes "\<forall>t\<in>set (valid_samples cfg s). t \<le> 999"
  shows "statistics (build_report cfg millis s) =
     (if valid_samples cfg s = [] then None
      else Some \<lparr>min_temp = Min (set (valid_samples cfg s)),
                 max_temp = Max (set (valid_samples cfg s)),
                 avg_temp = fdiv (float_sum (valid_samples cfg s)) (of_nat (length (valid_samples cfg s))),
                 valid_readings = int (length (valid_samples cfg s))\<rparr>)"
  using min_below_start[OF assms] by (simp add: report_statistics)

lemma loop_report_built:
  assumes bus: "bus_in_range (in_bus inp)" and inv: "samples_in_range s"
    and sent: "loop_report cfg inp s = Some rep"
  shows "\<exists>millis s'. samples_in_range s' \<and> rep = build_report cfg millis s'"
proof -
  define s1 where "s1 = (if \<not> in_wifi inp \<and> 30000 < in_millis inp - lastWifiTry s
                then s\<lparr>lastWifiTry := in_millis inp\<rparr> else s)"
  have i1: "samples_in_range s1" using inv by (simp add: s1_def timers_in_range)
  define s2 where "s2 = (if MEASUREMENT_PERIOD s1 \<le> in_millis inp - lastMeasurementTime s1
            then measureTemperatures cfg (in_bus inp) (s1\<lparr>lastMeasurementTime := in_millis inp\<rparr>)
            else s1)"
  have i2: "samples_in_range s2" unfolding s2_def using bus i1 by (rule measured_in_range)
  have "loop_report cfg inp s = (if learningMode s1 then None else normal_report cfg inp s1)"
    by (simp add: loop_report_def Let_def s1_def)
  with sent have "normal_report cfg inp s1 = Some rep"
    by (simp split: if_splits)
  moreover have "normal_report cfg inp s1 =
      (if SEND_PERIOD s2 \<le> in_millis inp - lastSendTime s2
       then fst (sendData cfg (in_millis inp) (in_wifi inp) (in_http_code inp) (in_http_body inp)
                     (s2\<lparr>lastSendTime := in_millis inp\<rparr>))
       else None)"
    by (simp add: normal_report_def Let_def s2_def)
  ultimately have "fst (sendData cfg (in_millis inp) (in_wifi inp) (in_http_code inp) (in_http_body inp)
                     (s2\<lparr>lastSendTime := in_millis inp\<rparr>)) = Some rep"
    by (simp split: if_splits)
  then have "rep = build_report cfg (in_millis inp) (s2\<lparr>lastSendTime := in_millis inp\<rparr>)"
    by (auto simp: sendData_def split: if_splits)
  moreover have "samples_in_range (s2\<lparr>lastSendTime := in_millis inp\<rparr>)"
    using i2 by (simp add: timers_in_range)
  ultimately show ?thesis by blast
qed

lemma earlier_variant_statistics:
  assumes bus: "bus_in_range temps"
  shows "statistics (build_report cfg millis (measureTemperatures_v3 cfg temps s)) =
     (if valid_samples cfg (measureTemperatures_v3 cfg temps s) = [] then None
      else Some \<lparr>min_temp = Min (set (valid_samples cfg (measureTemperatures_v3 cfg temps s))),
                 max_temp = Max (set (valid_samples cfg (measureTemperatures_v3 cfg temps s))),
                 avg_temp = fdiv (float_sum (valid_samples cfg (measureTemperatures_v3 cfg temps s)))
                              (of_nat (length (valid_samples cfg (measureTemperatures_v3 cfg temps s)))),
                 valid_readings = int (length (valid_samples cfg (measureTemperatures_v3 cfg temps s)))\<rparr>)"
proof (rule report_statistics_in_range, rule ballI)
  fix t assume "t \<in> set (valid_samples cfg (measureTemperatures_v3 cfg temps s))"
  then obtain r c where rc: "r < ROWS cfg" "c < COLS cfg"
    and t: "t = temperatureGrid (measureTemperatures_v3 cfg temps s) r c"
    by (auto simp: valid_samples_def grid_samples_def grid_positions_def)
  have "\<bar>temps (sensorMap s r c)\<bar> \<le> 256" using bus by (simp add: bus_in_range_def)
  then have "temps (sensorMap s r c) \<le> 999" by linarith
  then show "t \<le> 999" unfolding t using rc by (simp add: measureTemperatures_v3_grid)
qed

lemma fold_set2_cell:
  "distinct ps \<Longrightarrow>
   fold (\<lambda>(row, col) g. set2 g row col (h row col (g row col))) ps g0
     = (\<lambda>r c. if (r, c) \<in> set ps then h r c (g0 r c) else g0 r c)"
proof (induction ps arbitrary: g0)
  case Nil
  show ?case by simp
next
  case (Cons p ps)
  obtain row col where p: "p = (row, col)" by (cases p)
  have d: "distinct ps" and n: "(row, col) \<notin> set ps" using Cons.prems p by simp_all
  show ?case unfolding p using n by (simp add: Cons.IH[OF d]) (auto simp: set2_def fun_eq_iff)
qed

lemma for_grid_set2_cell:
  "for_grid cfg (\<lambda>row col g. set2 g row col (h row col (g row col))) g0
     = (\<lambda>r c. if r < ROWS cfg \<and> c < COLS cfg then h r c (g0 r c) else g0 r c)"
proof -
  have "distinct (List.product [0..<ROWS cfg] [0..<COLS cfg])" by (simp add: distinct_product)
  from fold_set2_cell[OF this] show ?thesis unfolding for_grid_def by simp
qed

lemma stored_map_grid:
  "for_grid cfg (\<lambda>row col m. set2 m row col (getBytes store (map_key row col) (m row col))) m0
     = (\<lambda>r c. if r < ROWS cfg \<and> c < COLS cfg then getBytes store (map_key r c) (m0 r c) else m0 r c)"
  using for_grid_set2_cell[of cfg "\<lambda>row col old. getBytes store (map_key row col) old" m0] by simp

lemma map_key_digits:
  "r < 10 \<Longrightarrow> c < 10 \<Longrightarrow> map_key r c = [digit_char r, CHR ''_'', digit_char c]"
  by (simp add: map_key_def decimal_digit)

lemma warmed_in_range: "bus_in_range (warmed k)"
  unfolding bus_in_range_def
proof
  fix a show "\<bar>warmed k a\<bar> \<le> 256" by (cases a) simp
qed

lemma stored_boot:
  "\<exists>s0. setup_sketch bEEmapiX_config bus_21 (warmed 0) (power_on ''A1B2C3'' stored_map Map.empty) = Some s0
      \<and> \<not> learningMode s0 \<and> mappingComplete s0
      \<and> MEASUREMENT_PERIOD s0 = 10000 \<and> SEND_PERIOD s0 = 10000
      \<and> lastMeasurementTime s0 = 0 \<and> lastSendTime s0 = 0
      \<and> sensorMap s0 = (\<lambda>r c. if r < 3 \<and> c < 7
                            then getBytes stored_map (map_key r c) empty_address
                            else empty_address)
      \<and> calibrationOffset s0 = (\<lambda>r c. 0)"
proof -
  let ?p = "power_on ''A1B2C3'' stored_map Map.empty"
  let ?a = "setupSensors bEEmapiX_config bus_21 ?p"
  have m: "sensorMap ?a = (\<lambda>row col. empty_address)"
    by (rule setupSensors_map) (simp add: power_on_def)
  have a: "sensor_map_nvs ?a = stored_map" "sensor_cal_nvs ?a = Map.empty"
    "\<not> learningMode ?a" "MEASUREMENT_PERIOD ?a = 10000" "SEND_PERIOD ?a = 10000"
    "lastMeasurementTime ?a = 0" "lastSendTime ?a = 0" "calibrationOffset ?a = (\<lambda>r c. 0)"
    by (simp_all add: setupSensors_def power_on_def Let_def)
  have flag: "getBool stored_map ''complete'' False" by (simp add: getBool_def stored_map_def)
  define b where "b = ?a\<lparr>mappingComplete := True,
      sensorMap := (\<lambda>r c. if r < 3 \<and> c < 7
                            then getBytes stored_map (map_key r c) empty_address
                            else empty_address)\<rparr>"
  have l: "loadOrLearnMapping bEEmapiX_config (warmed 0) ?a = Some b"
    using flag by (simp add: loadOrLearnMapping_def Let_def a m stored_map_grid config_dims b_def)
  have boot: "setup_sketch bEEmapiX_config bus_21 (warmed 0) ?p = Some (loadCalibration bEEmapiX_config b)"
    by (simp add: setup_sketch_def l)
  have nocal: "\<not> getBool (sensor_cal_nvs b) ''done'' False"
    by (simp add: b_def a getBool_def)
  have f: "\<not> learningMode (loadCalibration bEEmapiX_config b)"
    "mappingComplete (loadCalibration bEEmapiX_config b)"
    "MEASUREMENT_PERIOD (loadCalibration bEEmapiX_config b) = 10000"
    "SEND_PERIOD (loadCalibration bEEmapiX_config b) = 10000"
    "lastMeasurementTime (loadCalibration bEEmapiX_config b) = 0"
    "lastSendTime (loadCalibration bEEmapiX_config b) = 0"
    "sensorMap (loadCalibration bEEmapiX_config b) = (\<lambda>r c. if r < 3 \<and> c < 7
                            then getBytes stored_map (map_key r c) empty_address
                            else empty_address)"
    "calibrationOffset (loadCalibration bEEmapiX_config b) = (\<lambda>r c. 0)"
    using nocal by (simp_all add: loadCalibration_def Let_def b_def a for_grid_set2 fun_eq_iff)
  from boot f show ?thesis by blast
qed

lemma stored_cells:
  "getBytes stored_map (map_key 0 0) empty_address = sensor_addr 0"
  "getBytes stored_map (map_key 0 2) empty_address = sensor_addr 2"
  "0 < c \<Longrightarrow> c \<noteq> 2 \<Longrightarrow> c < 7 \<Longrightarrow> getBytes stored_map (map_key 0 c) empty_address = empty_address"
  "0 < r \<Longrightarrow> r < 3 \<Longrightarrow> c < 7 \<Longrightarrow> getBytes stored_map (map_key r c) empty_address = empty_address"
proof -
  show "getBytes stored_map (map_key 0 0) empty_address = sensor_addr 0"
    by (simp add: getBytes_def stored_map_def map_key_digits digit_chars)
  show "getBytes stored_map (map_key 0 2) empty_address = sensor_addr 2"
    by (simp add: getBytes_def stored_map_def map_key_digits digit_chars)
  show "getBytes stored_map (map_key 0 c) empty_address = empty_address"
    if "0 < c" "c \<noteq> 2" "c < 7"
  proof -
    from that have "c = 1 \<or> c = 3 \<or> c = 4 \<or> c = 5 \<or> c = 6" by arith
    then show ?thesis
      by (elim disjE) (simp_all add: getBytes_def stored_map_def map_key_digits digit_chars)
  qed
  show "getBytes stored_map (map_key r c) empty_address = empty_address"
    if "0 < r" "r < 3" "c < 7"
  proof -
    from that have "r = 1 \<or> r = 2" by arith
    moreover from that have "c = 0 \<or> c = 1 \<or> c = 2 \<or> c = 3 \<or> c = 4 \<or> c = 5 \<or> c = 6" by arith
    ultimately show ?thesis
      by (elim disjE) (simp_all add: getBytes_def stored_map_def map_key_digits digit_chars)
  qed
qed

lemma measureTemperatures_fields:
  "SEND_PERIOD (measureTemperatures cfg temps s) = SEND_PERIOD s"
  "lastSendTime (measureTemperatures cfg temps s) = lastSendTime s"
  by (simp_all add: measureTemperatures_def)

lemma warmed_cells:
  "warmed (Suc 0) (sensor_addr 0) = 22" "warmed (Suc 0) (sensor_addr 2) = 20"
  "\<not> isAddressEmpty (sensor_addr 0)" "\<not> isAddressEmpty (sensor_addr 2)"
  "isAddressEmpty empty_address"
  by (simp_all add: sensor_addr_def isAddressEmpty_iff empty_address_def)


lemma level_floats:
  "float_sum [22, 20] = 42" "fdiv 42 2 = 21" "fsub 21 22 = - 1" "fsub 21 20 = 1"
  "fadd 22 (- 1) = 21" "fadd 20 1 = 21" "float_sum [21, 21] = 42"
  by code_simp+

lemma stored_valid:
  assumes smap: "sensorMap s = (\<lambda>r c. if r < 3 \<and> c < 7
                            then getBytes stored_map (map_key r c) empty_address
                            else empty_address)"
  shows "cal_valid_positions bEEmapiX_config s (warmed (Suc 0)) = [(0, 0), (0, 2)]"
  by (simp add: cal_valid_positions_def grid_21 cal_valid_def smap stored_cells warmed_cells
      DEVICE_DISCONNECTED_C_def)

lemma stored_mean:
  assumes smap: "sensorMap s = (\<lambda>r c. if r < 3 \<and> c < 7
                            then getBytes stored_map (map_key r c) empty_address
                            else empty_address)"
  shows "cal_mean bEEmapiX_config s (warmed (Suc 0)) = 21"
  by (simp add: cal_mean_def stored_valid[OF smap])
     (simp add: smap stored_cells warmed_cells level_floats)


section \<open>The claims\<close>

text \<open>
  C1, as stated, would have a tick skip an identity that is already mapped and assign a
  later one. On the example, sensor 0 (mapped) and sensor 1 (not mapped) both exceed the
  threshold, and the tick assigns nothing.
\<close>

theorem mapped_candidate_blocks_later_one:
  "heat_signal second_touch after_first_touch 0
   \<and> alreadyLearned bEEmapiX_config (sensorMap after_first_touch) (discoveredAddresses after_first_touch 0)
   \<and> heat_signal second_touch after_first_touch 1
   \<and> \<not> alreadyLearned bEEmapiX_config (sensorMap after_first_touch) (discoveredAddresses after_first_touch 1)
   \<and> checkForHeatSignal bEEmapiX_config 2000 second_touch after_first_touch
       = Some (after_first_touch\<lparr>lastCheck := 2000\<rparr>)
   \<and> sensorMap (after_first_touch\<lparr>lastCheck := 2000\<rparr>) 0 1 = empty_address
   \<and> learnedSensors (after_first_touch\<lparr>lastCheck := 2000\<rparr>) = 1"
  by (simp add: checkForHeatSignal_def heat_signal_def upt21 fsub_2 heat_found_def alreadyLearned_def
      addressesMatch_iff upt_small example_defs Let_def)

text \<open>
  C1 (amended): the candidate of a learning tick is the first identity, in enumeration
  order, whose reading exceeds its baseline by more than 1.5 degrees, whether it is mapped
  or not. When that candidate is already assigned in the map, the tick assigns nothing,
  also when a later identity exceeds its threshold and is not mapped: the state changes
  in \<open>lastCheck\<close> only.
\<close>

theorem duplicate_candidate_discards_tick:
  assumes due: "\<not> millis - lastCheck s < 1000"
    and i: "i < nat (discoveredCount s)" "i < TOTAL_SENSORS cfg"
    and first: "\<forall>j<i. \<not> heat_signal temps s j"
    and hot: "heat_signal temps s i"
    and dup: "alreadyLearned cfg (sensorMap s) (discoveredAddresses s i)"
  shows "checkForHeatSignal cfg millis temps s = Some (s\<lparr>lastCheck := millis\<rparr>)"
proof -
  let ?s = "s\<lparr>lastCheck := millis\<rparr>"
  have "\<forall>j\<in>set [0..<i]. j < TOTAL_SENSORS cfg \<and> \<not> heat_signal temps ?s j"
    using first i by auto
  then have "heat_loop cfg temps ?s ([0..<i] @ i # [Suc i..<nat (discoveredCount s)])
      = heat_loop cfg temps ?s (i # [Suc i..<nat (discoveredCount s)])"
    by (rule heat_loop_skip)
  also have "\<dots> = heat_found cfg ?s i (temps (discoveredAddresses ?s i))"
    using i hot by (intro heat_loop_hit) simp_all
  also have "\<dots> = Some ?s"
    using dup by (simp add: heat_found_def)
  finally show ?thesis
    using due upt_split_at[OF i(1)] by (simp add: checkForHeatSignal_def)
qed


theorem duplicate_candidate_discards_tick_witness:
  "heat_signal second_touch after_first_touch 0
   \<and> alreadyLearned bEEmapiX_config (sensorMap after_first_touch) (discoveredAddresses after_first_touch 0)
   \<and> checkForHeatSignal bEEmapiX_config 2000 second_touch after_first_touch
       = Some (after_first_touch\<lparr>lastCheck := 2000\<rparr>)"
proof -
  have due: "\<not> (2000::32 word) - lastCheck after_first_touch < 1000"
    by (simp add: example_defs)
  have i: "0 < nat (discoveredCount after_first_touch)" "0 < TOTAL_SENSORS bEEmapiX_config"
    by (simp_all add: example_defs)
  have first: "\<forall>j<0::nat. \<not> heat_signal second_touch after_first_touch j" by simp
  have hot: "heat_signal second_touch after_first_touch 0"
    by (simp add: heat_signal_def example_defs fsub_2)
  have dup: "alreadyLearned bEEmapiX_config (sensorMap after_first_touch) (discoveredAddresses after_first_touch 0)"
    by (simp add: alreadyLearned_def addressesMatch_iff upt_small example_defs)
  from duplicate_candidate_discards_tick[OF due i first hot dup] hot dup show ?thesis by simp
qed


text \<open>
  C8: a learning tick makes at most one assignment, and it makes one exactly when it is due
  and the first identity over the threshold is not in the map. That identity is then bound
  to position \<open>(learnedSensors / COLS, learnedSensors % COLS)\<close>, \<open>learnedSensors\<close> goes up
  by exactly one and the identity's baseline becomes its current reading. A tick that is not
  due changes nothing; a due tick with no identity over the threshold, or whose first such
  identity is already in the map, only records the time of the check. In every case the map
  changes at no other position and the count by at most one.
\<close>

theorem learning_tick_single_assignment:
  assumes ok: "config_ok cfg"
    and ls: "0 \<le> learnedSensors s" "learnedSensors s < int (TOTAL_SENSORS cfg)"
    and dc: "discoveredCount s \<le> int (TOTAL_SENSORS cfg)"
  shows "\<exists>s'. checkForHeatSignal cfg millis temps s = Some s'
      \<and> (millis - lastCheck s < 1000 \<longrightarrow> s' = s)
      \<and> (\<not> millis - lastCheck s < 1000 \<and> (\<forall>j<nat (discoveredCount s). \<not> heat_signal temps s j)
            \<longrightarrow> s' = s\<lparr>lastCheck := millis\<rparr>)
      \<and> (\<forall>i<nat (discoveredCount s).
            \<not> millis - lastCheck s < 1000 \<and> (\<forall>j<i. \<not> heat_signal temps s j) \<and> heat_signal temps s i
            \<longrightarrow> (alreadyLearned cfg (sensorMap s) (discoveredAddresses s i)
                    \<longrightarrow> s' = s\<lparr>lastCheck := millis\<rparr>)
                \<and> (\<not> alreadyLearned cfg (sensorMap s) (discoveredAddresses s i)
                    \<longrightarrow> sensorMap s' = set2 (sensorMap s)
                            (nat (learnedSensors s div int (COLS cfg)))
                            (nat (learnedSensors s mod int (COLS cfg)))
                            (discoveredAddresses s i)
                        \<and> learnedSensors s' = learnedSensors s + 1
                        \<and> baselineTemps s' = (baselineTemps s)(i := temps (discoveredAddresses s i))))
      \<and> (\<forall>r c. sensorMap s' r c \<noteq> sensorMap s r c
            \<longrightarrow> r = nat (learnedSensors s div int (COLS cfg))
                \<and> c = nat (learnedSensors s mod int (COLS cfg)))
      \<and> (learnedSensors s' = learnedSensors s \<or> learnedSensors s' = learnedSensors s + 1)"
proof (cases "millis - lastCheck s < 1000")
  case True
  then have "checkForHeatSignal cfg millis temps s = Some s" by (simp add: checkForHeatSignal_def)
  with True show ?thesis by simp
next
  case due: False
  let ?s = "s\<lparr>lastCheck := millis\<rparr>"
  let ?n = "nat (discoveredCount s)"
  have n: "?n \<le> TOTAL_SENSORS cfg" using dc by simp
  have C: "0 < COLS cfg" using ok by (simp add: config_ok_def)
  have rng: "0 \<le> learnedSensors s sdiv int (COLS cfg) \<and> learnedSensors s sdiv int (COLS cfg) < int (ROWS cfg)
       \<and> 0 \<le> learnedSensors s smod int (COLS cfg) \<and> learnedSensors s smod int (COLS cfg) < int (COLS cfg)"
    using ok ls by (rule grid_index_in_range)
  have chk: "checkForHeatSignal cfg millis temps s = heat_loop cfg temps ?s [0..<?n]"
    using due by (simp add: checkForHeatSignal_def)
  have fld: "sensorMap ?s = sensorMap s" "learnedSensors ?s = learnedSensors s" by simp_all
  from heat_loop_upt[OF n, of temps ?s] show ?thesis
  proof
    assume a: "heat_loop cfg temps ?s [0..<?n] = Some ?s \<and> (\<forall>j<?n. \<not> heat_signal temps ?s j)"
    then have quiet: "\<forall>j<?n. \<not> heat_signal temps s j" by simp
    have r: "checkForHeatSignal cfg millis temps s = Some ?s" using a chk by simp
    show ?thesis
    proof (intro exI[of _ ?s] conjI)
      show "checkForHeatSignal cfg millis temps s = Some ?s" by (rule r)
      show "millis - lastCheck s < 1000 \<longrightarrow> ?s = s" using due by blast
      show "\<not> millis - lastCheck s < 1000 \<and> (\<forall>j<?n. \<not> heat_signal temps s j) \<longrightarrow> ?s = ?s" by blast
      show "\<forall>i<?n. \<not> millis - lastCheck s < 1000 \<and> (\<forall>j<i. \<not> heat_signal temps s j) \<and> heat_signal temps s i
            \<longrightarrow> (alreadyLearned cfg (sensorMap s) (discoveredAddresses s i) \<longrightarrow> ?s = ?s)
                \<and> (\<not> alreadyLearned cfg (sensorMap s) (discoveredAddresses s i)
                    \<longrightarrow> sensorMap ?s = set2 (sensorMap s)
                            (nat (learnedSensors s div int (COLS cfg)))
                            (nat (learnedSensors s mod int (COLS cfg)))
                            (discoveredAddresses s i)
                        \<and> learnedSensors ?s = learnedSensors s + 1
                        \<and> baselineTemps ?s = (baselineTemps s)(i := temps (discoveredAddresses s i)))"
        using quiet by blast
      show "\<forall>r c. sensorMap ?s r c \<noteq> sensorMap s r c
            \<longrightarrow> r = nat (learnedSensors s div int (COLS cfg))
                \<and> c = nat (learnedSensors s mod int (COLS cfg))"
        unfolding fld by blast
      show "learnedSensors ?s = learnedSensors s \<or> learnedSensors ?s = learnedSensors s + 1"
        unfolding fld by blast
    qed
  next
    assume "\<exists>i<?n. (\<forall>j<i. \<not> heat_signal temps ?s j) \<and> heat_signal temps ?s i
             \<and> heat_loop cfg temps ?s [0..<?n] = heat_found cfg ?s i (temps (discoveredAddresses ?s i))"
    then obtain i where i: "i < ?n" "\<forall>j<i. \<not> heat_signal temps s j" "heat_signal temps s i"
      and run: "heat_loop cfg temps ?s [0..<?n] = heat_found cfg ?s i (temps (discoveredAddresses s i))"
      by auto
    have uniq: "k = i" if "k < ?n" "\<forall>j<k. \<not> heat_signal temps s j" "heat_signal temps s k" for k
      using that i by (meson nat_neq_iff)
    have noisy: "\<not> (\<forall>j<?n. \<not> heat_signal temps s j)" using i by blast
    show ?thesis
    proof (cases "alreadyLearned cfg (sensorMap s) (discoveredAddresses s i)")
      case dup: True
      have "heat_found cfg ?s i (temps (discoveredAddresses s i)) = Some ?s"
        using dup by (simp add: heat_found_def)
      then have r: "checkForHeatSignal cfg millis temps s = Some ?s" using chk run by simp
      show ?thesis
      proof (intro exI[of _ ?s] conjI)
        show "checkForHeatSignal cfg millis temps s = Some ?s" by (rule r)
        show "millis - lastCheck s < 1000 \<longrightarrow> ?s = s" using due by blast
        show "\<not> millis - lastCheck s < 1000 \<and> (\<forall>j<?n. \<not> heat_signal temps s j) \<longrightarrow> ?s = ?s" by blast
        show "\<forall>k<?n. \<not> millis - lastCheck s < 1000 \<and> (\<forall>j<k. \<not> heat_signal temps s j) \<and> heat_signal temps s k
            \<longrightarrow> (alreadyLearned cfg (sensorMap s) (discoveredAddresses s k) \<longrightarrow> ?s = ?s)
                \<and> (\<not> alreadyLearned cfg (sensorMap s) (discoveredAddresses s k)
                    \<longrightarrow> sensorMap ?s = set2 (sensorMap s)
                            (nat (learnedSensors s div int (COLS cfg)))
                            (nat (learnedSensors s mod int (COLS cfg)))
                            (discoveredAddresses s k)
                        \<and> learnedSensors ?s = learnedSensors s + 1
                        \<and> baselineTemps ?s = (baselineTemps s)(k := temps (discoveredAddresses s k)))"
        proof (intro allI impI)
          fix k assume "k < ?n"
            and "\<not> millis - lastCheck s < 1000 \<and> (\<forall>j<k. \<not> heat_signal temps s j) \<and> heat_signal temps s k"
          then have "k = i" using uniq by blast
          then show "(alreadyLearned cfg (sensorMap s) (discoveredAddresses s k) \<longrightarrow> ?s = ?s)
                \<and> (\<not> alreadyLearned cfg (sensorMap s) (discoveredAddresses s k)
                    \<longrightarrow> sensorMap ?s = set2 (sensorMap s)
                            (nat (learnedSensors s div int (COLS cfg)))
                            (nat (learnedSensors s mod int (COLS cfg)))
                            (discoveredAddresses s k)
                        \<and> learnedSensors ?s = learnedSensors s + 1
                        \<and> baselineTemps ?s = (baselineTemps s)(k := temps (discoveredAddresses s k)))"
            using dup by blast
        qed
        show "\<forall>r c. sensorMap ?s r c \<noteq> sensorMap s r c
            \<longrightarrow> r = nat (learnedSensors s div int (COLS cfg))
                \<and> c = nat (learnedSensors s mod int (COLS cfg))"
          unfolding fld by blast
        show "learnedSensors ?s = learnedSensors s \<or> learnedSensors ?s = learnedSensors s + 1"
          unfolding fld by blast
      qed
    next
      case nd: False
      define s1 where "s1 = ?s\<lparr>sensorMap := set2 (sensorMap s)
                            (nat (learnedSensors s sdiv int (COLS cfg)))
                            (nat (learnedSensors s smod int (COLS cfg)))
                            (discoveredAddresses s i),
                        learnedSensors := learnedSensors s + 1,
                        baselineTemps := (baselineTemps s)(i := temps (discoveredAddresses s i))\<rparr>"
      define s' where "s' = (if learnedSensors s1 < int (TOTAL_SENSORS cfg) then s1 else finishLearning cfg s1)"
      have hf: "heat_found cfg ?s i (temps (discoveredAddresses s i)) = Some s'"
        using nd rng by (simp add: heat_found_def Let_def s'_def s1_def)
      have r: "checkForHeatSignal cfg millis temps s = Some s'" using chk run hf by simp
      have sd: "learnedSensors s sdiv int (COLS cfg) = learnedSensors s div int (COLS cfg)"
        "learnedSensors s smod int (COLS cfg) = learnedSensors s mod int (COLS cfg)"
        using ls C by (simp_all add: sdiv_nonneg smod_nonneg)
      have f: "sensorMap s' = sensorMap s1" "learnedSensors s' = learnedSensors s1"
        "baselineTemps s' = baselineTemps s1"
        by (simp_all add: s'_def finishLearning_def Let_def)
      have m: "sensorMap s1 = set2 (sensorMap s)
                            (nat (learnedSensors s div int (COLS cfg)))
                            (nat (learnedSensors s mod int (COLS cfg)))
                            (discoveredAddresses s i)"
        "learnedSensors s1 = learnedSensors s + 1"
        "baselineTemps s1 = (baselineTemps s)(i := temps (discoveredAddresses s i))"
        by (simp_all add: s1_def sd)
      show ?thesis
      proof (intro exI[of _ s'] conjI)
        show "checkForHeatSignal cfg millis temps s = Some s'" by (rule r)
        show "millis - lastCheck s < 1000 \<longrightarrow> s' = s" using due by blast
        show "\<not> millis - lastCheck s < 1000 \<and> (\<forall>j<?n. \<not> heat_signal temps s j) \<longrightarrow> s' = ?s"
          using noisy by blast
        show "\<forall>k<?n. \<not> millis - lastCheck s < 1000 \<and> (\<forall>j<k. \<not> heat_signal temps s j) \<and> heat_signal temps s k
            \<longrightarrow> (alreadyLearned cfg (sensorMap s) (discoveredAddresses s k) \<longrightarrow> s' = ?s)
                \<and> (\<not> alreadyLearned cfg (sensorMap s) (discoveredAddresses s k)
                    \<longrightarrow> sensorMap s' = set2 (sensorMap s)
                            (nat (learnedSensors s div int (COLS cfg)))
                            (nat (learnedSensors s mod int (COLS cfg)))
                            (discoveredAddresses s k)
                        \<and> learnedSensors s' = learnedSensors s + 1
                        \<and> baselineTemps s' = (baselineTemps s)(k := temps (discoveredAddresses s k)))"
        proof (intro allI impI)
          fix k assume "k < ?n"
            and "\<not> millis - lastCheck s < 1000 \<and> (\<forall>j<k. \<not> heat_signal temps s j) \<and> heat_signal temps s k"
          then have k: "k = i" using uniq by blast
          show "(alreadyLearned cfg (sensorMap s) (discoveredAddresses s k) \<longrightarrow> s' = ?s)
                \<and> (\<not> alreadyLearned cfg (sensorMap s) (discoveredAddresses s k)
                    \<longrightarrow> sensorMap s' = set2 (sensorMap s)
                            (nat (learnedSensors s div int (COLS cfg)))
                            (nat (learnedSensors s mod int (COLS cfg)))
                            (discoveredAddresses s k)
                        \<and> learnedSensors s' = learnedSensors s + 1
                        \<and> baselineTemps s' = (baselineTemps s)(k := temps (discoveredAddresses s k)))"
            unfolding k f m using nd by blast
        qed
        show "\<forall>r c. sensorMap s' r c \<noteq> sensorMap s r c
            \<longrightarrow> r = nat (learnedSensors s div int (COLS cfg))
                \<and> c = nat (learnedSensors s mod int (COLS cfg))"
          unfolding f m by (simp add: set2_def)
        show "learnedSensors s' = learnedSensors s \<or> learnedSensors s' = learnedSensors s + 1"
          unfolding f m by blast
      qed
    qed
  qed
qed

theorem learning_tick_single_assignment_witness:
  "config_ok bEEmapiX_config
   \<and> 0 \<le> learnedSensors learning_start
   \<and> learnedSensors learning_start < int (TOTAL_SENSORS bEEmapiX_config)
   \<and> discoveredCount learning_start \<le> int (TOTAL_SENSORS bEEmapiX_config)
   \<and> \<not> (1000 :: 32 word) - lastCheck learning_start < 1000
   \<and> heat_signal first_touch learning_start 0
   \<and> \<not> alreadyLearned bEEmapiX_config (sensorMap learning_start) (discoveredAddresses learning_start 0)
   \<and> (\<exists>s'. checkForHeatSignal bEEmapiX_config 1000 first_touch learning_start = Some s'
          \<and> sensorMap s' 0 0 = sensor_addr 0
          \<and> learnedSensors s' = 1
          \<and> baselineTemps s' 0 = 22
          \<and> baselineTemps s' 2 = 20)"
proof -
  have ok: "config_ok bEEmapiX_config" by (simp add: config_ok_def bEEmapiX_config_def)
  have ls: "0 \<le> learnedSensors learning_start"
    "learnedSensors learning_start < int (TOTAL_SENSORS bEEmapiX_config)"
    by (simp_all add: example_defs)
  have dc: "discoveredCount learning_start \<le> int (TOTAL_SENSORS bEEmapiX_config)"
    by (simp add: example_defs)
  have n: "0 < nat (discoveredCount learning_start)" by (simp add: example_defs)
  have due: "\<not> (1000 :: 32 word) - lastCheck learning_start < 1000"
    by (simp add: example_defs)
  have hot: "heat_signal first_touch learning_start 0"
    by (simp add: heat_signal_def fsub_2 example_defs)
  have fresh: "\<not> alreadyLearned bEEmapiX_config (sensorMap learning_start)
                 (discoveredAddresses learning_start 0)"
    by (simp add: alreadyLearned_def addressesMatch_iff upt_small example_defs)
  have vals: "learnedSensors learning_start = 0" "COLS bEEmapiX_config = 7"
    "discoveredAddresses learning_start 0 = sensor_addr 0"
    "first_touch (sensor_addr 0) = 22" "baselineTemps learning_start = (\<lambda>i. 20)"
    by (simp_all add: learning_start_def power_on_def bEEmapiX_config_def first_touch_def)
  from learning_tick_single_assignment[OF ok ls dc, of 1000 first_touch]
  obtain s' where r: "checkForHeatSignal bEEmapiX_config 1000 first_touch learning_start = Some s'"
    and assign: "\<forall>i<nat (discoveredCount learning_start).
            \<not> (1000 :: 32 word) - lastCheck learning_start < 1000
            \<and> (\<forall>j<i. \<not> heat_signal first_touch learning_start j)
            \<and> heat_signal first_touch learning_start i
            \<longrightarrow> (alreadyLearned bEEmapiX_config (sensorMap learning_start)
                     (discoveredAddresses learning_start i)
                    \<longrightarrow> s' = learning_start\<lparr>lastCheck := 1000\<rparr>)
                \<and> (\<not> alreadyLearned bEEmapiX_config (sensorMap learning_start)
                       (discoveredAddresses learning_start i)
                    \<longrightarrow> sensorMap s' = set2 (sensorMap learning_start)
                            (nat (learnedSensors learning_start div int (COLS bEEmapiX_config)))
                            (nat (learnedSensors learning_start mod int (COLS bEEmapiX_config)))
                            (discoveredAddresses learning_start i)
                        \<and> learnedSensors s' = learnedSensors learning_start + 1
                        \<and> baselineTemps s'
                            = (baselineTemps learning_start)
                                (i := first_touch (discoveredAddresses learning_start i)))"
    by blast
  from assign n due hot fresh
  have a: "sensorMap s' = set2 (sensorMap learning_start)
                            (nat (learnedSensors learning_start div int (COLS bEEmapiX_config)))
                            (nat (learnedSensors learning_start mod int (COLS bEEmapiX_config)))
                            (discoveredAddresses learning_start 0)"
      "learnedSensors s' = learnedSensors learning_start + 1"
      "baselineTemps s' = (baselineTemps learning_start)
                                (0 := first_touch (discoveredAddresses learning_start 0))"
    by blast+
  have "sensorMap s' 0 0 = sensor_addr 0" "learnedSensors s' = 1"
    "baselineTemps s' 0 = 22" "baselineTemps s' 2 = 20"
    unfolding a vals by (simp_all add: set2_def)
  with r ok ls dc due hot fresh show ?thesis by blast
qed

text \<open>
  C2: when learning starts from an empty store and the completion flag becomes true, every
  position of the \<open>ROWS\<close> by \<open>COLS\<close> grid holds an assigned address, and the
  \<open>ROWS * COLS\<close> addresses are pairwise distinct.
\<close>

theorem completed_mapping_full_and_distinct:
  assumes ok: "config_ok cfg"
    and fresh: "\<not> getBool map_store ''complete'' False"
    and boot: "setup_sketch cfg devices temps (power_on ident map_store cal_store) = Some s0"
    and run: "run_loop cfg inputs s0 = Some s"
    and fin: "mappingComplete s"
  shows "learnedSensors s = int (ROWS cfg * COLS cfg)
       \<and> (\<forall>r<ROWS cfg. \<forall>c<COLS cfg. \<not> isAddressEmpty (sensorMap s r c))
       \<and> (\<forall>r<ROWS cfg. \<forall>c<COLS cfg. \<forall>r'<ROWS cfg. \<forall>c'<COLS cfg.
             sensorMap s r c = sensorMap s r' c' \<longrightarrow> r = r' \<and> c = c')"
proof -
  have T: "0 < TOTAL_SENSORS cfg" "TOTAL_SENSORS cfg = ROWS cfg * COLS cfg" "0 < COLS cfg"
    using ok by (simp_all add: config_ok_def)
  have "learning_inv cfg (learn_core s0)"
    unfolding setup_fresh_core[OF fresh boot] using T(1) by (rule learning_inv_fresh)
  then have inv: "learning_inv cfg (learn_core s)" using run by (rule learning_inv_run[OF ok])
  with fin have n: "learnedSensors s = int (TOTAL_SENSORS cfg)"
    and used: "\<forall>k<TOTAL_SENSORS cfg. cell cfg (sensorMap s) k \<noteq> empty_address"
    and inj: "\<forall>k<TOTAL_SENSORS cfg. \<forall>k'<TOTAL_SENSORS cfg.
              cell cfg (sensorMap s) k = cell cfg (sensorMap s) k' \<longrightarrow> k = k'"
    by (simp_all add: learning_inv_def learn_core_def)
  show ?thesis
  proof (intro conjI allI impI)
    show "learnedSensors s = int (ROWS cfg * COLS cfg)" using n T(2) by simp
  next
    fix r c assume "r < ROWS cfg" "c < COLS cfg"
    with ok have "r * COLS cfg + c < TOTAL_SENSORS cfg
        \<and> cell cfg (sensorMap s) (r * COLS cfg + c) = sensorMap s r c"
      by (rule grid_cell)
    then show "\<not> isAddressEmpty (sensorMap s r c)"
      using used unfolding isAddressEmpty_iff by metis
  next
    fix r c r' c'
    assume rc: "r < ROWS cfg" "c < COLS cfg" and rc': "r' < ROWS cfg" "c' < COLS cfg"
      and eq: "sensorMap s r c = sensorMap s r' c'"
    from grid_cell[OF ok rc] grid_cell[OF ok rc'] eq inj
    have "r * COLS cfg + c = r' * COLS cfg + c'" by metis
    then have "(r * COLS cfg + c) div COLS cfg = (r' * COLS cfg + c') div COLS cfg"
      "(r * COLS cfg + c) mod COLS cfg = (r' * COLS cfg + c') mod COLS cfg" by simp_all
    then show "r = r'" "c = c'" using rc(2) rc'(2) by simp_all
  qed
qed

theorem completed_mapping_full_and_distinct_witness:
  "config_ok bEEmapiX_config
   \<and> \<not> getBool Map.empty ''complete'' False
   \<and> (\<exists>s0 s. setup_sketch bEEmapiX_config bus_21 (warmed 0)
                  (power_on ''A1B2C3'' Map.empty Map.empty) = Some s0
          \<and> run_loop bEEmapiX_config full_session s0 = Some s
          \<and> mappingComplete s
          \<and> learnedSensors s = 21)"
proof -
  have ok: "config_ok bEEmapiX_config" by (simp add: config_ok_def bEEmapiX_config_def)
  have fresh: "\<not> getBool Map.empty ''complete'' False" by (simp add: getBool_def)
  from session_eval obtain s0 s
    where boot: "setup_sketch bEEmapiX_config bus_21 (warmed 0)
                   (power_on ''A1B2C3'' Map.empty Map.empty) = Some s0"
      and run: "run_loop bEEmapiX_config full_session s0 = Some s"
      and fin: "mappingComplete s"
    by blast
  from completed_mapping_full_and_distinct[OF ok fresh boot run fin]
  have "learnedSensors s = 21" by (simp add: bEEmapiX_config_def)
  with ok fresh boot run fin show ?thesis by blast
qed

text \<open>
  C10: \<open>setup\<close> establishes and every pass of \<open>loop\<close> preserves
  \<open>0 \<le> learnedSensors \<le> ROWS * COLS\<close> together with: learning mode implies
  \<open>learnedSensors < ROWS * COLS\<close>. Hence in learning mode the row and the column that an
  assignment computes lie inside the grid, and the write to the map is within bounds.
  A pass of \<open>loop\<close> itself completes when the bus holds no more than \<open>TOTAL_SENSORS\<close>
  devices.
\<close>

theorem learned_count_invariant:
  assumes ok: "config_ok cfg"
  shows "(setup_sketch cfg devices temps (power_on ident map_store cal_store) = Some s0
            \<longrightarrow> learned_count_ok cfg s0)
       \<and> (learned_count_ok cfg s \<longrightarrow>
            (\<forall>s'. loop cfg inp s = Some s' \<longrightarrow> learned_count_ok cfg s')
            \<and> (discoveredCount s \<le> int (TOTAL_SENSORS cfg) \<longrightarrow> loop cfg inp s \<noteq> None)
            \<and> (learningMode s \<longrightarrow>
                  0 \<le> learnedSensors s sdiv int (COLS cfg)
                  \<and> learnedSensors s sdiv int (COLS cfg) < int (ROWS cfg)
                  \<and> 0 \<le> learnedSensors s smod int (COLS cfg)
                  \<and> learnedSensors s smod int (COLS cfg) < int (COLS cfg)
                  \<and> heat_found cfg s i currentTemp \<noteq> None))"
proof (intro conjI impI allI)
  have T: "TOTAL_SENSORS cfg = ROWS cfg * COLS cfg" "0 < ROWS cfg * COLS cfg"
    using ok by (simp_all add: config_ok_def)
  {
    assume "setup_sketch cfg devices temps (power_on ident map_store cal_store) = Some s0"
    then have "learnedSensors s0 = 0" by (rule setup_learned_count)
    then show "learned_count_ok cfg s0" using T(2) by (simp add: learned_count_ok_def)
  }
  {
    fix s' assume inv: "learned_count_ok cfg s" and l: "loop cfg inp s = Some s'"
    from loop_core[OF l] inv T show "learned_count_ok cfg s'"
      by (auto simp: learn_step_def learn_core_def learned_count_ok_def)
  }
  {
    assume inv: "learned_count_ok cfg s" and dc: "discoveredCount s \<le> int (TOTAL_SENSORS cfg)"
    show "loop cfg inp s \<noteq> None"
    proof (cases "learningMode s")
      case False
      then show ?thesis by (simp add: loop_def Let_def)
    next
      case True
      define s1 where "s1 = (if \<not> in_wifi inp \<and> 30000 < in_millis inp - lastWifiTry s
                then s\<lparr>lastWifiTry := in_millis inp\<rparr> else s)"
      have "0 \<le> learnedSensors s1" "learnedSensors s1 < int (TOTAL_SENSORS cfg)"
        "discoveredCount s1 \<le> int (TOTAL_SENSORS cfg)"
        using inv True dc T by (simp_all add: s1_def learned_count_ok_def)
      from heat_tick_returns[OF ok this, of "in_millis inp" "in_bus inp"]
      obtain s2 where "checkForHeatSignal cfg (in_millis inp) (in_bus inp) s1 = Some s2" by blast
      then show ?thesis using True by (simp add: loop_def Let_def s1_def)
    qed
  }
  {
    assume inv: "learned_count_ok cfg s" and lm: "learningMode s"
    then have ls: "0 \<le> learnedSensors s" "learnedSensors s < int (TOTAL_SENSORS cfg)"
      using T by (simp_all add: learned_count_ok_def)
    from grid_index_in_range[OF ok ls]
    show "0 \<le> learnedSensors s sdiv int (COLS cfg)"
      "learnedSensors s sdiv int (COLS cfg) < int (ROWS cfg)"
      "0 \<le> learnedSensors s smod int (COLS cfg)"
      "learnedSensors s smod int (COLS cfg) < int (COLS cfg)"
      by simp_all
    with grid_index_in_range[OF ok ls] show "heat_found cfg s i currentTemp \<noteq> None"
      by (simp add: heat_found_def Let_def)
  }
qed


theorem learned_count_invariant_witness:
  "config_ok bEEmapiX_config
   \<and> learned_count_ok bEEmapiX_config learning_start
   \<and> learningMode learning_start
   \<and> heat_found bEEmapiX_config learning_start 0 22 \<noteq> None"
proof -
  have ok: "config_ok bEEmapiX_config" by (simp add: config_ok_def bEEmapiX_config_def)
  have inv: "learned_count_ok bEEmapiX_config learning_start"
    by (simp add: learned_count_ok_def example_defs)
  have lm: "learningMode learning_start" by (simp add: example_defs)
  from learned_count_invariant[OF ok, of _ _ _ _ _ _ learning_start _ 0 22] inv lm
  have "heat_found bEEmapiX_config learning_start 0 22 \<noteq> None" by blast
  with ok inv lm show ?thesis by simp
qed

text \<open>
  C7: a calibration run in which fewer than two positions deliver a valid reading changes
  nothing, neither the offsets in memory nor the calibration store, and saves nothing; on
  a complete mapping its outcome is \<open>InsufficientSensors\<close>.
\<close>

theorem too_few_valid_readings_abort:
  assumes "length (cal_valid_positions cfg s temps) < 2"
  shows "snd (runCalibration cfg temps s) = s
       \<and> fst (runCalibration cfg temps s) \<noteq> CalibrationSaved
       \<and> (mappingComplete s \<longrightarrow> fst (runCalibration cfg temps s) = InsufficientSensors)"
  using assms by (simp add: runCalibration_aborts)


theorem too_few_valid_readings_abort_witness:
  "length (cal_valid_positions bEEmapiX_config normal_state one_alive) < 2
   \<and> mappingComplete normal_state
   \<and> runCalibration bEEmapiX_config one_alive normal_state = (InsufficientSensors, normal_state)"
proof -
  have few: "length (cal_valid_positions bEEmapiX_config normal_state one_alive) < 2"
    by (simp add: one_alive_valid)
  have mc: "mappingComplete normal_state" by (simp add: normal_state_def)
  from too_few_valid_readings_abort[OF few] mc
  have "runCalibration bEEmapiX_config one_alive normal_state = (InsufficientSensors, normal_state)"
    by (simp add: prod_eq_iff)
  with few mc show ?thesis by simp
qed

text \<open>
  C4, as stated, asks for \<open>raw + offset = mean\<close> exactly. With one sensor at 30 degrees
  and twenty at 4 the mean is \<open>5492541 / 2 ^ 20\<close>; the offset of the warm sensor is the
  rounded difference, and adding it to the reading of 30 gives \<open>1373135 / 2 ^ 18\<close>.
\<close>

theorem round_trip_misses_mean:
  "mappingComplete normal_state
   \<and> cal_valid normal_state one_hot 0 0
   \<and> fst (runCalibration bEEmapiX_config one_hot normal_state) = CalibrationSaved
   \<and> one_hot (sensorMap normal_state 0 0) = 30
   \<and> cal_mean bEEmapiX_config normal_state one_hot = 5492541 / 1048576
   \<and> calibrationOffset (snd (runCalibration bEEmapiX_config one_hot normal_state)) 0 0
       = - (6491185 / 262144)
   \<and> fadd (one_hot (sensorMap normal_state 0 0))
          (calibrationOffset (snd (runCalibration bEEmapiX_config one_hot normal_state)) 0 0)
       = 1373135 / 262144
   \<and> (1373135 / 262144 :: rat) \<noteq> 5492541 / 1048576"
proof -
  have mc: "mappingComplete normal_state" by (simp add: normal_state_def)
  have n: "2 \<le> length (cal_valid_positions bEEmapiX_config normal_state one_hot)"
    by (simp add: one_hot_valid grid_21)
  have v: "cal_valid normal_state one_hot 0 0"
    by (simp add: cal_valid_def isAddressEmpty_iff state_defs DEVICE_DISCONNECTED_C_def)
  have raw: "one_hot (sensorMap normal_state 0 0) = 30" by (simp add: state_defs)
  have pos: "0 < ROWS bEEmapiX_config" "0 < COLS bEEmapiX_config"
    by (simp_all add: bEEmapiX_config_def)
  have off: "calibrationOffset (snd (runCalibration bEEmapiX_config one_hot normal_state)) 0 0
      = - (6491185 / 262144)"
    using v pos by (simp add: runCalibration_saved[OF mc n] cal_offsets_def one_hot_mean raw one_hot_floats)
  show ?thesis
    using mc v raw off by (simp add: runCalibration_saved[OF mc n] one_hot_mean one_hot_floats)
qed


text \<open>
  C4 (amended): after a successful calibration the offset of every position with a valid
  reading is the single-precision difference \<open>mean - raw\<close>, where \<open>mean\<close> is the
  single-precision mean of the valid readings. The single-precision sum \<open>raw + offset\<close>
  differs from \<open>mean\<close> by at most \<open>(|raw| + |mean|) / 2 ^ 22 + 1 / 2 ^ 148\<close>. It is
  exactly \<open>mean\<close> whenever the subtraction is exact, and the subtraction is exact whenever
  the reading is a binary32 value between \<open>mean / 2\<close> and \<open>2 * mean\<close>.
\<close>

theorem calibration_offset_round_trip:
  assumes cmpl: "mappingComplete s" "2 \<le> length (cal_valid_positions cfg s temps)"
    and pos: "r < ROWS cfg" "c < COLS cfg"
    and valid: "cal_valid s temps r c"
  shows "fst (runCalibration cfg temps s) = CalibrationSaved
       \<and> calibrationOffset (snd (runCalibration cfg temps s)) r c
           = fsub (cal_mean cfg s temps) (temps (sensorMap s r c))
       \<and> \<bar>fadd (temps (sensorMap s r c)) (calibrationOffset (snd (runCalibration cfg temps s)) r c)
            - cal_mean cfg s temps\<bar>
           \<le> (\<bar>temps (sensorMap s r c)\<bar> + \<bar>cal_mean cfg s temps\<bar>) / 2 ^ 22 + 1 / 2 ^ 148
       \<and> (fsub (cal_mean cfg s temps) (temps (sensorMap s r c))
             = cal_mean cfg s temps - temps (sensorMap s r c)
           \<longrightarrow> fadd (temps (sensorMap s r c)) (calibrationOffset (snd (runCalibration cfg temps s)) r c)
                 = cal_mean cfg s temps)
       \<and> (binary32 (temps (sensorMap s r c))
           \<and> cal_mean cfg s temps / 2 \<le> temps (sensorMap s r c)
           \<and> temps (sensorMap s r c) \<le> 2 * cal_mean cfg s temps
           \<longrightarrow> fsub (cal_mean cfg s temps) (temps (sensorMap s r c))
                 = cal_mean cfg s temps - temps (sensorMap s r c)
               \<and> fadd (temps (sensorMap s r c)) (calibrationOffset (snd (runCalibration cfg temps s)) r c)
                 = cal_mean cfg s temps)"
proof -
  define raw where "raw = temps (sensorMap s r c)"
  define mean where "mean = cal_mean cfg s temps"
  define off where "off = calibrationOffset (snd (runCalibration cfg temps s)) r c"
  have saved: "fst (runCalibration cfg temps s) = CalibrationSaved"
    by (simp add: runCalibration_saved[OF cmpl])
  have off: "off = fsub mean raw"
    unfolding off_def mean_def raw_def
    using pos valid by (simp add: runCalibration_saved[OF cmpl] cal_offsets_def)
  have mean: "fl32 mean = mean"
    by (simp add: mean_def cal_mean_def fdiv_def fl32_idem)
  have err: "\<bar>fadd raw off - mean\<bar> \<le> (\<bar>raw\<bar> + \<bar>mean\<bar>) / 2 ^ 22 + 1 / 2 ^ 148"
    unfolding off by (rule round_trip_error)
  have exact: "fadd raw off = mean" if "fsub mean raw = mean - raw"
    unfolding off that by (simp add: fadd_def mean)
  have near: "fsub mean raw = mean - raw \<and> fadd raw off = mean"
    if "binary32 raw \<and> mean / 2 \<le> raw \<and> raw \<le> 2 * mean"
  proof -
    from that have rep: "fl32 raw = raw" and big: "raw < 2 ^ 128"
      and lo: "raw / 2 \<le> mean" and hi: "mean \<le> 2 * raw"
      by (auto simp: binary32_def)
    have "fl32 (mean - raw) = mean - raw"
      using mean rep lo hi big by (rule fl32_sub_exact)
    then have "fsub mean raw = mean - raw" by (simp add: fsub_def)
    then show ?thesis using exact by blast
  qed
  show ?thesis
    using saved off err exact near unfolding off_def mean_def raw_def by blast
qed

theorem calibration_offset_round_trip_witness:
  "mappingComplete normal_state
   \<and> 2 \<le> length (cal_valid_positions bEEmapiX_config normal_state one_hot)
   \<and> 0 < ROWS bEEmapiX_config \<and> 2 < COLS bEEmapiX_config
   \<and> cal_valid normal_state one_hot 0 2
   \<and> binary32 (one_hot (sensorMap normal_state 0 2))
   \<and> cal_mean bEEmapiX_config normal_state one_hot / 2 \<le> one_hot (sensorMap normal_state 0 2)
   \<and> one_hot (sensorMap normal_state 0 2) \<le> 2 * cal_mean bEEmapiX_config normal_state one_hot
   \<and> fsub (cal_mean bEEmapiX_config normal_state one_hot) (one_hot (sensorMap normal_state 0 2))
       = cal_mean bEEmapiX_config normal_state one_hot - one_hot (sensorMap normal_state 0 2)
   \<and> calibrationOffset (snd (runCalibration bEEmapiX_config one_hot normal_state)) 0 2
       = 1298237 / 1048576
   \<and> fadd (one_hot (sensorMap normal_state 0 2))
          (calibrationOffset (snd (runCalibration bEEmapiX_config one_hot normal_state)) 0 2)
       = cal_mean bEEmapiX_config normal_state one_hot"
proof -
  have mc: "mappingComplete normal_state" by (simp add: normal_state_def)
  have n: "2 \<le> length (cal_valid_positions bEEmapiX_config normal_state one_hot)"
    by (simp add: one_hot_valid grid_21)
  have pos: "0 < ROWS bEEmapiX_config" "2 < COLS bEEmapiX_config"
    by (simp_all add: bEEmapiX_config_def)
  have v: "cal_valid normal_state one_hot 0 2"
    by (simp add: cal_valid_def isAddressEmpty_iff state_defs DEVICE_DISCONNECTED_C_def)
  have raw: "one_hot (sensorMap normal_state 0 2) = 4" by (simp add: state_defs)
  have rep: "binary32 (one_hot (sensorMap normal_state 0 2))"
    unfolding raw by (rule binary32_4)
  have near: "cal_mean bEEmapiX_config normal_state one_hot / 2 \<le> one_hot (sensorMap normal_state 0 2)"
    "one_hot (sensorMap normal_state 0 2) \<le> 2 * cal_mean bEEmapiX_config normal_state one_hot"
    by (simp_all add: one_hot_mean raw)
  have exact: "fsub (cal_mean bEEmapiX_config normal_state one_hot) (one_hot (sensorMap normal_state 0 2))
       = cal_mean bEEmapiX_config normal_state one_hot - one_hot (sensorMap normal_state 0 2)"
    by (simp add: one_hot_mean raw one_hot_floats)
  note inst = calibration_offset_round_trip[OF mc n pos v]
  from inst have "calibrationOffset (snd (runCalibration bEEmapiX_config one_hot normal_state)) 0 2
       = fsub (cal_mean bEEmapiX_config normal_state one_hot) (one_hot (sensorMap normal_state 0 2))"
    by blast
  then have off: "calibrationOffset (snd (runCalibration bEEmapiX_config one_hot normal_state)) 0 2
       = 1298237 / 1048576"
    by (simp add: one_hot_mean raw one_hot_floats)
  from inst rep near
  have "fadd (one_hot (sensorMap normal_state 0 2))
          (calibrationOffset (snd (runCalibration bEEmapiX_config one_hot normal_state)) 0 2)
       = cal_mean bEEmapiX_config normal_state one_hot" by blast
  with mc n pos v rep near exact off show ?thesis by blast
qed

text \<open>
  C9: the claim is that after a successful run a later load gives offset 0 for a position
  without a valid reading, whatever was stored before. The run sets that offset to 0 in
  memory but writes nothing for the position into the store: on the example the value 1.5
  of an earlier calibration stays under its key and comes back with the next load.
\<close>

theorem stale_offset_returns_on_reload:
  "mappingComplete recal_state
   \<and> \<not> cal_valid recal_state first_absent 0 0
   \<and> fst (runCalibration bEEmapiX_config first_absent recal_state) = CalibrationSaved
   \<and> calibrationOffset (snd (runCalibration bEEmapiX_config first_absent recal_state)) 0 0 = 0
   \<and> sensor_cal_nvs (snd (runCalibration bEEmapiX_config first_absent recal_state)) (cal_key 0 0)
       = Some (NvsFloat (3 / 2))
   \<and> calibrationOffset
         (loadCalibration bEEmapiX_config (snd (runCalibration bEEmapiX_config first_absent recal_state)))
         0 0 = 3 / 2"
proof -
  have mc: "mappingComplete recal_state" by (simp add: state_defs)
  have n: "2 \<le> length (cal_valid_positions bEEmapiX_config recal_state first_absent)"
    by (simp add: first_absent_valid grid_21)
  have nv: "\<not> cal_valid recal_state first_absent 0 0"
    by (simp add: cal_valid_def state_defs DEVICE_DISCONNECTED_C_def)
  have pos: "0 < ROWS bEEmapiX_config" "0 < COLS bEEmapiX_config"
    by (simp_all add: bEEmapiX_config_def)
  have off: "calibrationOffset (snd (runCalibration bEEmapiX_config first_absent recal_state)) 0 0 = 0"
    using nv pos by (simp add: runCalibration_saved[OF mc n] cal_offsets_def)
  have store: "sensor_cal_nvs (snd (runCalibration bEEmapiX_config first_absent recal_state)) (cal_key 0 0)
       = Some (NvsFloat (3 / 2))"
  proof -
    have "cal_puts recal_state first_absent (cal_mean bEEmapiX_config recal_state first_absent)
            (grid_positions bEEmapiX_config) (sensor_cal_nvs recal_state) (cal_key 0 0)
          = Some (NvsFloat (3 / 2))"
      by (simp add: cal_puts_def grid_21 cal_key_digits digit_chars cal_valid_def isAddressEmpty_iff
          DEVICE_DISCONNECTED_C_def state_defs)
    then show ?thesis
      by (simp add: runCalibration_saved[OF mc n] cal_key_digits digit_chars)
  qed
  have flag: "getBool (sensor_cal_nvs (snd (runCalibration bEEmapiX_config first_absent recal_state)))
       ''done'' False"
    by (simp add: runCalibration_saved[OF mc n] getBool_def)
  have "calibrationOffset
         (loadCalibration bEEmapiX_config (snd (runCalibration bEEmapiX_config first_absent recal_state)))
         0 0 = 3 / 2"
    using flag pos by (simp add: loadCalibration_def Let_def for_grid_set2 getFloat_def store)
  with mc nv off store show ?thesis by (simp add: runCalibration_saved[OF mc n])
qed

text \<open>
  C3, as stated, gives \<open>max(s, 10) * 1000\<close> milliseconds for every interval \<open>s\<close>. The
  period is an \<open>unsigned long\<close> of 32 bits: for \<open>s = 4294968\<close> the product wraps to 704
  and the clamp makes it 10000.
\<close>

theorem large_interval_wraps:
  "(0::int) < 200
   \<and> SEND_PERIOD (snd (sendData bEEmapiX_config 60000 True 200 (JsonDoc (Some 1) (Some 4294968)) normal_state))
       = 10000
   \<and> unat (SEND_PERIOD (snd (sendData bEEmapiX_config 60000 True 200 (JsonDoc (Some 1) (Some 4294968)) normal_state)))
       \<noteq> max 4294968 10 * 1000"
  by (simp add: sendData_def apply_directive_def Let_def)


text \<open>
  C3 (amended): after a successful send, a reply \<open>{"edit": 1, "interval": s}\<close> sets the
  sending and the measuring period to \<open>s * 1000\<close> modulo \<open>2 ^ 32\<close>, raised to 10000 when
  it is below. The period is never below 10000 milliseconds, and it is
  \<open>max(s, 10) * 1000\<close> whenever \<open>s \<le> 4294967\<close>, that is when \<open>s * 1000\<close> fits in
  32 bits; an interval of 3 gives 10 seconds.
\<close>

theorem directive_sets_clamped_period:
  assumes "wifi_connected" and "0 < httpResponseCode"
  shows "SEND_PERIOD (snd (sendData cfg millis wifi_connected httpResponseCode (JsonDoc (Some 1) (Some v)) s))
           = (if v * 1000 < 10000 then 10000 else v * 1000)
       \<and> MEASUREMENT_PERIOD (snd (sendData cfg millis wifi_connected httpResponseCode (JsonDoc (Some 1) (Some v)) s))
           = SEND_PERIOD (snd (sendData cfg millis wifi_connected httpResponseCode (JsonDoc (Some 1) (Some v)) s))
       \<and> 10000 \<le> SEND_PERIOD (snd (sendData cfg millis wifi_connected httpResponseCode (JsonDoc (Some 1) (Some v)) s))
       \<and> (unat v \<le> 4294967 \<longrightarrow>
            unat (SEND_PERIOD (snd (sendData cfg millis wifi_connected httpResponseCode (JsonDoc (Some 1) (Some v)) s)))
              = max (unat v) 10 * 1000)"
proof -
  let ?p = "if v * 1000 < 10000 then 10000 else v * 1000"
  have sp: "SEND_PERIOD (snd (sendData cfg millis wifi_connected httpResponseCode (JsonDoc (Some 1) (Some v)) s)) = ?p"
    and mp: "MEASUREMENT_PERIOD (snd (sendData cfg millis wifi_connected httpResponseCode (JsonDoc (Some 1) (Some v)) s)) = ?p"
    using assms by (simp_all add: sendData_def apply_directive_def Let_def)
  have floor: "10000 \<le> ?p" by (simp add: not_less)
  have fit: "unat ?p = max (unat v) 10 * 1000" if "unat v \<le> 4294967"
  proof -
    have "unat v * unat (1000 :: 32 word) < 2 ^ LENGTH(32)" using that by simp
    then have m: "unat (v * 1000) = unat v * 1000"
      by (simp add: unat_mult_lem[THEN iffD1])
    have "v * 1000 < 10000 \<longleftrightarrow> unat v < 10"
      by (simp add: word_less_nat_alt m)
    then show ?thesis by (auto simp: m max_def)
  qed
  show ?thesis unfolding sp mp using floor fit by blast
qed



theorem directive_sets_clamped_period_witness:
  "(0::int) < 200
   \<and> unat (3 :: 32 word) \<le> 4294967
   \<and> unat (SEND_PERIOD (snd (sendData bEEmapiX_config 60000 True 200 (JsonDoc (Some 1) (Some 3)) normal_state)))
       = 10000"
proof -
  have c: "(0::int) < 200" by simp
  have f: "unat (3 :: 32 word) \<le> 4294967" by simp
  from directive_sets_clamped_period[OF TrueI c, of bEEmapiX_config 60000 3 normal_state] f
  have "unat (SEND_PERIOD (snd (sendData bEEmapiX_config 60000 True 200 (JsonDoc (Some 1) (Some 3)) normal_state)))
       = max (unat (3 :: 32 word)) 10 * 1000" by blast
  then show ?thesis using c f by simp
qed

text \<open>
  C5, as stated, makes every sample of a connected, assigned sensor valid. With an offset
  of -77 and a reading of -50 the stored sum is -127, the invalid sentinel itself.
\<close>

theorem offset_sample_hits_sentinel:
  "\<not> isAddressEmpty (sensorMap offset_state 0 0)
   \<and> DEVICE_DISCONNECTED_C < cold_bus (sensorMap offset_state 0 0)
   \<and> temperatureGrid (measureTemperatures bEEmapiX_config cold_bus offset_state) 0 0
       = fadd (cold_bus (sensorMap offset_state 0 0)) (calibrationOffset offset_state 0 0)
   \<and> temperatureGrid (measureTemperatures bEEmapiX_config cold_bus offset_state) 0 0 = - 127
   \<and> \<not> sample_valid (temperatureGrid (measureTemperatures bEEmapiX_config cold_bus offset_state) 0 0)"
  by (simp add: measureTemperatures_grid bEEmapiX_config_def isAddressEmpty_iff offset_state_def
      cold_bus_def state_defs set2_apply cold_sum sample_valid_def DEVICE_DISCONNECTED_C_def)


text \<open>
  C5 (amended): for every position of the grid, the sample is the sentinel -127 when the
  position is unassigned or when the reading is at or below the disconnected value;
  otherwise it is the single-precision sum of the reading and the position's offset, and
  it is valid exactly when that sum is above -127. The offset is 0 for every position
  after a load that finds no stored calibration, and with offset 0 the sample is the
  reading itself and valid. The earlier variant of the sketch stores the reading of an
  assigned sensor as it is.
\<close>

theorem sample_of_position:
  assumes "row < ROWS cfg" and "col < COLS cfg"
  shows "(isAddressEmpty (sensorMap s row col)
            \<longrightarrow> temperatureGrid (measureTemperatures cfg temps s) row col = - 127)
       \<and> (\<not> isAddressEmpty (sensorMap s row col) \<and> temps (sensorMap s row col) \<le> DEVICE_DISCONNECTED_C
            \<longrightarrow> temperatureGrid (measureTemperatures cfg temps s) row col = - 127)
       \<and> \<not> sample_valid (- 127)
       \<and> (\<not> isAddressEmpty (sensorMap s row col) \<and> DEVICE_DISCONNECTED_C < temps (sensorMap s row col)
            \<longrightarrow> temperatureGrid (measureTemperatures cfg temps s) row col
                  = fadd (temps (sensorMap s row col)) (calibrationOffset s row col)
                \<and> (sample_valid (temperatureGrid (measureTemperatures cfg temps s) row col)
                     \<longleftrightarrow> - 127 < fadd (temps (sensorMap s row col)) (calibrationOffset s row col)))
       \<and> (\<not> getBool (sensor_cal_nvs s) ''done'' False
            \<longrightarrow> calibrationOffset (loadCalibration cfg s) row col = 0)
       \<and> (\<not> isAddressEmpty (sensorMap s row col) \<and> DEVICE_DISCONNECTED_C < temps (sensorMap s row col)
           \<and> calibrationOffset s row col = 0 \<and> fl32 (temps (sensorMap s row col)) = temps (sensorMap s row col)
            \<longrightarrow> temperatureGrid (measureTemperatures cfg temps s) row col = temps (sensorMap s row col)
                \<and> sample_valid (temperatureGrid (measureTemperatures cfg temps s) row col))
       \<and> temperatureGrid (measureTemperatures_v3 cfg temps s) row col
           = (if isAddressEmpty (sensorMap s row col) then - 127 else temps (sensorMap s row col))"
  using assms
  by (auto simp: measureTemperatures_grid measureTemperatures_v3_grid sample_valid_def
      DEVICE_DISCONNECTED_C_def fadd_def loadCalibration_none)


theorem sample_of_position_witness:
  "0 < ROWS bEEmapiX_config \<and> 2 < COLS bEEmapiX_config
   \<and> \<not> isAddressEmpty (sensorMap offset_state 0 2)
   \<and> DEVICE_DISCONNECTED_C < cold_bus (sensorMap offset_state 0 2)
   \<and> calibrationOffset offset_state 0 2 = 0
   \<and> fl32 (cold_bus (sensorMap offset_state 0 2)) = cold_bus (sensorMap offset_state 0 2)
   \<and> temperatureGrid (measureTemperatures bEEmapiX_config cold_bus offset_state) 0 2 = 20
   \<and> sample_valid (temperatureGrid (measureTemperatures bEEmapiX_config cold_bus offset_state) 0 2)"
proof -
  have pos: "0 < ROWS bEEmapiX_config" "2 < COLS bEEmapiX_config"
    by (simp_all add: bEEmapiX_config_def)
  have raw: "cold_bus (sensorMap offset_state 0 2) = 20"
    by (simp add: offset_state_def cold_bus_def state_defs)
  have ne: "\<not> isAddressEmpty (sensorMap offset_state 0 2)"
    by (simp add: isAddressEmpty_iff offset_state_def state_defs)
  have conn: "DEVICE_DISCONNECTED_C < cold_bus (sensorMap offset_state 0 2)"
    by (simp add: raw DEVICE_DISCONNECTED_C_def)
  have off: "calibrationOffset offset_state 0 2 = 0"
    by (simp add: offset_state_def set2_apply)
  have fl: "fl32 (20 :: rat) = 20" by code_simp
  have rep: "fl32 (cold_bus (sensorMap offset_state 0 2)) = cold_bus (sensorMap offset_state 0 2)"
    by (simp add: raw fl)
  from sample_of_position[OF pos, of offset_state cold_bus] ne conn off rep
  have g: "temperatureGrid (measureTemperatures bEEmapiX_config cold_bus offset_state) 0 2
          = cold_bus (sensorMap offset_state 0 2)"
    and v: "sample_valid (temperatureGrid (measureTemperatures bEEmapiX_config cold_bus offset_state) 0 2)"
    by blast+
  from g raw have g20: "temperatureGrid (measureTemperatures bEEmapiX_config cold_bus offset_state) 0 2 = 20"
    by simp
  from pos ne conn off rep g20 v show ?thesis by blast
qed

text \<open>
  C6: a report that a pass of \<open>loop\<close> posts carries the statistics block exactly when its
  grid holds a valid sample. The count, the minimum and the maximum are those of the valid
  samples of the report's grid, and the mean is their single-precision running sum divided
  by their count. This holds on a device that \<open>setup\<close> has started and that has run
  through any passes of \<open>loop\<close>, for readings in the range of the sensors and a
  calibration store whose offsets at power-on are in the range of what the firmware
  computes from such readings.
\<close>

theorem report_statistics_over_valid_samples:
  assumes size: "ROWS cfg * COLS cfg \<le> 65536"
    and store: "store_in_range cal_store"
    and boot: "setup_sketch cfg devices temps0 (power_on ident map_store cal_store) = Some s0"
    and buses: "\<forall>i\<in>set inputs. bus_in_range (in_bus i)"
    and run: "run_loop cfg inputs s0 = Some s"
    and bus: "bus_in_range (in_bus inp)"
    and sent: "loop_report cfg inp s = Some rep"
  shows "(statistics rep = None \<longleftrightarrow> report_samples rep = [])
       \<and> (\<forall>st. statistics rep = Some st \<longrightarrow>
             valid_readings st = int (length (report_samples rep))
             \<and> min_temp st = Min (set (report_samples rep))
             \<and> max_temp st = Max (set (report_samples rep))
             \<and> avg_temp st = fdiv (float_sum (report_samples rep)) (of_nat (length (report_samples rep))))"
proof -
  have "samples_in_range s0" using store boot by (rule setup_in_range)
  then have "samples_in_range s" using run_loop_in_range[OF size buses _ run] by blast
  from loop_report_built[OF bus this sent] obtain millis s' where
    inv: "samples_in_range s'" and rep: "rep = build_report cfg millis s'" by blast
  have vs: "report_samples rep = valid_samples cfg s'" unfolding rep by (rule report_samples_build)
  have st: "statistics rep =
     (if valid_samples cfg s' = [] then None
      else Some \<lparr>min_temp = Min (set (valid_samples cfg s')),
                 max_temp = Max (set (valid_samples cfg s')),
                 avg_temp = fdiv (float_sum (valid_samples cfg s')) (of_nat (length (valid_samples cfg s'))),
                 valid_readings = int (length (valid_samples cfg s'))\<rparr>)"
    unfolding rep using valid_samples_bound[OF inv] by (rule report_statistics_in_range)
  show ?thesis unfolding vs st by auto
qed

theorem report_statistics_over_valid_samples_witness:
  "ROWS bEEmapiX_config * COLS bEEmapiX_config \<le> 65536
   \<and> store_in_range Map.empty
   \<and> bus_in_range (in_bus calibrate_tick)
   \<and> bus_in_range (in_bus report_tick)
   \<and> (\<exists>s0 s rep st.
         setup_sketch bEEmapiX_config bus_21 (warmed 0) (power_on ''A1B2C3'' stored_map Map.empty) = Some s0
         \<and> run_loop bEEmapiX_config [calibrate_tick] s0 = Some s
         \<and> calibrationOffset s 0 0 = - 1 \<and> calibrationOffset s 0 2 = 1
         \<and> loop_report bEEmapiX_config report_tick s = Some rep
         \<and> report_samples rep = [21, 21]
         \<and> statistics rep = Some st
         \<and> valid_readings st = 2 \<and> min_temp st = 21 \<and> max_temp st = 21 \<and> avg_temp st = 21)"
proof -
  have size: "ROWS bEEmapiX_config * COLS bEEmapiX_config \<le> 65536" by (simp add: config_dims)
  have store: "store_in_range Map.empty" by (rule store_in_range_empty)
  have bus1: "bus_in_range (in_bus calibrate_tick)" by (simp add: calibrate_tick_def warmed_in_range)
  have bus: "bus_in_range (in_bus report_tick)" by (simp add: report_tick_def warmed_in_range)
  have buses: "\<forall>i\<in>set [calibrate_tick]. bus_in_range (in_bus i)" using bus1 by simp
  obtain s0 where
    boot: "setup_sketch bEEmapiX_config bus_21 (warmed 0) (power_on ''A1B2C3'' stored_map Map.empty) = Some s0"
    and mode: "\<not> learningMode s0" and mc: "mappingComplete s0"
    and timers: "MEASUREMENT_PERIOD s0 = 10000" "SEND_PERIOD s0 = 10000"
      "lastMeasurementTime s0 = 0" "lastSendTime s0 = 0"
    and smap: "sensorMap s0 = (\<lambda>r c. if r < 3 \<and> c < 7
                            then getBytes stored_map (map_key r c) empty_address
                            else empty_address)"
    and offs: "calibrationOffset s0 = (\<lambda>r c. 0)"
    using stored_boot by blast
  have n: "2 \<le> length (cal_valid_positions bEEmapiX_config s0 (warmed (Suc 0)))"
    by (simp add: stored_valid[OF smap])
  define s where "s = snd (runCalibration bEEmapiX_config (warmed (Suc 0)) s0)"
  have work: "normal_work bEEmapiX_config calibrate_tick s0 = s0"
    by (simp add: normal_work_def Let_def calibrate_tick_def timers)
  have pass: "loop bEEmapiX_config calibrate_tick s0 = Some s"
    unfolding loop_def Let_def using mode work
    by (simp add: calibrate_tick_def serialEvent_def s_def)
  have run: "run_loop bEEmapiX_config [calibrate_tick] s0 = Some s" by (simp add: pass)
  have sf: "\<not> learningMode s" "MEASUREMENT_PERIOD s = 10000" "SEND_PERIOD s = 10000"
    "lastMeasurementTime s = 0" "lastSendTime s = 0" "sensorMap s = sensorMap s0"
    "calibrationOffset s = cal_offsets bEEmapiX_config s0 (warmed (Suc 0))"
    unfolding s_def runCalibration_saved[OF mc n] by (simp_all add: mode timers)
  have cv: "cal_valid s0 (warmed (Suc 0)) 0 0" "cal_valid s0 (warmed (Suc 0)) 0 2"
    by (simp_all add: cal_valid_def smap stored_cells warmed_cells DEVICE_DISCONNECTED_C_def)
  have off: "calibrationOffset s 0 0 = - 1" "calibrationOffset s 0 2 = 1"
    unfolding sf cal_offsets_def stored_mean[OF smap]
    using cv by (simp_all add: config_dims smap stored_cells warmed_cells level_floats)
  define s2 where "s2 = (measureTemperatures bEEmapiX_config (warmed (Suc 0))
                           (s\<lparr>lastMeasurementTime := 10000\<rparr>))\<lparr>lastSendTime := 10000\<rparr>"
  define rep where "rep = build_report bEEmapiX_config 10000 s2"
  have sent: "loop_report bEEmapiX_config report_tick s = Some rep"
    by (simp add: loop_report_def normal_report_def sendData_def report_tick_def Let_def sf(1-5)
        measureTemperatures_fields rep_def s2_def)
  have g1: "temperatureGrid s2 = temperatureGrid (measureTemperatures bEEmapiX_config (warmed (Suc 0))
                           (s\<lparr>lastMeasurementTime := 10000\<rparr>))"
    by (simp add: s2_def)
  have sm: "sensorMap (s\<lparr>lastMeasurementTime := 10000\<rparr>) = sensorMap s0"
    "calibrationOffset (s\<lparr>lastMeasurementTime := 10000\<rparr>) = calibrationOffset s"
    by (simp_all add: sf)
  have grid: "temperatureGrid s2 r c = (if r < 3 \<and> c < 7
            then (if isAddressEmpty (sensorMap s0 r c) then - 127
                  else if warmed (Suc 0) (sensorMap s0 r c) \<le> DEVICE_DISCONNECTED_C then - 127
                  else fadd (warmed (Suc 0) (sensorMap s0 r c)) (calibrationOffset s r c))
            else temperatureGrid s r c)" for r c
    unfolding g1 measureTemperatures_grid sm config_dims by simp
  have samples: "report_samples rep = [21, 21]"
    unfolding rep_def report_samples_build
    by (simp add: valid_samples_def grid_samples_def grid_21 grid smap stored_cells warmed_cells
        off level_floats sample_valid_def DEVICE_DISCONNECTED_C_def)
  note inst = report_statistics_over_valid_samples[OF size store boot buses run bus sent]
  then have "statistics rep \<noteq> None" by (simp add: samples)
  then obtain st where st: "statistics rep = Some st" by blast
  with inst have "valid_readings st = int (length (report_samples rep))"
    "min_temp st = Min (set (report_samples rep))"
    "max_temp st = Max (set (report_samples rep))"
    "avg_temp st = fdiv (float_sum (report_samples rep)) (of_nat (length (report_samples rep)))"
    by blast+
  then have "valid_readings st = 2" "min_temp st = 21" "max_temp st = 21" "avg_temp st = 21"
    by (simp_all add: samples level_floats)
  with size store bus1 bus boot run off sent samples st show ?thesis by blast
qed

end
